(* ===== verification/Prelude.thy ===== *)
theory Prelude
  imports Main "HOL-Library.Word"
begin

section \<open>Shared vocabulary of the development\<close>

text \<open>
  What every component uses: Go's fixed width signed integers as \<open>int\<close> with the
  wrap-around written out, sums for the \<open>(value, error)\<close> pairs of Go, and the generic
  facts on lists of rows (a SQL table is the list of its rows in the order of their
  insertion) that the database, the store and the ledger share.
\<close>

named_theorems row_simps \<open>rewrite rules on tables: lookup, update, insertion\<close>
named_theorems wrap_simps \<open>rewrite rules on wrapped machine integers\<close>

type_synonym ('e, 'a) result = "'e + 'a"

subsection \<open>Machine integers\<close>

definition int_min :: "nat \<Rightarrow> int" where
  "int_min w = - (2 ^ (w - 1))"

definition int_max :: "nat \<Rightarrow> int" where
  "int_max w = 2 ^ (w - 1) - 1"

definition fits :: "nat \<Rightarrow> int \<Rightarrow> bool" where
  "fits w x \<longleftrightarrow> int_min w \<le> x \<and> x \<le> int_max w"

definition wrap :: "nat \<Rightarrow> int \<Rightarrow> int" where
  "wrap w x = (x + 2 ^ (w - 1)) mod 2 ^ w - 2 ^ (w - 1)"

abbreviation i64 :: "int \<Rightarrow> bool" where
  "i64 x \<equiv> fits 64 x"

abbreviation i32 :: "int \<Rightarrow> bool" where
  "i32 x \<equiv> fits 32 x"

abbreviation wrap64 :: "int \<Rightarrow> int" where
  "wrap64 x \<equiv> wrap 64 x"

abbreviation wrap32 :: "int \<Rightarrow> int" where
  "wrap32 x \<equiv> wrap 32 x"

lemma i64_iff [wrap_simps]:
  "i64 x \<longleftrightarrow> - 9223372036854775808 \<le> x \<and> x \<le> 9223372036854775807"
  by (simp add: fits_def int_min_def int_max_def)

lemma i32_iff [wrap_simps]: "i32 x \<longleftrightarrow> - 2147483648 \<le> x \<and> x \<le> 2147483647"
  by (simp add: fits_def int_min_def int_max_def)

lemma wrap64_iff [wrap_simps]:
  "wrap64 x = (x + 9223372036854775808) mod 18446744073709551616 - 9223372036854775808"
  by (simp add: wrap_def)

lemma wrap32_iff [wrap_simps]:
  "wrap32 x = (x + 2147483648) mod 4294967296 - 2147483648"
  by (simp add: wrap_def)

lemma wrap_fits:
  assumes "0 < w"
  shows "fits w (wrap w x)"
proof -
  have p: "(2::int) ^ w = 2 * 2 ^ (w - 1)"
    using assms by (cases w) simp_all
  have "(x + 2 ^ (w - 1)) mod 2 ^ w < 2 ^ w" "0 \<le> (x + 2 ^ (w - 1)) mod 2 ^ w"
    by simp_all
  then show ?thesis
    by (simp add: fits_def wrap_def int_min_def int_max_def p)
qed

lemma wrap_id:
  assumes "0 < w" and "fits w x"
  shows "wrap w x = x"
proof -
  have p: "(2::int) ^ w = 2 * 2 ^ (w - 1)"
    using assms(1) by (cases w) simp_all
  have "0 \<le> x + 2 ^ (w - 1)" "x + 2 ^ (w - 1) < 2 ^ w"
    using assms(2) by (simp_all add: fits_def int_min_def int_max_def p)
  then show ?thesis
    by (simp add: wrap_def)
qed

lemma wrap64_id [simp]: "i64 x \<Longrightarrow> wrap64 x = x"
  by (rule wrap_id) simp_all

lemma wrap32_id [simp]: "i32 x \<Longrightarrow> wrap32 x = x"
  by (rule wrap_id) simp_all

lemma i64_wrap64 [simp, intro]: "i64 (wrap64 x)"
  by (rule wrap_fits) simp

lemma i32_wrap32 [simp, intro]: "i32 (wrap32 x)"
  by (rule wrap_fits) simp

text \<open>The written out wrap-around is the arithmetic of the machine word read as signed.\<close>

lemma wrap64_is_word: "wrap64 x = sint (word_of_int x :: 64 word)"
  by (simp add: sint_sbintrunc' signed_take_bit_eq_take_bit_shift take_bit_eq_mod wrap_def)

lemma wrap32_is_word: "wrap32 x = sint (word_of_int x :: 32 word)"
  by (simp add: sint_sbintrunc' signed_take_bit_eq_take_bit_shift take_bit_eq_mod wrap_def)

subsection \<open>Tables as lists of rows\<close>

definition row_of :: "('r \<Rightarrow> 'k) \<Rightarrow> 'k \<Rightarrow> 'r list \<Rightarrow> 'r option" where
  "row_of key k rs = find (\<lambda>r. key r = k) rs"

definition upd_rows :: "('r \<Rightarrow> 'k) \<Rightarrow> 'k \<Rightarrow> ('r \<Rightarrow> 'r) \<Rightarrow> 'r list \<Rightarrow> 'r list" where
  "upd_rows key k f rs = map (\<lambda>r. if key r = k then f r else r) rs"

lemma row_of_Nil [simp]: "row_of key k [] = None"
  by (simp add: row_of_def)

lemma row_of_Cons [simp]:
  "row_of key k (r # rs) = (if key r = k then Some r else row_of key k rs)"
  by (simp add: row_of_def)

lemma row_of_append [row_simps]:
  "row_of key k (rs @ ss) = (case row_of key k rs of None \<Rightarrow> row_of key k ss | Some r \<Rightarrow> Some r)"
  by (induction rs) auto

lemma row_of_SomeD: "row_of key k rs = Some r \<Longrightarrow> r \<in> set rs \<and> key r = k"
  by (induction rs) (auto split: if_splits)

lemma row_of_None [row_simps]: "row_of key k rs = None \<longleftrightarrow> k \<notin> key ` set rs"
  by (induction rs) auto

lemma row_of_present: "row_of key k rs \<noteq> None \<longleftrightarrow> k \<in> key ` set rs"
  by (metis row_of_None)

lemma row_of_distinct: "distinct (map key rs) \<Longrightarrow> r \<in> set rs \<Longrightarrow> row_of key (key r) rs = Some r"
  by (induction rs) auto

lemma row_of_SomeI: "distinct (map key rs) \<Longrightarrow> r \<in> set rs \<Longrightarrow> key r = k \<Longrightarrow> row_of key k rs = Some r"
  using row_of_distinct by fastforce

lemma upd_rows_Nil [simp]: "upd_rows key k f [] = []"
  by (simp add: upd_rows_def)

lemma upd_rows_Cons [simp]:
  "upd_rows key k f (r # rs) = (if key r = k then f r else r) # upd_rows key k f rs"
  by (simp add: upd_rows_def)

lemma length_upd_rows [simp]: "length (upd_rows key k f rs) = length rs"
  by (simp add: upd_rows_def)

lemma upd_rows_absent [row_simps]: "k \<notin> key ` set rs \<Longrightarrow> upd_rows key k f rs = rs"
  by (induction rs) auto

text \<open>An update that keeps a column keeps that column of the whole table.\<close>

lemma map_upd_rows:
  "(\<And>r. r \<in> set rs \<Longrightarrow> key r = k \<Longrightarrow> col (f r) = col r) \<Longrightarrow>
    map col (upd_rows key k f rs) = map col rs"
  by (induction rs) auto

lemma image_upd_rows:
  "(\<And>r. r \<in> set rs \<Longrightarrow> key r = k \<Longrightarrow> col (f r) = col r) \<Longrightarrow>
    col ` set (upd_rows key k f rs) = col ` set rs"
  using map_upd_rows [of rs key k col f] by (metis list.set_map)

lemma row_of_upd_rows [row_simps]:
  "(\<And>r. key (f r) = key r) \<Longrightarrow>
    row_of key j (upd_rows key k f rs) =
      (if j = k then map_option f (row_of key k rs) else row_of key j rs)"
  by (induction rs) auto

lemma set_upd_rowsD: "r \<in> set (upd_rows key k f rs) \<Longrightarrow>
    (\<exists>q \<in> set rs. key q = k \<and> r = f q) \<or> (r \<in> set rs \<and> key r \<noteq> k)"
  by (auto simp: upd_rows_def)

lemma filter_upd_rows_length:
  "(\<And>r. P (f r) = P r) \<Longrightarrow> length (filter P (upd_rows key k f rs)) = length (filter P rs)"
  by (induction rs) auto

text \<open>
  Adding \<open>d\<close> to one column of the row with a unique key adds \<open>d\<close> to the sum of the
  column: the arithmetic core of every conservation proof.
\<close>

lemma sum_upd_rows:
  fixes val :: "'r \<Rightarrow> int"
  assumes "distinct (map key rs)" and "k \<in> key ` set rs"
    and "\<And>r. val (f r) = val r + d"
  shows "sum_list (map val (upd_rows key k f rs)) = sum_list (map val rs) + d"
  using assms
proof (induction rs)
  case Nil
  then show ?case by simp
next
  case (Cons r rs)
  show ?case
  proof (cases "key r = k")
    case True
    with Cons.prems(1) have "k \<notin> key ` set rs" by auto
    then have "upd_rows key k f rs = rs" by (rule upd_rows_absent)
    with True Cons.prems(3) show ?thesis by simp
  next
    case False
    with Cons show ?thesis by auto
  qed
qed

lemma distinct_map_append1:
  "distinct (map key (rs @ [r])) \<longleftrightarrow> distinct (map key rs) \<and> key r \<notin> key ` set rs"
  by auto

lemma sum_list_snoc: "sum_list (map val (rs @ [r])) = sum_list (map val rs) + (val r :: int)"
  by simp

end
