(* ===== verification/Go_Float.thy ===== *)
theory Go_Float
  imports Complex_Main "HOL-Library.Log_Nat" Prelude
begin

section \<open>Go's float64\<close>

text \<open>
  IEEE 754 binary64 arithmetic as the exchange of currencies uses it
  (\<open>currencyExchange\<close> in api/transfer.go): conversion from \<open>int64\<close>, division,
  multiplication and the conversion back to \<open>int64\<close>. A finite value other than a zero
  is the rational number it denotes; every operation is the exact rational operation
  followed by \<open>f64_round\<close>, rounding to nearest with ties to even, a 53 bit significand
  and exponents from -1074. Go leaves the conversion of a value outside the range of
  \<open>int64\<close> to the implementation: there \<open>f64_to_int\<close> takes the value of its parameter.
\<close>

named_theorems float_simps \<open>evaluation of the floating point operations\<close>

datatype f64 = NaN | Inf bool | Zero bool | Num rat

definition expo :: "rat \<Rightarrow> int" where
  "expo x = (let (n, d) = quotient_of x; k = bitlen n - bitlen d
     in if 2 powi k \<le> x then k else k - 1)"

definition rne :: "rat \<Rightarrow> int" where
  "rne x = (let f = \<lfloor>x\<rfloor>; r = x - of_int f
     in if r < 1 / 2 then f else if 1 / 2 < r then f + 1
        else if even f then f else f + 1)"

definition ulp_expo :: "rat \<Rightarrow> int" where
  "ulp_expo x = max (- 1074) (expo \<bar>x\<bar> - 52)"

definition round_to_grid :: "rat \<Rightarrow> rat" where
  "round_to_grid x = of_int (rne (x / 2 powi ulp_expo x)) * 2 powi ulp_expo x"

definition f64_round :: "rat \<Rightarrow> f64" where
  "f64_round x = (let v = round_to_grid x
     in if v = 0 then Zero (x < 0)
        else if 2 ^ 1024 \<le> \<bar>v\<bar> then Inf (x < 0)
        else Num v)"

definition f64_of_int :: "int \<Rightarrow> f64" where
  "f64_of_int n = f64_round (of_int n)"

fun f64_neg :: "f64 \<Rightarrow> bool" where
  "f64_neg NaN = False"
| "f64_neg (Inf s) = s"
| "f64_neg (Zero s) = s"
| "f64_neg (Num v) = (v < 0)"

fun f64_mul :: "f64 \<Rightarrow> f64 \<Rightarrow> f64" where
  "f64_mul NaN y = NaN"
| "f64_mul x NaN = NaN"
| "f64_mul (Inf s) (Zero t) = NaN"
| "f64_mul (Zero s) (Inf t) = NaN"
| "f64_mul (Inf s) y = Inf (s \<noteq> f64_neg y)"
| "f64_mul x (Inf t) = Inf (f64_neg x \<noteq> t)"
| "f64_mul (Zero s) y = Zero (s \<noteq> f64_neg y)"
| "f64_mul x (Zero t) = Zero (f64_neg x \<noteq> t)"
| "f64_mul (Num a) (Num b) = f64_round (a * b)"

fun f64_div :: "f64 \<Rightarrow> f64 \<Rightarrow> f64" where
  "f64_div NaN y = NaN"
| "f64_div x NaN = NaN"
| "f64_div (Inf s) (Inf t) = NaN"
| "f64_div (Zero s) (Zero t) = NaN"
| "f64_div (Inf s) y = Inf (s \<noteq> f64_neg y)"
| "f64_div x (Inf t) = Zero (f64_neg x \<noteq> t)"
| "f64_div (Zero s) y = Zero (s \<noteq> f64_neg y)"
| "f64_div x (Zero t) = Inf (f64_neg x \<noteq> t)"
| "f64_div (Num a) (Num b) = f64_round (a / b)"

definition trunc :: "rat \<Rightarrow> int" where
  "trunc x = (if 0 \<le> x then \<lfloor>x\<rfloor> else \<lceil>x\<rceil>)"

fun f64_to_int :: "(f64 \<Rightarrow> int) \<Rightarrow> f64 \<Rightarrow> int" where
  "f64_to_int oob (Zero s) = 0"
| "f64_to_int oob (Num v) = (if i64 (trunc v) then trunc v else oob (Num v))"
| "f64_to_int oob x = oob x"

text \<open>The order of floating point values; \<open>NaN\<close> compares to nothing.\<close>

fun f64_val :: "f64 \<Rightarrow> rat" where
  "f64_val (Num v) = v"
| "f64_val _ = 0"

fun f64_le :: "f64 \<Rightarrow> f64 \<Rightarrow> bool" where
  "f64_le NaN y = False"
| "f64_le x NaN = False"
| "f64_le (Inf s) (Inf t) = (s \<or> \<not> t)"
| "f64_le (Inf s) y = s"
| "f64_le x (Inf t) = (\<not> t)"
| "f64_le x y = (f64_val x \<le> f64_val y)"

text \<open>The values a \<open>float64\<close> variable can hold: rounding does not change them.\<close>

fun f64_ok :: "f64 \<Rightarrow> bool" where
  "f64_ok (Num v) = (f64_round v = Num v)"
| "f64_ok x = True"

subsection \<open>The binary exponent\<close>

lemma powi_split: "(2::rat) powi (a + b) = 2 powi a * 2 powi b"
  by (rule power_int_add) simp

lemma powi_pos [simp]: "0 < (2::rat) powi k"
  by simp

lemma powi_le: "a \<le> b \<Longrightarrow> (2::rat) powi a \<le> 2 powi b"
  by (rule power_int_increasing) simp_all

lemma powi_less_iff: "(2::rat) powi a < 2 powi b \<longleftrightarrow> a < b"
  using power_int_strict_increasing [of a b "2::rat"] powi_le [of b a] by force

lemma expo_bounds:
  assumes "0 < x"
  shows "2 powi expo x \<le> x" and "x < 2 powi (expo x + 1)"
proof -
  obtain n d where q: "quotient_of x = (n, d)" by (cases "quotient_of x")
  have d: "0 < d" and x: "x = of_int n / of_int d"
    using quotient_of_denom_pos [OF q] quotient_of_div [OF q] by auto
  with assms have n: "0 < n" by (simp add: zero_less_divide_iff)
  have pw: "(2::rat) powi (bitlen m - 1) \<le> of_int m \<and> of_int m < (2::rat) powi bitlen m"
    if "0 < m" for m :: int
  proof -
    have nn: "0 < bitlen m"
      using that bitlen_nonneg [of m] bitlen_eq_zero_iff [of m] by linarith
    have "(2::int) ^ nat (bitlen m - 1) \<le> m" "m < 2 ^ nat (bitlen m)"
      using bitlen_bounds [OF that] by auto
    then have "of_int (2 ^ nat (bitlen m - 1)) \<le> (of_int m :: rat)"
      "(of_int m :: rat) < of_int (2 ^ nat (bitlen m))"
      by (simp_all only: of_int_le_iff of_int_less_iff)
    with nn show ?thesis by (simp add: power_int_def)
  qed
  define k where "k = bitlen n - bitlen d"
  have dp: "(0::rat) < of_int d" using d by simp
  have "x < 2 powi bitlen n / 2 powi (bitlen d - 1)"
    unfolding x using pw [OF n] pw [OF d] n
    by (intro frac_less) auto
  also have "\<dots> = 2 powi (k + 1)"
    by (simp add: k_def power_int_diff power_int_add field_simps)
  finally have up: "x < 2 powi (k + 1)" .
  have "2 powi (bitlen n - 1) / 2 powi bitlen d \<le> x"
    unfolding x using pw [OF n] pw [OF d] dp n by (intro frac_le) auto
  then have lo: "2 powi (k - 1) \<le> x"
    by (simp add: k_def power_int_diff power_int_add field_simps)
  have e: "expo x = (if 2 powi k \<le> x then k else k - 1)"
    by (simp add: expo_def q k_def)
  show "2 powi expo x \<le> x" using lo by (simp add: e)
  show "x < 2 powi (expo x + 1)" using up by (simp add: e)
qed

lemma expo_unique:
  assumes "2 powi k \<le> x" and "x < 2 powi (k + 1)"
  shows "expo x = k"
proof -
  have "0 < x" using assms(1) powi_pos [of k] by linarith
  from expo_bounds [OF this] assms
  have "(2::rat) powi k < 2 powi (expo x + 1)" "(2::rat) powi expo x < 2 powi (k + 1)"
    by linarith+
  then show ?thesis by (simp add: powi_less_iff)
qed

lemma expo_mono:
  assumes "0 < x" and "x \<le> y"
  shows "expo x \<le> expo y"
proof -
  have "(2::rat) powi expo x < 2 powi (expo y + 1)"
    using expo_bounds [OF assms(1)] expo_bounds [of y] assms by linarith
  then show ?thesis by (simp add: powi_less_iff)
qed

subsection \<open>Rounding to an integer\<close>

lemma rne_of_int [simp, float_simps]: "rne (of_int n) = n"
  by (simp add: rne_def)

lemma rne_near: "\<bar>of_int (rne x) - x\<bar> \<le> 1 / 2"
  unfolding rne_def Let_def by (auto simp: abs_if) linarith+

lemma rne_mono:
  assumes "x \<le> y"
  shows "rne x \<le> rne y"
proof (cases "\<lfloor>x\<rfloor> = \<lfloor>y\<rfloor>")
  case True
  with assms show ?thesis by (auto simp: rne_def Let_def)
next
  case False
  with floor_mono [OF assms] have f: "\<lfloor>x\<rfloor> + 1 \<le> \<lfloor>y\<rfloor>" by linarith
  have "rne x \<le> \<lfloor>x\<rfloor> + 1" "\<lfloor>y\<rfloor> \<le> rne y" by (auto simp: rne_def Let_def)
  with f show ?thesis by linarith
qed

lemma rne_minus: "rne (- x) = - rne x"
proof (cases "x \<in> \<int>")
  case True
  then obtain n where "x = of_int n" by (auto elim: Ints_cases)
  then show ?thesis by (metis of_int_minus rne_of_int)
next
  case False
  then have c: "\<lfloor>- x\<rfloor> = - \<lfloor>x\<rfloor> - 1"
    by (simp add: floor_minus ceiling_altdef) (metis Ints_of_int)
  show ?thesis unfolding rne_def Let_def c by auto
qed

subsection \<open>Rounding to the grid of representable values\<close>

lemma round_to_grid_exact:
  assumes "x = of_int m * 2 powi e" and "ulp_expo x \<le> e"
  shows "round_to_grid x = x"
proof -
  have "x / 2 powi ulp_expo x = of_int m * 2 powi (e - ulp_expo x)"
    by (simp add: assms(1) power_int_diff)
  also have "\<dots> = of_int (m * 2 ^ nat (e - ulp_expo x))"
    using assms(2) by (simp add: power_int_def)
  finally have "rne (x / 2 powi ulp_expo x) = m * 2 ^ nat (e - ulp_expo x)"
    by (simp only: rne_of_int)
  then have "round_to_grid x = of_int m * 2 powi (e - ulp_expo x) * 2 powi ulp_expo x"
    using assms(2) by (simp add: round_to_grid_def power_int_def)
  also have "\<dots> = x" by (simp add: assms(1) power_int_diff)
  finally show ?thesis .
qed

lemma round_to_grid_near: "\<bar>round_to_grid x - x\<bar> \<le> 2 powi ulp_expo x / 2"
proof -
  let ?u = "2 powi ulp_expo x :: rat"
  have "round_to_grid x - x = (of_int (rne (x / ?u)) - x / ?u) * ?u"
    by (simp add: round_to_grid_def left_diff_distrib)
  then have "\<bar>round_to_grid x - x\<bar> = \<bar>of_int (rne (x / ?u)) - x / ?u\<bar> * ?u"
    by (simp add: abs_mult)
  also have "\<dots> \<le> 1 / 2 * ?u" by (intro mult_right_mono rne_near) simp
  finally show ?thesis by simp
qed

lemma round_to_grid_minus: "round_to_grid (- x) = - round_to_grid x"
  by (simp add: round_to_grid_def ulp_expo_def rne_minus)

text \<open>In the normal range the relative error is at most half a unit in the last place.\<close>

lemma round_to_grid_relative:
  assumes "2 powi (- 1022) \<le> \<bar>x\<bar>"
  shows "\<bar>round_to_grid x - x\<bar> \<le> \<bar>x\<bar> / 2 ^ 53"
proof -
  have x: "0 < \<bar>x\<bar>" using assms powi_pos [of "- 1022"] by linarith
  have "expo (2 powi (- 1022)) = - 1022" by (rule expo_unique) (auto simp: powi_less_iff)
  then have "- 1022 \<le> expo \<bar>x\<bar>" using expo_mono [OF powi_pos assms] by simp
  then have "ulp_expo x = expo \<bar>x\<bar> - 52" by (simp add: ulp_expo_def)
  then have "(2::rat) powi ulp_expo x / 2 = 2 powi expo \<bar>x\<bar> / 2 ^ 53"
    by (simp add: power_int_diff)
  also have "\<dots> \<le> \<bar>x\<bar> / 2 ^ 53"
    using expo_bounds(1) [OF x] by (simp add: divide_right_mono)
  finally show ?thesis using round_to_grid_near [of x] by linarith
qed

lemma ulp_expo_int:
  assumes "n \<noteq> 0" and "\<bar>n\<bar> \<le> 2 ^ 53"
  shows "ulp_expo (of_int n) \<le> 1" and "\<bar>n\<bar> < 2 ^ 53 \<Longrightarrow> ulp_expo (of_int n) \<le> 0"
proof -
  let ?x = "\<bar>of_int n :: rat\<bar>"
  have p: "0 < ?x" using assms(1) by simp
  have "?x \<le> 2 ^ 53" using assms(2) by (metis of_int_abs of_int_le_iff of_int_numeral of_int_power)
  then have "(2::rat) powi expo ?x < 2 powi 54"
    using expo_bounds(1) [OF p] by (simp add: power_int_def)
  then have "expo ?x < 54" by (rule powi_less_iff [THEN iffD1])
  then show "ulp_expo (of_int n) \<le> 1" by (simp add: ulp_expo_def)
  assume "\<bar>n\<bar> < 2 ^ 53"
  then have "?x < 2 ^ 53" by (metis of_int_abs of_int_less_iff of_int_numeral of_int_power)
  then have "(2::rat) powi expo ?x < 2 powi 53"
    using expo_bounds(1) [OF p] by (simp add: power_int_def)
  then have "expo ?x < 53" by (rule powi_less_iff [THEN iffD1])
  then show "ulp_expo (of_int n) \<le> 0" by (simp add: ulp_expo_def)
qed

text \<open>Integers of up to 53 bits are represented exactly.\<close>

lemma f64_of_int_exact:
  assumes "n \<noteq> 0" and "\<bar>n\<bar> \<le> 2 ^ 53"
  shows "f64_of_int n = Num (of_int n)"
proof -
  have g: "round_to_grid (of_int n) = of_int n"
  proof (cases "\<bar>n\<bar> < 2 ^ 53")
    case True
    show ?thesis
      by (rule round_to_grid_exact [where m = n and e = 0])
        (use ulp_expo_int(2) [OF assms True] in simp_all)
  next
    case False
    with assms(2) have "n = 2 ^ 53 \<or> n = - (2 ^ 53)" by linarith
    then obtain m where m: "n = m * 2" by fastforce
    show ?thesis
      by (rule round_to_grid_exact [where m = m and e = 1])
        (use ulp_expo_int(1) [OF assms] m in simp_all)
  qed
  have "\<bar>n\<bar> < 2 ^ 1024" using assms(2) by simp
  then have "\<bar>of_int n :: rat\<bar> < 2 ^ 1024"
    by (metis of_int_abs of_int_less_iff of_int_numeral of_int_power)
  with g assms(1) show ?thesis by (simp add: f64_of_int_def f64_round_def Let_def)
qed

lemma f64_round_one [float_simps]: "f64_round 1 = Num 1"
  using f64_of_int_exact [of 1] by (simp add: f64_of_int_def)

lemma f64_of_int_zero [float_simps]: "f64_of_int 0 = Zero False"
  by (simp add: f64_of_int_def f64_round_def round_to_grid_def rne_def)

lemma f64_div_self [float_simps]: "v \<noteq> 0 \<Longrightarrow> f64_div (Num v) (Num v) = Num 1"
  by (simp add: f64_round_one)

lemma f64_mul_one [float_simps]: "f64_ok (Num v) \<Longrightarrow> f64_mul (Num v) (Num 1) = Num v"
  by simp

lemma f64_round_NumD:
  "f64_round x = Num v \<Longrightarrow> v = round_to_grid x \<and> v \<noteq> 0 \<and> \<bar>v\<bar> < 2 ^ 1024"
  by (auto simp: f64_round_def Let_def split: if_splits)

lemma trunc_of_int [simp, float_simps]: "trunc (of_int n) = n"
  by (simp add: trunc_def)

lemma trunc_le: "0 \<le> x \<Longrightarrow> of_int (trunc x) \<le> x \<and> x < of_int (trunc x) + 1"
  by (simp add: trunc_def) linarith

lemma trunc_nonneg: "0 \<le> x \<Longrightarrow> 0 \<le> trunc x"
  by (simp add: trunc_def)

end
