(* ===== verification/Database.thy ===== *)
theory Database
  imports Prelude Go_Float
begin

section \<open>The database: schema, rows and queries (db/migration, db/query, db/sqlc)\<close>

text \<open>
  The rows are the structs of db/sqlc/models.go, a table is the list of its rows in the
  order of insertion, and each query of db/sqlc is one definition that does what its SQL
  statement says, constraints of db/migration included. A statement gives back the error
  or its row, and the database after it. A failing statement changes no row; a sequence
  that was advanced stays advanced. \<open>db_now\<close> is the server's clock, which \<open>now()\<close> reads.
\<close>

named_theorems query_defs \<open>definitions of the queries\<close>

subsection \<open>Errors (db/sqlc/error.go)\<close>

text \<open>
  \<open>PgError c\<close> is a \<open>*pgconn.PgError\<close> of code \<open>c\<close>, \<open>ConnError\<close> a failure of the
  connection, \<open>TxError e r\<close> the error of \<open>execTx\<close> that prints both its parts and
  wraps neither of them.
\<close>

datatype db_error =
    ErrNoRows
  | PgError string
  | ConnError
  | ErrTxCommitRollback
  | ErrInsufficientBalance
  | TxError db_error db_error

definition ForeignKeyViolation :: string where "ForeignKeyViolation = ''23503''"

definition UniqueViolation :: string where "UniqueViolation = ''23505''"

definition ErrRecordNotFound :: db_error where "ErrRecordNotFound = ErrNoRows"

fun ErrorCode :: "db_error \<Rightarrow> string" where
  "ErrorCode (PgError c) = c"
| "ErrorCode _ = []"

text \<open>Codes the server itself raises.\<close>

abbreviation NumericOutOfRange :: db_error where "NumericOutOfRange \<equiv> PgError ''22003''"
abbreviation SequenceExhausted :: db_error where "SequenceExhausted \<equiv> PgError ''2200H''"
abbreviation InvalidLimit :: db_error where "InvalidLimit \<equiv> PgError ''2201W''"
abbreviation InvalidOffset :: db_error where "InvalidOffset \<equiv> PgError ''2201X''"
abbreviation FailedTransaction :: db_error where "FailedTransaction \<equiv> PgError ''25P02''"
abbreviation FkViolation :: db_error where "FkViolation \<equiv> PgError ForeignKeyViolation"
abbreviation UniqViolation :: db_error where "UniqViolation \<equiv> PgError UniqueViolation"

subsection \<open>Rows (db/sqlc/models.go)\<close>

record account =
  acc_id :: int
  acc_owner :: string
  acc_balance :: int
  acc_currency :: string
  acc_created_at :: "int option"

record currency_row =
  cur_currency :: string
  cur_rate :: f64
  cur_created_at :: "int option"

record entry =
  ent_id :: int
  ent_account_id :: int
  ent_amount :: int
  ent_created_at :: "int option"

record transfer =
  tr_id :: int
  tr_from_account_id :: int
  tr_to_account_id :: int
  tr_amount :: int
  tr_created_at :: "int option"

record user =
  usr_username :: string
  usr_hashed_password :: string
  usr_full_name :: string
  usr_email :: string
  usr_password_changed_at :: int
  usr_created_at :: int
  usr_role :: string
  usr_provider :: string

record db =
  users :: "user list"
  accounts :: "account list"
  entries :: "entry list"
  transfers :: "transfer list"
  currencies :: "currency_row list"
  account_seq :: int
  entry_seq :: int
  transfer_seq :: int
  db_now :: int

type_synonym 'a query = "db \<Rightarrow> (db_error, 'a) result"
type_synonym 'a stmt = "db \<Rightarrow> (db_error, 'a) result \<times> db"

text \<open>
  Times are nanoseconds since the Unix epoch. \<open>password_changed_at\<close> of a new user is the
  default of the column, 0001-01-01 00:00:00Z, Go's zero time.
\<close>

definition zero_time :: int where "zero_time = - 62135596800000000000"

abbreviation account_row :: "int \<Rightarrow> db \<Rightarrow> account option" where
  "account_row i d \<equiv> row_of acc_id i (accounts d)"

abbreviation user_row :: "string \<Rightarrow> db \<Rightarrow> user option" where
  "user_row u d \<equiv> row_of usr_username u (users d)"

definition seq_max :: int where "seq_max = 2 ^ 63 - 1"

text \<open>A \<open>SELECT\<close> as a statement: it leaves the database as it is.\<close>

definition select :: "'a query \<Rightarrow> 'a stmt" where
  "select q d = (q d, d)"

subsection \<open>Accounts (db/sqlc/account.sql.go)\<close>

definition GetAccount :: "int \<Rightarrow> account query" where
  "GetAccount i d = (case account_row i d of None \<Rightarrow> Inl ErrNoRows | Some a \<Rightarrow> Inr a)"

definition GetAccountForUpdate :: "int \<Rightarrow> account query" where
  "GetAccountForUpdate i d = (case account_row i d of None \<Rightarrow> Inl ErrNoRows | Some a \<Rightarrow> Inr a)"

record CreateAccountParams =
  cap_owner :: string
  cap_balance :: int
  cap_currency :: string

definition CreateAccount :: "CreateAccountParams \<Rightarrow> account stmt" where
  "CreateAccount p d =
     (if seq_max \<le> account_seq d then (Inl SequenceExhausted, d)
      else
        let i = account_seq d + 1; d1 = d\<lparr>account_seq := i\<rparr>;
            a = \<lparr>acc_id = i, acc_owner = cap_owner p, acc_balance = cap_balance p,
                 acc_currency = cap_currency p, acc_created_at = Some (db_now d)\<rparr>
        in if \<exists>b \<in> set (accounts d). acc_id b = i \<or>
                (acc_owner b = cap_owner p \<and> acc_currency b = cap_currency p)
           then (Inl UniqViolation, d1)
           else if user_row (cap_owner p) d = None then (Inl FkViolation, d1)
           else (Inr a, d1\<lparr>accounts := accounts d @ [a]\<rparr>))"

definition set_balance :: "int \<Rightarrow> account \<Rightarrow> account" where
  "set_balance b a = a\<lparr>acc_balance := b\<rparr>"

definition add_balance :: "int \<Rightarrow> account \<Rightarrow> account" where
  "add_balance n a = a\<lparr>acc_balance := acc_balance a + n\<rparr>"

record AddAccountBalanceParams =
  aab_amount :: int
  aab_id :: int

definition AddAccountBalance :: "AddAccountBalanceParams \<Rightarrow> account stmt" where
  "AddAccountBalance p d =
     (case account_row (aab_id p) d of
        None \<Rightarrow> (Inl ErrNoRows, d)
      | Some a \<Rightarrow>
          if \<not> i64 (acc_balance a + aab_amount p) then (Inl NumericOutOfRange, d)
          else (Inr (add_balance (aab_amount p) a),
                d\<lparr>accounts := upd_rows acc_id (aab_id p) (add_balance (aab_amount p)) (accounts d)\<rparr>))"

record UpdateAccountParams =
  uap_id :: int
  uap_balance :: int

definition UpdateAccount :: "UpdateAccountParams \<Rightarrow> account stmt" where
  "UpdateAccount p d =
     (case account_row (uap_id p) d of
        None \<Rightarrow> (Inl ErrNoRows, d)
      | Some a \<Rightarrow> (Inr (set_balance (uap_balance p) a),
                d\<lparr>accounts := upd_rows acc_id (uap_id p) (set_balance (uap_balance p)) (accounts d)\<rparr>))"

definition DeleteAccount :: "int \<Rightarrow> unit stmt" where
  "DeleteAccount i d =
     (if account_row i d \<noteq> None \<and>
         ((\<exists>e \<in> set (entries d). ent_account_id e = i) \<or>
          (\<exists>t \<in> set (transfers d). tr_from_account_id t = i \<or> tr_to_account_id t = i))
      then (Inl FkViolation, d)
      else (Inr (), d\<lparr>accounts := filter (\<lambda>a. acc_id a \<noteq> i) (accounts d)\<rparr>))"

text \<open>\<open>ORDER BY id LIMIT l OFFSET o\<close>, with the errors of a negative limit or offset.\<close>

definition page :: "('r \<Rightarrow> int) \<Rightarrow> int \<Rightarrow> int \<Rightarrow> 'r list \<Rightarrow> (db_error, 'r list) result" where
  "page key l off rs =
     (if off < 0 then Inl InvalidOffset
      else if l < 0 then Inl InvalidLimit
      else Inr (take (nat l) (drop (nat off) (sort_key key rs))))"

record ListAccountsParams =
  lap_owner :: string
  lap_limit :: int
  lap_offset :: int

definition ListAccounts :: "ListAccountsParams \<Rightarrow> account list query" where
  "ListAccounts p d =
     page acc_id (lap_limit p) (lap_offset p)
       (filter (\<lambda>a. acc_owner a = lap_owner p) (accounts d))"

subsection \<open>Exchange rates (db/sqlc/currency.sql.go)\<close>

definition GetExchangeRate :: "string \<Rightarrow> f64 query" where
  "GetExchangeRate c d =
     (case row_of cur_currency c (currencies d) of
        None \<Rightarrow> Inl ErrNoRows | Some r \<Rightarrow> Inr (cur_rate r))"

subsection \<open>Entries (db/sqlc/entry.sql.go)\<close>

record CreateEntryParams =
  cep_account_id :: int
  cep_amount :: int

definition CreateEntry :: "CreateEntryParams \<Rightarrow> entry stmt" where
  "CreateEntry p d =
     (if seq_max \<le> entry_seq d then (Inl SequenceExhausted, d)
      else
        let i = entry_seq d + 1; d1 = d\<lparr>entry_seq := i\<rparr>;
            e = \<lparr>ent_id = i, ent_account_id = cep_account_id p, ent_amount = cep_amount p,
                 ent_created_at = Some (db_now d)\<rparr>
        in if \<exists>f \<in> set (entries d). ent_id f = i then (Inl UniqViolation, d1)
           else if account_row (cep_account_id p) d = None then (Inl FkViolation, d1)
           else (Inr e, d1\<lparr>entries := entries d @ [e]\<rparr>))"

definition GetEntry :: "int \<Rightarrow> entry query" where
  "GetEntry i d = (case row_of ent_id i (entries d) of None \<Rightarrow> Inl ErrNoRows | Some e \<Rightarrow> Inr e)"

record ListEntriesParams =
  lep_account_id :: int
  lep_limit :: int
  lep_offset :: int

definition ListEntries :: "ListEntriesParams \<Rightarrow> entry list query" where
  "ListEntries p d =
     page ent_id (lep_limit p) (lep_offset p)
       (filter (\<lambda>e. ent_account_id e = lep_account_id p) (entries d))"

subsection \<open>Transfers (db/sqlc/transfer.sql.go)\<close>

record CreateTransferParams =
  ctp_from_account_id :: int
  ctp_to_account_id :: int
  ctp_amount :: int

definition CreateTransfer :: "CreateTransferParams \<Rightarrow> transfer stmt" where
  "CreateTransfer p d =
     (if seq_max \<le> transfer_seq d then (Inl SequenceExhausted, d)
      else
        let i = transfer_seq d + 1; d1 = d\<lparr>transfer_seq := i\<rparr>;
            t = \<lparr>tr_id = i, tr_from_account_id = ctp_from_account_id p,
                 tr_to_account_id = ctp_to_account_id p, tr_amount = ctp_amount p,
                 tr_created_at = Some (db_now d)\<rparr>
        in if \<exists>u \<in> set (transfers d). tr_id u = i then (Inl UniqViolation, d1)
           else if account_row (ctp_from_account_id p) d = None
                   \<or> account_row (ctp_to_account_id p) d = None
                then (Inl FkViolation, d1)
           else (Inr t, d1\<lparr>transfers := transfers d @ [t]\<rparr>))"

definition GetTransfer :: "int \<Rightarrow> transfer query" where
  "GetTransfer i d = (case row_of tr_id i (transfers d) of None \<Rightarrow> Inl ErrNoRows | Some t \<Rightarrow> Inr t)"

record ListTransfersParams =
  ltp_from_account_id :: int
  ltp_to_account_id :: int
  ltp_limit :: int
  ltp_offset :: int

definition ListTransfers :: "ListTransfersParams \<Rightarrow> transfer list query" where
  "ListTransfers p d =
     page tr_id (ltp_limit p) (ltp_offset p)
       (filter (\<lambda>t. tr_from_account_id t = ltp_from_account_id p \<or>
                    tr_to_account_id t = ltp_to_account_id p) (transfers d))"

subsection \<open>Users (db/sqlc/user.sql.go)\<close>

record CreateUserParams =
  cup_username :: string
  cup_hashed_password :: string
  cup_full_name :: string
  cup_email :: string

definition CreateUser :: "CreateUserParams \<Rightarrow> user stmt" where
  "CreateUser p d =
     (if \<exists>v \<in> set (users d). usr_username v = cup_username p \<or> usr_email v = cup_email p
      then (Inl UniqViolation, d)
      else let u = \<lparr>usr_username = cup_username p, usr_hashed_password = cup_hashed_password p,
                    usr_full_name = cup_full_name p, usr_email = cup_email p,
                    usr_password_changed_at = zero_time, usr_created_at = db_now d,
                    usr_role = ''depositor'', usr_provider = ''local''\<rparr>
           in (Inr u, d\<lparr>users := users d @ [u]\<rparr>))"

definition GetUser :: "string \<Rightarrow> user query" where
  "GetUser u d = (case user_row u d of None \<Rightarrow> Inl ErrNoRows | Some r \<Rightarrow> Inr r)"

text \<open>\<open>pgtype.Text\<close> and \<open>pgtype.Timestamptz\<close>: \<open>None\<close> is the invalid value, SQL's NULL.\<close>

record UpdateUserParams =
  uup_hashed_password :: "string option"
  uup_password_changed_at :: "int option"
  uup_full_name :: "string option"
  uup_email :: "string option"
  uup_username :: string

definition COALESCE :: "'a option \<Rightarrow> 'a \<Rightarrow> 'a" where
  "COALESCE v w = (case v of None \<Rightarrow> w | Some x \<Rightarrow> x)"

definition update_row :: "UpdateUserParams \<Rightarrow> user \<Rightarrow> user" where
  "update_row p u = u\<lparr>
     usr_hashed_password := COALESCE (uup_hashed_password p) (usr_hashed_password u),
     usr_password_changed_at := COALESCE (uup_password_changed_at p) (usr_password_changed_at u),
     usr_full_name := COALESCE (uup_full_name p) (usr_full_name u),
     usr_email := COALESCE (uup_email p) (usr_email u)\<rparr>"

definition UpdateUser :: "UpdateUserParams \<Rightarrow> user stmt" where
  "UpdateUser p d =
     (case user_row (uup_username p) d of
        None \<Rightarrow> (Inl ErrNoRows, d)
      | Some u \<Rightarrow>
          if \<exists>v \<in> set (users d). usr_username v \<noteq> uup_username p \<and>
               usr_email v = usr_email (update_row p u)
          then (Inl UniqViolation, d)
          else (Inr (update_row p u),
                d\<lparr>users := upd_rows usr_username (uup_username p) (update_row p) (users d)\<rparr>))"

record UpsertUserParams =
  up_username :: string
  up_hashed_password :: string
  up_full_name :: string
  up_email :: string
  up_provider :: string

definition excluded_row :: "UpsertUserParams \<Rightarrow> user \<Rightarrow> user" where
  "excluded_row p u = u\<lparr>usr_email := up_email p, usr_full_name := up_full_name p,
     usr_hashed_password := up_hashed_password p\<rparr>"

definition new_user :: "UpsertUserParams \<Rightarrow> db \<Rightarrow> user" where
  "new_user p d =
     \<lparr>usr_username = up_username p, usr_hashed_password = up_hashed_password p,
      usr_full_name = up_full_name p, usr_email = up_email p,
      usr_password_changed_at = zero_time, usr_created_at = db_now d,
      usr_role = ''depositor'', usr_provider = up_provider p\<rparr>"

definition UpsertUser :: "UpsertUserParams \<Rightarrow> user stmt" where
  "UpsertUser p d =
     (if \<exists>v \<in> set (users d). usr_username v \<noteq> up_username p \<and> usr_email v = up_email p
      then (Inl UniqViolation, d)
      else case user_row (up_username p) d of
        None \<Rightarrow> (Inr (new_user p d), d\<lparr>users := users d @ [new_user p d]\<rparr>)
      | Some u \<Rightarrow>
          (Inr (excluded_row p u),
           d\<lparr>users := upd_rows usr_username (up_username p) (excluded_row p) (users d)\<rparr>))"

lemmas [query_defs] =
  GetAccount_def GetAccountForUpdate_def CreateAccount_def AddAccountBalance_def
  UpdateAccount_def DeleteAccount_def ListAccounts_def GetExchangeRate_def CreateEntry_def
  GetEntry_def ListEntries_def CreateTransfer_def GetTransfer_def ListTransfers_def
  CreateUser_def GetUser_def UpdateUser_def UpsertUser_def

end
