(* ===== verification/Database_Inv.thy ===== *)
theory Database_Inv
  imports Database
begin

section \<open>The integrity of the database\<close>

text \<open>
  \<open>wf_db\<close> collects what the schema of db/migration promises: primary keys, unique
  columns, foreign keys, the ranges of the bigint columns and of the sequences. Every
  statement keeps it (\<open>wf_intros\<close>), and the statements that leave a table alone say
  so (\<open>frame_simps\<close>).
\<close>

named_theorems wf_intros \<open>every statement keeps the integrity of the database\<close>
named_theorems frame_simps \<open>the tables a statement does not touch\<close>

definition wf_users :: "db \<Rightarrow> bool" where
  "wf_users d \<longleftrightarrow> distinct (map usr_username (users d)) \<and> distinct (map usr_email (users d))"

definition wf_accounts :: "db \<Rightarrow> bool" where
  "wf_accounts d \<longleftrightarrow> distinct (map acc_id (accounts d)) \<and>
     distinct (map (\<lambda>a. (acc_owner a, acc_currency a)) (accounts d)) \<and>
     (\<forall>a \<in> set (accounts d). acc_owner a \<in> usr_username ` set (users d) \<and>
        1 \<le> acc_id a \<and> acc_id a \<le> account_seq d \<and> i64 (acc_balance a))"

definition wf_entries :: "db \<Rightarrow> bool" where
  "wf_entries d \<longleftrightarrow> distinct (map ent_id (entries d)) \<and>
     (\<forall>e \<in> set (entries d). ent_account_id e \<in> acc_id ` set (accounts d) \<and>
        1 \<le> ent_id e \<and> ent_id e \<le> entry_seq d)"

definition wf_transfers :: "db \<Rightarrow> bool" where
  "wf_transfers d \<longleftrightarrow> distinct (map tr_id (transfers d)) \<and>
     (\<forall>t \<in> set (transfers d). tr_from_account_id t \<in> acc_id ` set (accounts d) \<and>
        tr_to_account_id t \<in> acc_id ` set (accounts d) \<and>
        1 \<le> tr_id t \<and> tr_id t \<le> transfer_seq d)"

definition wf_seqs :: "db \<Rightarrow> bool" where
  "wf_seqs d \<longleftrightarrow> 0 \<le> account_seq d \<and> account_seq d \<le> seq_max \<and>
     0 \<le> entry_seq d \<and> entry_seq d \<le> seq_max \<and>
     0 \<le> transfer_seq d \<and> transfer_seq d \<le> seq_max"

definition wf_db :: "db \<Rightarrow> bool" where
  "wf_db d \<longleftrightarrow> wf_users d \<and> wf_accounts d \<and> wf_entries d \<and> wf_transfers d \<and> wf_seqs d \<and>
     distinct (map cur_currency (currencies d))"

lemmas wf_defs = wf_db_def wf_users_def wf_accounts_def wf_entries_def wf_transfers_def
  wf_seqs_def

definition empty_db :: db where
  "empty_db = \<lparr>users = [], accounts = [], entries = [], transfers = [], currencies = [],
     account_seq = 0, entry_seq = 0, transfer_seq = 0, db_now = 0\<rparr>"

lemma wf_empty_db: "wf_db empty_db"
  by (simp add: wf_defs empty_db_def seq_max_def)

text \<open>The rows of two databases agree; sequences and clock may differ.\<close>

definition same_rows :: "db \<Rightarrow> db \<Rightarrow> bool" where
  "same_rows d d' \<longleftrightarrow> users d' = users d \<and> accounts d' = accounts d \<and>
     entries d' = entries d \<and> transfers d' = transfers d \<and> currencies d' = currencies d"

lemma same_rows_refl [simp, intro]: "same_rows d d"
  by (simp add: same_rows_def)

lemma same_rows_trans [trans]: "same_rows a b \<Longrightarrow> same_rows b c \<Longrightarrow> same_rows a c"
  by (simp add: same_rows_def)

subsection \<open>A failing statement changes no row\<close>

lemma stmt_error_same_rows:
  "CreateAccount cp d = (Inl e, d') \<Longrightarrow> same_rows d d'"
  "AddAccountBalance ap d = (Inl e, d') \<Longrightarrow> same_rows d d'"
  "UpdateAccount wp d = (Inl e, d') \<Longrightarrow> same_rows d d'"
  "DeleteAccount i d = (Inl e, d') \<Longrightarrow> same_rows d d'"
  "CreateEntry ep d = (Inl e, d') \<Longrightarrow> same_rows d d'"
  "CreateTransfer tp d = (Inl e, d') \<Longrightarrow> same_rows d d'"
  "CreateUser rp d = (Inl e, d') \<Longrightarrow> same_rows d d'"
  "UpdateUser vp d = (Inl e, d') \<Longrightarrow> same_rows d d'"
  "UpsertUser sp d = (Inl e, d') \<Longrightarrow> same_rows d d'"
  by (auto simp: query_defs same_rows_def Let_def split: if_splits option.splits)

subsection \<open>Every statement keeps the integrity\<close>

lemma owners_upd_rows:
  assumes "\<And>a. acc_id (f a) = acc_id a" "\<And>a. acc_owner (f a) = acc_owner a"
    "\<And>a. acc_currency (f a) = acc_currency a"
  shows "map acc_id (upd_rows acc_id k f as) = map acc_id as"
    and "map (\<lambda>a. (acc_owner a, acc_currency a)) (upd_rows acc_id k f as) =
         map (\<lambda>a. (acc_owner a, acc_currency a)) as"
    and "acc_id ` set (upd_rows acc_id k f as) = acc_id ` set as"
  using assms by (auto intro!: map_upd_rows image_upd_rows)

lemma wf_upd_accounts:
  assumes wf: "wf_db d"
    and f: "\<And>a. acc_id (f a) = acc_id a" "\<And>a. acc_owner (f a) = acc_owner a"
      "\<And>a. acc_currency (f a) = acc_currency a"
    and r: "\<And>a. a \<in> set (accounts d) \<Longrightarrow> acc_id a = k \<Longrightarrow> i64 (acc_balance (f a))"
  shows "wf_db (d\<lparr>accounts := upd_rows acc_id k f (accounts d)\<rparr>)"
proof -
  have "acc_owner a \<in> usr_username ` set (users d) \<and> 1 \<le> acc_id a \<and> acc_id a \<le> account_seq d
      \<and> i64 (acc_balance a)" if "a \<in> set (upd_rows acc_id k f (accounts d))" for a
    using set_upd_rowsD [OF that] wf f r by (auto simp: wf_db_def wf_accounts_def)
  with wf show ?thesis
    by (simp add: wf_defs owners_upd_rows [OF f])
qed

text \<open>Adding a row, one lemma per table, and advancing a sequence.\<close>

lemma wf_add_user:
  assumes wf: "wf_db d" and n: "usr_username u \<notin> usr_username ` set (users d)"
    and e: "usr_email u \<notin> usr_email ` set (users d)"
  shows "wf_db (d\<lparr>users := users d @ [u]\<rparr>)"
proof -
  have "wf_users (d\<lparr>users := users d @ [u]\<rparr>)"
    using wf n e by (simp add: wf_db_def wf_users_def)
  moreover have "wf_accounts (d\<lparr>users := users d @ [u]\<rparr>)"
    using wf by (simp add: wf_db_def wf_accounts_def)
  ultimately show ?thesis
    using wf by (simp add: wf_db_def wf_entries_def wf_transfers_def wf_seqs_def)
qed

lemma wf_add_account:
  assumes wf: "wf_db d" and s: "account_seq d < seq_max" and i: "acc_id a = account_seq d + 1"
    and o: "acc_owner a \<in> usr_username ` set (users d)" and b: "i64 (acc_balance a)"
    and c: "\<forall>b \<in> set (accounts d). \<not> (acc_owner b = acc_owner a \<and> acc_currency b = acc_currency a)"
  shows "wf_db (d\<lparr>account_seq := account_seq d + 1, accounts := accounts d @ [a]\<rparr>)" (is "wf_db ?d")
proof -
  have fresh: "acc_id a \<notin> acc_id ` set (accounts d)"
    using wf i by (force simp: wf_db_def wf_accounts_def)
  have "(acc_owner a, acc_currency a) \<notin> (\<lambda>a. (acc_owner a, acc_currency a)) ` set (accounts d)"
    using c by auto
  with fresh wf i o b s have "wf_accounts ?d"
    by (auto simp: wf_db_def wf_accounts_def wf_seqs_def intro: order_trans)
  then show ?thesis
    using wf s by (simp add: wf_db_def wf_users_def wf_entries_def wf_transfers_def wf_seqs_def)
qed

lemma wf_add_entry:
  assumes wf: "wf_db d" and s: "entry_seq d < seq_max" and i: "ent_id e = entry_seq d + 1"
    and a: "ent_account_id e \<in> acc_id ` set (accounts d)"
  shows "wf_db (d\<lparr>entry_seq := entry_seq d + 1, entries := entries d @ [e]\<rparr>)" (is "wf_db ?d")
proof -
  have fresh: "ent_id e \<notin> ent_id ` set (entries d)"
    using wf i by (force simp: wf_db_def wf_entries_def)
  with wf i a s have "wf_entries ?d"
    by (auto simp: wf_db_def wf_entries_def wf_seqs_def intro: order_trans)
  then show ?thesis
    using wf s by (simp add: wf_db_def wf_users_def wf_accounts_def wf_transfers_def wf_seqs_def)
qed

lemma wf_add_transfer:
  assumes wf: "wf_db d" and s: "transfer_seq d < seq_max" and i: "tr_id t = transfer_seq d + 1"
    and a: "tr_from_account_id t \<in> acc_id ` set (accounts d)"
      "tr_to_account_id t \<in> acc_id ` set (accounts d)"
  shows "wf_db (d\<lparr>transfer_seq := transfer_seq d + 1, transfers := transfers d @ [t]\<rparr>)" (is "wf_db ?d")
proof -
  have fresh: "tr_id t \<notin> tr_id ` set (transfers d)"
    using wf i by (force simp: wf_db_def wf_transfers_def)
  with wf i a s have "wf_transfers ?d"
    by (auto simp: wf_db_def wf_transfers_def wf_seqs_def intro: order_trans)
  then show ?thesis
    using wf s by (simp add: wf_db_def wf_users_def wf_accounts_def wf_entries_def wf_seqs_def)
qed

lemma wf_advance:
  assumes "wf_db d"
  shows "account_seq d < seq_max \<Longrightarrow> wf_db (d\<lparr>account_seq := account_seq d + 1\<rparr>)"
    and "entry_seq d < seq_max \<Longrightarrow> wf_db (d\<lparr>entry_seq := entry_seq d + 1\<rparr>)"
    and "transfer_seq d < seq_max \<Longrightarrow> wf_db (d\<lparr>transfer_seq := transfer_seq d + 1\<rparr>)"
  using assms by (simp_all add: wf_defs) force+

lemma wf_CreateAccount [wf_intros]:
  assumes "wf_db d" and "i64 (cap_balance p)" and "CreateAccount p d = (r, d')"
  shows "wf_db d'"
  using assms wf_advance(1) [of d]
  by (auto simp: CreateAccount_def Let_def not_le row_simps split: if_splits
      intro!: wf_add_account)

lemma row_in_table: "account_row i d = Some a \<Longrightarrow> a \<in> set (accounts d) \<and> acc_id a = i"
  by (rule row_of_SomeD)

lemma wf_AddAccountBalance [wf_intros]:
  assumes wf: "wf_db d" and st: "AddAccountBalance p d = (r, d')"
  shows "wf_db d'"
proof (cases "d' = d")
  case False
  with st obtain a where a: "account_row (aab_id p) d = Some a"
    and fit: "i64 (acc_balance a + aab_amount p)"
    and d': "d' = d\<lparr>accounts := upd_rows acc_id (aab_id p) (add_balance (aab_amount p)) (accounts d)\<rparr>"
    by (auto simp: AddAccountBalance_def split: option.splits if_splits)
  have "b = a" if "b \<in> set (accounts d)" "acc_id b = aab_id p" for b
    using row_of_SomeI [of acc_id "accounts d" b "aab_id p"] that wf a
    by (simp add: wf_db_def wf_accounts_def)
  with fit show ?thesis
    unfolding d' by (intro wf_upd_accounts [OF wf]) (auto simp: add_balance_def)
qed (use wf in simp)

lemma wf_UpdateAccount [wf_intros]:
  assumes "wf_db d" and "i64 (uap_balance p)" and "UpdateAccount p d = (r, d')"
  shows "wf_db d'"
  using assms
  by (auto simp: UpdateAccount_def set_balance_def intro!: wf_upd_accounts split: option.splits)

lemma wf_DeleteAccount [wf_intros]:
  assumes wf: "wf_db d" and st: "DeleteAccount i d = (r, d')"
  shows "wf_db d'"
proof (cases "account_row i d = None")
  case True
  then have "filter (\<lambda>a. acc_id a \<noteq> i) (accounts d) = accounts d"
    by (auto simp: row_simps filter_id_conv)
  with True st wf show ?thesis by (simp add: DeleteAccount_def)
next
  case False
  with st consider "d' = d" | "d' = d\<lparr>accounts := filter (\<lambda>a. acc_id a \<noteq> i) (accounts d)\<rparr>"
    "\<forall>e \<in> set (entries d). ent_account_id e \<noteq> i"
    "\<forall>t \<in> set (transfers d). tr_from_account_id t \<noteq> i \<and> tr_to_account_id t \<noteq> i"
    by (auto simp: DeleteAccount_def split: if_splits)
  then show ?thesis
  proof cases
    case 2
    with wf show ?thesis by (fastforce simp: wf_defs distinct_map_filter)
  qed (use wf in simp)
qed

lemma wf_CreateEntry [wf_intros]:
  assumes "wf_db d" and "CreateEntry p d = (r, d')"
  shows "wf_db d'"
  using assms wf_advance(2) [of d]
  by (auto simp: CreateEntry_def Let_def not_le row_simps split: if_splits intro!: wf_add_entry)

lemma wf_CreateTransfer [wf_intros]:
  assumes "wf_db d" and "CreateTransfer p d = (r, d')"
  shows "wf_db d'"
  using assms wf_advance(3) [of d]
  by (auto simp: CreateTransfer_def Let_def not_le row_simps split: if_splits
      intro!: wf_add_transfer)

lemma wf_CreateUser [wf_intros]:
  assumes "wf_db d" and "CreateUser p d = (r, d')"
  shows "wf_db d'"
  using assms
  by (force simp: CreateUser_def Let_def split: if_splits intro!: wf_add_user)

text \<open>Replacing a user's row keeps the users table when the new email is not another user's.\<close>

lemma distinct_emails_upd:
  assumes "distinct (map usr_username us)" and "distinct (map usr_email us)"
    and "\<And>u. usr_username (f u) = usr_username u"
    and "row_of usr_username k us = Some u0"
    and "\<forall>v \<in> set us. usr_username v \<noteq> k \<longrightarrow> usr_email v \<noteq> usr_email (f u0)"
  shows "distinct (map usr_email (upd_rows usr_username k f us))"
  using assms
proof (induction us)
  case Nil
  then show ?case by simp
next
  case (Cons u us)
  have tail: "upd_rows usr_username k f us = us" if "usr_username u = k"
    using Cons.prems(1) that by (intro upd_rows_absent) auto
  show ?case
  proof (cases "usr_username u = k")
    case True
    with Cons.prems(1) have "k \<notin> usr_username ` set us" by simp
    then have others: "\<forall>v \<in> set us. usr_username v \<noteq> k" by blast
    from True Cons.prems(4) have "u = u0" by simp
    with others Cons.prems(5) have "usr_email (f u) \<notin> usr_email ` set us"
      by (metis image_iff list.set_intros(2))
    with True tail Cons.prems(2) show ?thesis by simp
  next
    case False
    have ih: "distinct (map usr_email (upd_rows usr_username k f us))"
      using Cons False by auto
    have "usr_email v \<noteq> usr_email u" if "v \<in> set (upd_rows usr_username k f us)" for v
    proof -
      from set_upd_rowsD [OF that] consider q where "q \<in> set us" "usr_username q = k" "v = f q"
        | "v \<in> set us" by auto
      then show ?thesis
      proof cases
        case (1 q)
        have "q = u0"
          using row_of_SomeI [of usr_username us q k] 1 Cons.prems(1,4) False by simp
        with 1 Cons.prems(5) False show ?thesis by (auto dest: sym)
      next
        case 2
        with Cons.prems(2) show ?thesis by (force simp: image_iff)
      qed
    qed
    with ih False show ?thesis by (auto simp: image_iff) metis
  qed
qed

lemma wf_upd_users:
  assumes wf: "wf_db d" and f: "\<And>u. usr_username (f u) = usr_username u"
    and u: "user_row k d = Some u"
    and e: "\<forall>v \<in> set (users d). usr_username v \<noteq> k \<longrightarrow> usr_email v \<noteq> usr_email (f u)"
  shows "wf_db (d\<lparr>users := upd_rows usr_username k f (users d)\<rparr>)"
proof -
  have n: "map usr_username (upd_rows usr_username k f (users d)) = map usr_username (users d)"
    "usr_username ` set (upd_rows usr_username k f (users d)) = usr_username ` set (users d)"
    using f by (auto intro!: map_upd_rows image_upd_rows)
  from wf have "distinct (map usr_username (users d))" "distinct (map usr_email (users d))"
    by (auto simp: wf_db_def wf_users_def)
  with f u e have "distinct (map usr_email (upd_rows usr_username k f (users d)))"
    by (intro distinct_emails_upd) auto
  with wf n show ?thesis by (simp add: wf_defs)
qed

lemma wf_UpdateUser [wf_intros]:
  assumes wf: "wf_db d" and st: "UpdateUser p d = (r, d')"
  shows "wf_db d'"
proof (cases "user_row (uup_username p) d")
  case None
  with st wf show ?thesis by (simp add: UpdateUser_def)
next
  case (Some u)
  let ?clash = "\<exists>v \<in> set (users d). usr_username v \<noteq> uup_username p \<and>
    usr_email v = usr_email (update_row p u)"
  show ?thesis
  proof (cases ?clash)
    case True
    with Some st wf show ?thesis by (simp add: UpdateUser_def)
  next
    case False
    with Some st have d': "d' = d\<lparr>users := upd_rows usr_username (uup_username p) (update_row p) (users d)\<rparr>"
      by (simp add: UpdateUser_def)
    from False have "\<forall>v \<in> set (users d). usr_username v \<noteq> uup_username p \<longrightarrow>
      usr_email v \<noteq> usr_email (update_row p u)" by blast
    then show ?thesis
      unfolding d' using wf Some
      by (intro wf_upd_users [where u = u]) (simp_all add: update_row_def)
  qed
qed

lemma wf_UpsertUser [wf_intros]:
  assumes wf: "wf_db d" and st: "UpsertUser p d = (r, d')"
  shows "wf_db d'"
proof (cases "\<exists>v \<in> set (users d). usr_username v \<noteq> up_username p \<and> usr_email v = up_email p")
  case True
  with st wf show ?thesis by (simp add: UpsertUser_def)
next
  case free: False
  show ?thesis
  proof (cases "user_row (up_username p) d")
    case None
    then have n: "up_username p \<notin> usr_username ` set (users d)" by (simp add: row_simps)
    with free have e: "up_email p \<notin> usr_email ` set (users d)" by force
    from st free None have "d' = d\<lparr>users := users d @ [new_user p d]\<rparr>"
      by (simp add: UpsertUser_def)
    with n e wf show ?thesis by (simp add: wf_add_user new_user_def)
  next
    case (Some u)
    with st free have d': "d' = d\<lparr>users := upd_rows usr_username (up_username p) (excluded_row p) (users d)\<rparr>"
      by (simp add: UpsertUser_def)
    from free have "\<forall>v \<in> set (users d). usr_username v \<noteq> up_username p \<longrightarrow>
      usr_email v \<noteq> usr_email (excluded_row p u)" by (simp add: excluded_row_def) blast
    then show ?thesis
      unfolding d' using wf Some
      by (intro wf_upd_users [where u = u]) (simp_all add: excluded_row_def)
  qed
qed

end
