(* ===== verification/Store.thy ===== *)
theory Store
  imports Database_Inv
begin

section \<open>The store: statements, transactions, money transfers (db/sqlc/store.go, db.go)\<close>

text \<open>
  A \<open>pool\<close> is the database behind the connection pool together with the faults of the
  connection, one for each round trip to the server, numbered by \<open>pl_calls\<close>: the
  request may be lost (the server does nothing) or the reply (the server did the work and
  the client sees an error). A query outside a transaction is one round trip
  (\<open>exec_auto\<close>); a transaction works on its own copy of the rows until its commit.
\<close>

named_theorems tx_simps \<open>how a transaction runs\<close>

subsection \<open>Round trips\<close>

datatype fault = NoFault | LostRequest | LostReply

record pool =
  pl_db :: db
  pl_faults :: "nat \<Rightarrow> fault"
  pl_calls :: nat

type_synonym 'a op = "pool \<Rightarrow> (db_error, 'a) result \<times> pool"

definition called :: "pool \<Rightarrow> pool" where
  "called p = p\<lparr>pl_calls := Suc (pl_calls p)\<rparr>"

definition fault_of :: "pool \<Rightarrow> fault" where
  "fault_of p = pl_faults p (pl_calls p)"

definition exec_auto :: "'a stmt \<Rightarrow> 'a op" where
  "exec_auto st p =
     (case fault_of p of
        NoFault \<Rightarrow> (case st (pl_db p) of (r, d) \<Rightarrow> (r, (called p)\<lparr>pl_db := d\<rparr>))
      | LostRequest \<Rightarrow> (Inl ConnError, called p)
      | LostReply \<Rightarrow> (Inl ConnError, (called p)\<lparr>pl_db := snd (st (pl_db p))\<rparr>))"

lemma called_simps [simp]:
  "pl_db (called p) = pl_db p" "pl_faults (called p) = pl_faults p"
  "pl_calls (called p) = Suc (pl_calls p)"
  by (simp_all add: called_def)

subsection \<open>Transactions\<close>

text \<open>
  \<open>Failed\<close>: the server reported an error in the transaction and refuses every further
  statement. \<open>Broken\<close>: the connection is gone.
\<close>

datatype tx_status = Active | Failed | Broken

record tx =
  tx_db :: db
  tx_status :: tx_status
  tx_pool :: pool

type_synonym 'a tx_op = "tx \<Rightarrow> (db_error, 'a) result \<times> tx"

fun is_pg :: "db_error \<Rightarrow> bool" where
  "is_pg (PgError c) = True"
| "is_pg _ = False"

definition tx_exec :: "'a stmt \<Rightarrow> 'a tx_op" where
  "tx_exec st t =
     (if tx_status t = Broken then (Inl ConnError, t)
      else
        let t' = t\<lparr>tx_pool := called (tx_pool t)\<rparr>
        in case fault_of (tx_pool t) of
             NoFault \<Rightarrow>
               (if tx_status t = Failed then (Inl FailedTransaction, t')
                else case st (tx_db t) of
                    (Inr x, d) \<Rightarrow> (Inr x, t'\<lparr>tx_db := d\<rparr>)
                  | (Inl e, d) \<Rightarrow>
                      (Inl e, t'\<lparr>tx_db := d, tx_status := (if is_pg e then Failed else Active)\<rparr>))
           | LostRequest \<Rightarrow> (Inl ConnError, t'\<lparr>tx_status := Broken\<rparr>)
           | LostReply \<Rightarrow>
               (Inl ConnError,
                t'\<lparr>tx_db := (if tx_status t = Failed then tx_db t else snd (st (tx_db t))),
                   tx_status := Broken\<rparr>))"

text \<open>Rolling back restores every row; the sequences are not transactional.\<close>

definition roll_back :: "db \<Rightarrow> db \<Rightarrow> db" where
  "roll_back before after = before\<lparr>account_seq := account_seq after,
     entry_seq := entry_seq after, transfer_seq := transfer_seq after\<rparr>"

definition tx_begin :: "pool \<Rightarrow> tx" where
  "tx_begin p = \<lparr>tx_db = pl_db p, tx_status = Active, tx_pool = p\<rparr>"

definition tx_undone :: "tx \<Rightarrow> pool" where
  "tx_undone t = (tx_pool t)\<lparr>pl_db := roll_back (pl_db (tx_pool t)) (tx_db t)\<rparr>"

definition tx_done :: "tx \<Rightarrow> pool" where
  "tx_done t = (tx_pool t)\<lparr>pl_db := tx_db t\<rparr>"

definition tx_rollback :: "tx \<Rightarrow> db_error option \<times> pool" where
  "tx_rollback t =
     (if tx_status t = Broken then (Some ConnError, tx_undone t)
      else (if fault_of (tx_pool t) = NoFault then None else Some ConnError, called (tx_undone t)))"

definition tx_commit :: "tx \<Rightarrow> db_error option \<times> pool" where
  "tx_commit t =
     (case tx_status t of
        Broken \<Rightarrow> (Some ConnError, tx_undone t)
      | Failed \<Rightarrow>
          (Some (if fault_of (tx_pool t) = NoFault then ErrTxCommitRollback else ConnError),
           called (tx_undone t))
      | Active \<Rightarrow>
          (case fault_of (tx_pool t) of
             NoFault \<Rightarrow> (None, called (tx_done t))
           | LostRequest \<Rightarrow> (Some ConnError, called (tx_undone t))
           | LostReply \<Rightarrow> (Some ConnError, called (tx_done t))))"

definition execTx :: "'a tx_op \<Rightarrow> 'a op" where
  "execTx fn p =
     (if fault_of p \<noteq> NoFault then (Inl ConnError, called p)
      else case fn (tx_begin (called p)) of
          (Inl e, t) \<Rightarrow>
            (case tx_rollback t of
               (Some rb, q) \<Rightarrow> (Inl (TxError e rb), q)
             | (None, q) \<Rightarrow> (Inl e, q))
        | (Inr r, t) \<Rightarrow>
            (case tx_commit t of (Some e, q) \<Rightarrow> (Inl e, q) | (None, q) \<Rightarrow> (Inr r, q)))"

subsection \<open>TransferTx\<close>

record TransferTxParams =
  ttp_from_account_id :: int
  ttp_to_account_id :: int
  ttp_from_amount :: int
  ttp_to_amount :: int

record TransferTxResult =
  ttr_transfer :: transfer
  ttr_from_account :: account
  ttr_to_account :: account
  ttr_from_entry :: entry
  ttr_to_entry :: entry

definition addMoney :: "int \<Rightarrow> int \<Rightarrow> int \<Rightarrow> int \<Rightarrow> (account \<times> account) tx_op" where
  "addMoney accountID amount accountID2 amount2 t =
     (case tx_exec (AddAccountBalance \<lparr>aab_amount = amount, aab_id = accountID\<rparr>) t of
        (Inl e, t1) \<Rightarrow> (Inl e, t1)
      | (Inr account1, t1) \<Rightarrow>
          (case tx_exec (AddAccountBalance \<lparr>aab_amount = amount2, aab_id = accountID2\<rparr>) t1 of
             (Inl e, t2) \<Rightarrow> (Inl e, t2)
           | (Inr account2, t2) \<Rightarrow> (Inr (account1, account2), t2)))"

text \<open>
  The error of the first \<open>GetAccount\<close> is dropped: on an error the account is the zero
  value of the struct, with balance 0.
\<close>

definition balance_or_zero :: "(db_error, account) result \<Rightarrow> int" where
  "balance_or_zero r = (case r of Inl _ \<Rightarrow> 0 | Inr a \<Rightarrow> acc_balance a)"

definition update_balances :: "TransferTxParams \<Rightarrow> (account \<times> account) tx_op" where
  "update_balances arg t =
     (let f = ttp_from_account_id arg; g = ttp_to_account_id arg;
          debit = wrap64 (- ttp_from_amount arg); credit = ttp_to_amount arg
      in if f < g then addMoney f debit g credit t
         else case addMoney g credit f debit t of
             (Inl e, t') \<Rightarrow> (Inl e, t')
           | (Inr (to_account, from_account), t') \<Rightarrow> (Inr (from_account, to_account), t'))"

definition transfer_fn :: "TransferTxParams \<Rightarrow> TransferTxResult tx_op" where
  "transfer_fn arg t0 =
     (case tx_exec (select (GetAccount (ttp_from_account_id arg))) t0 of (r, t1) \<Rightarrow>
      if balance_or_zero r < ttp_from_amount arg then (Inl ErrInsufficientBalance, t1)
      else case tx_exec (CreateTransfer
             \<lparr>ctp_from_account_id = ttp_from_account_id arg,
              ctp_to_account_id = ttp_to_account_id arg,
              ctp_amount = ttp_from_amount arg\<rparr>) t1 of
        (Inl e, t2) \<Rightarrow> (Inl e, t2)
      | (Inr tr, t2) \<Rightarrow>
      (case tx_exec (CreateEntry \<lparr>cep_account_id = ttp_from_account_id arg,
              cep_amount = wrap64 (- ttp_from_amount arg)\<rparr>) t2 of
        (Inl e, t3) \<Rightarrow> (Inl e, t3)
      | (Inr from_entry, t3) \<Rightarrow>
      (case tx_exec (CreateEntry \<lparr>cep_account_id = ttp_to_account_id arg,
              cep_amount = ttp_to_amount arg\<rparr>) t3 of
        (Inl e, t4) \<Rightarrow> (Inl e, t4)
      | (Inr to_entry, t4) \<Rightarrow>
      (case update_balances arg t4 of
        (Inl e, t5) \<Rightarrow> (Inl e, t5)
      | (Inr (from_account, to_account), t5) \<Rightarrow>
          (Inr \<lparr>ttr_transfer = tr, ttr_from_account = from_account,
                ttr_to_account = to_account, ttr_from_entry = from_entry,
                ttr_to_entry = to_entry\<rparr>, t5)))))"

definition TransferTx :: "TransferTxParams \<Rightarrow> TransferTxResult op" where
  "TransferTx arg = execTx (transfer_fn arg)"

subsection \<open>How statements run in a transaction\<close>

lemma tx_exec_InrD:
  assumes "tx_exec st t = (Inr x, t')"
  shows "tx_status t = Active \<and> st (tx_db t) = (Inr x, tx_db t') \<and>
    t' = t\<lparr>tx_db := tx_db t', tx_pool := called (tx_pool t)\<rparr>"
  using assms
  by (cases "tx_status t") (auto simp: tx_exec_def Let_def split: fault.splits prod.splits sum.splits)

lemma tx_exec_ok [tx_simps]:
  assumes "tx_status t = Active" and "fault_of (tx_pool t) = NoFault" and "st (tx_db t) = (Inr x, d)"
  shows "tx_exec st t = (Inr x, t\<lparr>tx_db := d, tx_pool := called (tx_pool t)\<rparr>)"
  using assms by (simp add: tx_exec_def Let_def)

text \<open>
  What every statement of a transaction leaves alone: the rows outside the transaction
  and the faults of the connection.
\<close>

definition tx_frame :: "tx \<Rightarrow> tx \<Rightarrow> bool" where
  "tx_frame t t' \<longleftrightarrow> pl_db (tx_pool t') = pl_db (tx_pool t) \<and>
     pl_faults (tx_pool t') = pl_faults (tx_pool t) \<and> db_now (tx_db t') = db_now (tx_db t)"

lemma tx_frame_refl [intro]: "tx_frame t t"
  by (simp add: tx_frame_def)

lemma tx_frame_trans [trans]: "tx_frame a b \<Longrightarrow> tx_frame b c \<Longrightarrow> tx_frame a c"
  by (simp add: tx_frame_def)

lemma tx_exec_frame:
  assumes "\<And>d. db_now (snd (st d)) = db_now d" and "tx_exec st t = (r, t')"
  shows "tx_frame t t'"
proof -
  have "db_now (snd (st (tx_db t))) = db_now (tx_db t)" by (rule assms(1))
  with assms(2) show ?thesis
    by (cases "tx_status t")
      (auto simp: tx_exec_def tx_frame_def Let_def split: fault.splits prod.splits sum.splits)
qed

lemma exec_auto_InrD:
  "exec_auto st p = (Inr x, q) \<Longrightarrow>
    st (pl_db p) = (Inr x, pl_db q) \<and> q = (called p)\<lparr>pl_db := pl_db q\<rparr>"
  by (auto simp: exec_auto_def split: fault.splits prod.splits)

lemma exec_auto_ok [tx_simps]:
  "fault_of p = NoFault \<Longrightarrow> st (pl_db p) = (r, d) \<Longrightarrow> exec_auto st p = (r, (called p)\<lparr>pl_db := d\<rparr>)"
  by (simp add: exec_auto_def)

text \<open>Whatever a statement keeps of the database, one round trip keeps.\<close>

lemma exec_auto_keeps:
  assumes "exec_auto st p = (r, q)" and "P (pl_db p)"
    and "P (snd (st (pl_db p)))"
  shows "P (pl_db q)"
  using assms by (auto simp: exec_auto_def split: fault.splits prod.splits)

lemma exec_auto_select: "exec_auto (select q) p = (r, p') \<Longrightarrow> pl_db p' = pl_db p"
  by (auto simp: exec_auto_def select_def split: fault.splits)

end
