(* ===== verification/Store_Frame.thy ===== *)
theory Store_Frame
  imports Store
begin

section \<open>What a transaction keeps\<close>

text \<open>
  Facts on every path through the body of \<open>TransferTx\<close>, the failing ones included. The
  locale \<open>tx_keeps\<close> is the contract between the body and the statements it runs: a
  relation between the databases before and after that every statement keeps is kept by
  the body. It is interpreted by the integrity of the schema, by the order of the
  sequences and by the clock of the transaction.
\<close>

lemma tx_begin_simps [simp]:
  "tx_db (tx_begin p) = pl_db p" "tx_status (tx_begin p) = Active" "tx_pool (tx_begin p) = p"
  by (simp_all add: tx_begin_def)

subsection \<open>The rows outside the transaction\<close>

definition same_pool :: "tx \<Rightarrow> tx \<Rightarrow> bool" where
  "same_pool t t' \<longleftrightarrow> pl_db (tx_pool t') = pl_db (tx_pool t) \<and>
     pl_faults (tx_pool t') = pl_faults (tx_pool t)"

lemma same_pool_refl [simp, intro]: "same_pool t t"
  by (simp add: same_pool_def)

lemma same_pool_trans: "same_pool a b \<Longrightarrow> same_pool b c \<Longrightarrow> same_pool a c"
  by (simp add: same_pool_def)

lemma tx_exec_same_pool: "tx_exec st t = (r, t') \<Longrightarrow> same_pool t t'"
  by (auto simp: tx_exec_def same_pool_def Let_def split: if_splits fault.splits prod.splits sum.splits)

lemma addMoney_same_pool: "addMoney i m j n t = (r, t') \<Longrightarrow> same_pool t t'"
  unfolding addMoney_def
  by (auto split: prod.splits sum.splits dest!: tx_exec_same_pool intro: same_pool_trans)

lemma update_balances_same_pool: "update_balances arg t = (r, t') \<Longrightarrow> same_pool t t'"
  unfolding update_balances_def Let_def
  by (auto split: prod.splits sum.splits if_splits dest!: addMoney_same_pool)

lemma transfer_fn_same_pool: "transfer_fn arg t = (r, t') \<Longrightarrow> same_pool t t'"
  unfolding transfer_fn_def
  by (auto split: prod.splits sum.splits if_splits
      dest!: tx_exec_same_pool update_balances_same_pool simp: same_pool_def)

subsection \<open>A relation that every statement keeps\<close>

locale tx_keeps =
  fixes keeps :: "db \<Rightarrow> db \<Rightarrow> bool"
  assumes keeps_refl: "keeps d d"
    and keeps_trans: "keeps a b \<Longrightarrow> keeps b c \<Longrightarrow> keeps a c"
    and keeps_AddAccountBalance: "AddAccountBalance ap d = (r1, d') \<Longrightarrow> keeps d d'"
    and keeps_CreateEntry: "CreateEntry ep d = (r2, d') \<Longrightarrow> keeps d d'"
    and keeps_CreateTransfer: "CreateTransfer tp d = (r3, d') \<Longrightarrow> keeps d d'"
begin

lemma tx_exec_keeps:
  assumes "tx_exec st t = (r, t')" and "keeps (tx_db t) (snd (st (tx_db t)))"
  shows "keeps (tx_db t) (tx_db t')"
  using assms keeps_refl [of "tx_db t"]
  by (auto simp: tx_exec_def Let_def split: if_splits fault.splits prod.splits sum.splits)

lemma exec_AddAccountBalance:
  "tx_exec (AddAccountBalance ap) t = (r, t') \<Longrightarrow> keeps (tx_db t) (tx_db t')"
  by (erule tx_exec_keeps) (metis keeps_AddAccountBalance prod.collapse)

lemma exec_CreateEntry:
  "tx_exec (CreateEntry ep) t = (r, t') \<Longrightarrow> keeps (tx_db t) (tx_db t')"
  by (erule tx_exec_keeps) (metis keeps_CreateEntry prod.collapse)

lemma exec_CreateTransfer:
  "tx_exec (CreateTransfer tp) t = (r, t') \<Longrightarrow> keeps (tx_db t) (tx_db t')"
  by (erule tx_exec_keeps) (metis keeps_CreateTransfer prod.collapse)

lemma exec_select: "tx_exec (select q) t = (r, t') \<Longrightarrow> keeps (tx_db t) (tx_db t')"
  by (erule tx_exec_keeps) (simp add: select_def keeps_refl)

lemmas exec_keeps = exec_AddAccountBalance exec_CreateEntry exec_CreateTransfer exec_select

lemma addMoney_keeps: "addMoney i m j n t = (r, t') \<Longrightarrow> keeps (tx_db t) (tx_db t')"
  unfolding addMoney_def
  by (auto split: prod.splits sum.splits dest!: exec_AddAccountBalance intro: keeps_trans)

lemma update_balances_keeps: "update_balances arg t = (r, t') \<Longrightarrow> keeps (tx_db t) (tx_db t')"
  unfolding update_balances_def Let_def
  by (auto split: prod.splits sum.splits if_splits dest!: addMoney_keeps)

lemma transfer_fn_keeps: "transfer_fn arg t = (r, t') \<Longrightarrow> keeps (tx_db t) (tx_db t')"
  unfolding transfer_fn_def
  by (auto split: prod.splits sum.splits if_splits dest!: exec_keeps update_balances_keeps)
    (blast intro: keeps_trans)+

end

subsection \<open>What is kept: integrity, sequences, clock\<close>

definition seqs_le :: "db \<Rightarrow> db \<Rightarrow> bool" where
  "seqs_le d d' \<longleftrightarrow> account_seq d \<le> account_seq d' \<and> entry_seq d \<le> entry_seq d' \<and>
     transfer_seq d \<le> transfer_seq d'"

interpretation integrity: tx_keeps "\<lambda>d d'. wf_db d \<longrightarrow> wf_db d'"
  by unfold_locales (auto intro: wf_intros)

interpretation sequences: tx_keeps seqs_le
  by unfold_locales
    (auto simp: seqs_le_def AddAccountBalance_def CreateEntry_def CreateTransfer_def Let_def
      split: if_splits option.splits)

interpretation clock: tx_keeps "\<lambda>d d'. db_now d' = db_now d"
  by unfold_locales
    (auto simp: AddAccountBalance_def CreateEntry_def CreateTransfer_def Let_def
      split: if_splits option.splits)

text \<open>Undoing a transaction leaves the integrity of the schema as well.\<close>

lemma wf_roll_back:
  assumes "wf_db d" and "wf_db d'" and "seqs_le d d'"
  shows "wf_db (roll_back d d')"
  using assms by (auto simp: wf_defs roll_back_def seqs_le_def)

end
