(* ===== verification/Store_Spec.thy ===== *)
theory Store_Spec
  imports Store_Frame
begin

section \<open>What a money transfer does\<close>

text \<open>
  The specification of \<open>TransferTx\<close>: when it may succeed (\<open>transfer_ready\<close>), the
  database it leaves (\<open>transferred\<close>) and the rows it returns (\<open>transfer_result\<close>).
  The lemmas show that the transaction does exactly this, at once or not at all,
  whatever round trips fail.
\<close>

subsection \<open>The specification\<close>

definition debit_of :: "TransferTxParams \<Rightarrow> int" where
  "debit_of arg = wrap64 (- ttp_from_amount arg)"

definition balance_in :: "int \<Rightarrow> db \<Rightarrow> int" where
  "balance_in i d = (case account_row i d of None \<Rightarrow> 0 | Some a \<Rightarrow> acc_balance a)"

definition balances_fit :: "TransferTxParams \<Rightarrow> db \<Rightarrow> bool" where
  "balances_fit arg d =
     (let f = ttp_from_account_id arg; g = ttp_to_account_id arg;
          to_bal = balance_in g d + ttp_to_amount arg
      in i64 to_bal \<and> i64 ((if f = g then to_bal else balance_in f d) + debit_of arg))"

definition transfer_ready :: "TransferTxParams \<Rightarrow> db \<Rightarrow> bool" where
  "transfer_ready arg d \<longleftrightarrow>
     account_row (ttp_from_account_id arg) d \<noteq> None \<and>
     account_row (ttp_to_account_id arg) d \<noteq> None \<and>
     ttp_from_amount arg \<le> balance_in (ttp_from_account_id arg) d \<and>
     balances_fit arg d \<and>
     transfer_seq d < seq_max \<and> entry_seq d + 1 < seq_max"

definition new_transfer :: "TransferTxParams \<Rightarrow> db \<Rightarrow> transfer" where
  "new_transfer arg d = \<lparr>tr_id = transfer_seq d + 1,
     tr_from_account_id = ttp_from_account_id arg, tr_to_account_id = ttp_to_account_id arg,
     tr_amount = ttp_from_amount arg, tr_created_at = Some (db_now d)\<rparr>"

definition from_entry :: "TransferTxParams \<Rightarrow> db \<Rightarrow> entry" where
  "from_entry arg d = \<lparr>ent_id = entry_seq d + 1, ent_account_id = ttp_from_account_id arg,
     ent_amount = debit_of arg, ent_created_at = Some (db_now d)\<rparr>"

definition to_entry :: "TransferTxParams \<Rightarrow> db \<Rightarrow> entry" where
  "to_entry arg d = \<lparr>ent_id = entry_seq d + 2, ent_account_id = ttp_to_account_id arg,
     ent_amount = ttp_to_amount arg, ent_created_at = Some (db_now d)\<rparr>"

definition moved_accounts :: "TransferTxParams \<Rightarrow> account list \<Rightarrow> account list" where
  "moved_accounts arg as =
     upd_rows acc_id (ttp_from_account_id arg) (add_balance (debit_of arg))
       (upd_rows acc_id (ttp_to_account_id arg) (add_balance (ttp_to_amount arg)) as)"

definition transferred :: "TransferTxParams \<Rightarrow> db \<Rightarrow> db" where
  "transferred arg d = d\<lparr>
     transfers := transfers d @ [new_transfer arg d], transfer_seq := transfer_seq d + 1,
     entries := entries d @ [from_entry arg d, to_entry arg d], entry_seq := entry_seq d + 2,
     accounts := moved_accounts arg (accounts d)\<rparr>"

definition transfer_result :: "TransferTxParams \<Rightarrow> db \<Rightarrow> TransferTxResult" where
  "transfer_result arg d =
     (let f = ttp_from_account_id arg; g = ttp_to_account_id arg;
          to_row = add_balance (ttp_to_amount arg) (the (account_row g d));
          from_row = (if f = g then to_row else the (account_row f d))
      in \<lparr>ttr_transfer = new_transfer arg d,
          ttr_from_account = add_balance (debit_of arg) from_row,
          ttr_to_account = to_row,
          ttr_from_entry = from_entry arg d, ttr_to_entry = to_entry arg d\<rparr>)"

subsection \<open>Facts on the pieces\<close>

lemma add_balance_simps [simp]:
  "acc_id (add_balance n a) = acc_id a" "acc_owner (add_balance n a) = acc_owner a"
  "acc_currency (add_balance n a) = acc_currency a"
  "acc_balance (add_balance n a) = acc_balance a + n"
  "acc_created_at (add_balance n a) = acc_created_at a"
  by (simp_all add: add_balance_def)

lemma upd_rows_swap:
  "j \<noteq> k \<Longrightarrow> upd_rows acc_id j (add_balance m) (upd_rows acc_id k (add_balance n) as) =
    upd_rows acc_id k (add_balance n) (upd_rows acc_id j (add_balance m) as)"
  by (induction as) auto

lemma account_row_frame [simp]:
  "account_row i (d\<lparr>transfers := ts, transfer_seq := n\<rparr>) = account_row i d"
  "account_row i (d\<lparr>entries := es, entry_seq := n\<rparr>) = account_row i d"
  "account_row i (d\<lparr>transfers := ts\<rparr>) = account_row i d"
  "account_row i (d\<lparr>entries := es\<rparr>) = account_row i d"
  by simp_all

lemma balances_fit_cong: "accounts d = accounts d' \<Longrightarrow> balances_fit arg d = balances_fit arg d'"
  by (simp add: balances_fit_def balance_in_def)

lemma CreateTransfer_InrD:
  assumes "CreateTransfer p d = (Inr t, d')"
  shows "account_row (ctp_from_account_id p) d \<noteq> None \<and> account_row (ctp_to_account_id p) d \<noteq> None \<and>
    transfer_seq d < seq_max \<and> tr_id t = transfer_seq d + 1 \<and>
    t = \<lparr>tr_id = transfer_seq d + 1, tr_from_account_id = ctp_from_account_id p,
         tr_to_account_id = ctp_to_account_id p, tr_amount = ctp_amount p,
         tr_created_at = Some (db_now d)\<rparr> \<and>
    d' = d\<lparr>transfer_seq := transfer_seq d + 1, transfers := transfers d @ [t]\<rparr>"
  using assms unfolding CreateTransfer_def Let_def by (auto split: if_splits)

lemma CreateEntry_InrD:
  assumes "CreateEntry p d = (Inr e, d')"
  shows "account_row (cep_account_id p) d \<noteq> None \<and> entry_seq d < seq_max \<and>
    e = \<lparr>ent_id = entry_seq d + 1, ent_account_id = cep_account_id p,
         ent_amount = cep_amount p, ent_created_at = Some (db_now d)\<rparr> \<and>
    d' = d\<lparr>entry_seq := entry_seq d + 1, entries := entries d @ [e]\<rparr>"
  using assms unfolding CreateEntry_def Let_def by (auto split: if_splits)

lemma AddAccountBalance_InrD:
  assumes "AddAccountBalance p d = (Inr a, d')"
  shows "\<exists>a0. account_row (aab_id p) d = Some a0 \<and> i64 (acc_balance a0 + aab_amount p) \<and>
    a = add_balance (aab_amount p) a0 \<and>
    d' = d\<lparr>accounts := upd_rows acc_id (aab_id p) (add_balance (aab_amount p)) (accounts d)\<rparr>"
  using assms unfolding AddAccountBalance_def by (auto split: if_splits option.splits)

text \<open>A run of statements in a transaction, as the effect on its database alone.\<close>

definition ran :: "tx \<Rightarrow> db \<Rightarrow> tx \<Rightarrow> bool" where
  "ran t d t' \<longleftrightarrow> tx_status t' = Active \<and> tx_db t' = d \<and>
     pl_db (tx_pool t') = pl_db (tx_pool t) \<and> pl_faults (tx_pool t') = pl_faults (tx_pool t)"

lemma ran_trans: "ran a d b \<Longrightarrow> ran b e c \<Longrightarrow> ran a e c"
  by (simp add: ran_def)

lemma tx_exec_ran:
  assumes "tx_exec st t = (Inr x, t')"
  shows "tx_status t = Active \<and> st (tx_db t) = (Inr x, tx_db t') \<and> ran t (tx_db t') t'"
proof -
  have "t' = t\<lparr>tx_db := tx_db t', tx_pool := called (tx_pool t)\<rparr>"
    and st: "tx_status t = Active" "st (tx_db t) = (Inr x, tx_db t')"
    using tx_exec_InrD [OF assms] by auto
  then have "tx_status t' = tx_status t" "tx_pool t' = called (tx_pool t)"
    by (metis tx.select_convs tx.surjective tx.update_convs)+
  with st show ?thesis by (simp add: ran_def)
qed

lemma tx_exec_select_active:
  assumes "tx_exec (select q) t = (r, t')" and "tx_status t' = Active"
  shows "r = q (tx_db t) \<and> ran t (tx_db t) t'"
  using assms
  by (cases "tx_status t")
    (auto simp: tx_exec_def select_def ran_def Let_def split: fault.splits sum.splits if_splits)

lemma addMoney_InrD:
  assumes "addMoney i m j n t = (Inr (a, b), t')"
  shows "\<exists>a0 b0. account_row i (tx_db t) = Some a0 \<and> a = add_balance m a0 \<and>
    i64 (acc_balance a0 + m) \<and>
    account_row j (tx_db t) = Some b0 \<and>
    b = add_balance n (if i = j then a else b0) \<and>
    i64 (acc_balance (if i = j then a else b0) + n) \<and>
    ran t ((tx_db t)\<lparr>accounts := upd_rows acc_id j (add_balance n)
       (upd_rows acc_id i (add_balance m) (accounts (tx_db t)))\<rparr>) t'"
proof -
  let ?d = "tx_db t"
  from assms obtain t1 where
    1: "tx_exec (AddAccountBalance \<lparr>aab_amount = m, aab_id = i\<rparr>) t = (Inr a, t1)" and
    2: "tx_exec (AddAccountBalance \<lparr>aab_amount = n, aab_id = j\<rparr>) t1 = (Inr b, t')"
    by (auto simp: addMoney_def split: prod.splits sum.splits)
  note r1 = tx_exec_ran [OF 1] and r2 = tx_exec_ran [OF 2]
  from AddAccountBalance_InrD [of _ ?d a "tx_db t1"] r1 obtain a0 where
    a0: "account_row i ?d = Some a0" "i64 (acc_balance a0 + m)" "a = add_balance m a0"
      "tx_db t1 = ?d\<lparr>accounts := upd_rows acc_id i (add_balance m) (accounts ?d)\<rparr>"
    by fastforce
  from AddAccountBalance_InrD [of _ "tx_db t1" b "tx_db t'"] r2 obtain b1 where
    b1: "account_row j (tx_db t1) = Some b1" "i64 (acc_balance b1 + n)" "b = add_balance n b1"
      "tx_db t' = (tx_db t1)\<lparr>accounts := upd_rows acc_id j (add_balance n) (accounts (tx_db t1))\<rparr>"
    by fastforce
  have "ran t (tx_db t') t'" using ran_trans r1 r2 by blast
  moreover have "tx_db t' = ?d\<lparr>accounts := upd_rows acc_id j (add_balance n)
       (upd_rows acc_id i (add_balance m) (accounts ?d))\<rparr>"
    using a0(4) b1(4) by simp
  moreover have "\<exists>b0. account_row j ?d = Some b0 \<and> b1 = (if i = j then a else b0)"
    using a0 b1(1) by (auto simp: row_simps split: if_splits)
  ultimately show ?thesis using a0 b1 by auto
qed

subsection \<open>The body of the transaction succeeds as specified\<close>

lemma update_balances_InrD:
  assumes "update_balances arg t = (Inr (a, b), t')"
  shows "account_row (ttp_from_account_id arg) (tx_db t) \<noteq> None \<and>
    account_row (ttp_to_account_id arg) (tx_db t) \<noteq> None \<and> balances_fit arg (tx_db t) \<and>
    a = ttr_from_account (transfer_result arg (tx_db t)) \<and>
    b = ttr_to_account (transfer_result arg (tx_db t)) \<and>
    ran t ((tx_db t)\<lparr>accounts := moved_accounts arg (accounts (tx_db t))\<rparr>) t'"
proof (cases "ttp_from_account_id arg < ttp_to_account_id arg")
  case True
  then have ne: "ttp_from_account_id arg \<noteq> ttp_to_account_id arg" by simp
  from True assms have "addMoney (ttp_from_account_id arg) (debit_of arg)
      (ttp_to_account_id arg) (ttp_to_amount arg) t = (Inr (a, b), t')"
    by (simp add: update_balances_def debit_of_def)
  from addMoney_InrD [OF this] ne show ?thesis
    by (auto simp: balances_fit_def balance_in_def transfer_result_def moved_accounts_def
        upd_rows_swap [OF ne])
next
  case False
  with assms have "addMoney (ttp_to_account_id arg) (ttp_to_amount arg)
      (ttp_from_account_id arg) (debit_of arg) t = (Inr (b, a), t')"
    by (auto simp: update_balances_def debit_of_def split: prod.splits sum.splits)
  from addMoney_InrD [OF this] obtain b0 a0 where
    h: "account_row (ttp_to_account_id arg) (tx_db t) = Some b0"
      "account_row (ttp_from_account_id arg) (tx_db t) = Some a0"
      "b = add_balance (ttp_to_amount arg) b0" "i64 (acc_balance b0 + ttp_to_amount arg)"
      "a = add_balance (debit_of arg)
         (if ttp_to_account_id arg = ttp_from_account_id arg then b else a0)"
      "i64 (acc_balance (if ttp_to_account_id arg = ttp_from_account_id arg then b else a0)
         + debit_of arg)"
      "ran t ((tx_db t)\<lparr>accounts := moved_accounts arg (accounts (tx_db t))\<rparr>) t'"
    by (auto simp: moved_accounts_def)
  show ?thesis
  proof (cases "ttp_from_account_id arg = ttp_to_account_id arg")
    case True
    with h show ?thesis
      by (simp add: balances_fit_def balance_in_def transfer_result_def Let_def)
  next
    case False
    with h show ?thesis
      by (simp add: balances_fit_def balance_in_def transfer_result_def Let_def)
  qed
qed

text \<open>The statements a run of the body that returns a result went through.\<close>

lemma transfer_fn_statements:
  assumes "transfer_fn arg t = (Inr r, t')"
  obtains q t1 tr t2 e1 t3 e2 t4 a b where
    "tx_exec (select (GetAccount (ttp_from_account_id arg))) t = (q, t1)"
    "\<not> balance_or_zero q < ttp_from_amount arg"
    "tx_exec (CreateTransfer \<lparr>ctp_from_account_id = ttp_from_account_id arg,
      ctp_to_account_id = ttp_to_account_id arg, ctp_amount = ttp_from_amount arg\<rparr>) t1 = (Inr tr, t2)"
    "tx_exec (CreateEntry \<lparr>cep_account_id = ttp_from_account_id arg, cep_amount = debit_of arg\<rparr>) t2 = (Inr e1, t3)"
    "tx_exec (CreateEntry \<lparr>cep_account_id = ttp_to_account_id arg, cep_amount = ttp_to_amount arg\<rparr>) t3 = (Inr e2, t4)"
    "update_balances arg t4 = (Inr (a, b), t')"
    "r = \<lparr>ttr_transfer = tr, ttr_from_account = a, ttr_to_account = b,
      ttr_from_entry = e1, ttr_to_entry = e2\<rparr>"
  using assms by (auto simp: transfer_fn_def debit_of_def split: prod.splits sum.splits if_splits)

lemma transfer_fn_InrD:
  assumes run: "transfer_fn arg t = (Inr r, t')"
  shows "transfer_ready arg (tx_db t) \<and> r = transfer_result arg (tx_db t) \<and>
    ran t (transferred arg (tx_db t)) t'"
proof -
  let ?d = "tx_db t" and ?f = "ttp_from_account_id arg" and ?g = "ttp_to_account_id arg"
  from transfer_fn_statements [OF run] obtain q t1 tr t2 e1 t3 e2 t4 a b where
    0: "tx_exec (select (GetAccount ?f)) t = (q, t1)" "\<not> balance_or_zero q < ttp_from_amount arg"
    and 1: "tx_exec (CreateTransfer \<lparr>ctp_from_account_id = ?f, ctp_to_account_id = ?g,
        ctp_amount = ttp_from_amount arg\<rparr>) t1 = (Inr tr, t2)"
    and 2: "tx_exec (CreateEntry \<lparr>cep_account_id = ?f, cep_amount = debit_of arg\<rparr>) t2 = (Inr e1, t3)"
    and 3: "tx_exec (CreateEntry \<lparr>cep_account_id = ?g, cep_amount = ttp_to_amount arg\<rparr>) t3 = (Inr e2, t4)"
    and 4: "update_balances arg t4 = (Inr (a, b), t')"
    and r: "r = \<lparr>ttr_transfer = tr, ttr_from_account = a, ttr_to_account = b,
        ttr_from_entry = e1, ttr_to_entry = e2\<rparr>" .
  note r1 = tx_exec_ran [OF 1] and r2 = tx_exec_ran [OF 2] and r3 = tx_exec_ran [OF 3]
  have r0: "q = GetAccount ?f ?d \<and> ran t ?d t1"
    using tx_exec_select_active [OF 0(1)] r1 by simp
  then have d1: "tx_db t1 = ?d" by (simp add: ran_def)
  have "account_row ?f ?d \<noteq> None"
    using CreateTransfer_InrD r1 d1 by fastforce
  then have bal: "ttp_from_amount arg \<le> balance_in ?f ?d"
    using 0(2) r0 by (auto simp: GetAccount_def balance_in_def balance_or_zero_def)
  from CreateTransfer_InrD r1 d1 have
    d2: "tx_db t2 = ?d\<lparr>transfer_seq := transfer_seq ?d + 1, transfers := transfers ?d @ [tr]\<rparr>"
      "tr = new_transfer arg ?d" "transfer_seq ?d < seq_max"
    by (fastforce simp: new_transfer_def)+
  from CreateEntry_InrD r2 d2 have
    d3: "tx_db t3 = (tx_db t2)\<lparr>entry_seq := entry_seq ?d + 1, entries := entries ?d @ [e1]\<rparr>"
      "e1 = from_entry arg ?d"
    by (fastforce simp: from_entry_def)+
  from CreateEntry_InrD r3 d2 d3 have
    d4: "tx_db t4 = (tx_db t2)\<lparr>entry_seq := entry_seq ?d + 2, entries := entries ?d @ [e1, e2]\<rparr>"
      "e2 = to_entry arg ?d" "entry_seq ?d + 1 < seq_max"
    by (fastforce simp: to_entry_def)+
  note u = update_balances_InrD [OF 4]
  have acc_eq: "accounts (tx_db t4) = accounts ?d" using d2 d4 by simp
  then have rows: "account_row i (tx_db t4) = account_row i ?d" for i by simp
  from acc_eq have "balances_fit arg (tx_db t4) = balances_fit arg ?d" by (rule balances_fit_cong)
  with u rows bal d2 d4 have "transfer_ready arg ?d" by (simp add: transfer_ready_def)
  moreover have "r = transfer_result arg ?d"
    using u r d2 d3 d4 rows by (simp add: transfer_result_def Let_def)
  moreover have "ran t (transferred arg ?d) t'"
  proof -
    have "(tx_db t4)\<lparr>accounts := moved_accounts arg (accounts (tx_db t4))\<rparr> = transferred arg ?d"
      using d2 d3 d4 acc_eq by (simp add: transferred_def)
    with u r0 r1 r2 r3 show ?thesis by (metis ran_trans)
  qed
  ultimately show ?thesis by blast
qed

subsection \<open>The body succeeds whenever the transfer is ready\<close>

text \<open>\<open>healthy p\<close>: no round trip of the pool fails.\<close>

definition healthy :: "pool \<Rightarrow> bool" where
  "healthy p \<longleftrightarrow> (\<forall>n. pl_faults p n = NoFault)"

lemma healthy_fault [simp]: "healthy p \<Longrightarrow> fault_of p = NoFault"
  by (simp add: healthy_def fault_of_def)

lemma healthy_called [simp]: "healthy (called p) = healthy p"
  by (simp add: healthy_def)

lemma healthy_db [simp]: "healthy (p\<lparr>pl_db := d\<rparr>) = healthy p"
  by (simp add: healthy_def)

lemma CreateTransfer_ok:
  assumes "wf_db d" and "account_row (ctp_from_account_id p) d \<noteq> None"
    and "account_row (ctp_to_account_id p) d \<noteq> None" and "transfer_seq d < seq_max"
  shows "\<exists>t d'. CreateTransfer p d = (Inr t, d')"
proof -
  have "\<not> (\<exists>u \<in> set (transfers d). tr_id u = transfer_seq d + 1)"
    using assms(1) by (auto simp: wf_db_def wf_transfers_def)
  with assms(2-4) show ?thesis by (simp add: CreateTransfer_def Let_def)
qed

lemma CreateEntry_ok:
  assumes "wf_db d" and "account_row (cep_account_id p) d \<noteq> None" and "entry_seq d < seq_max"
  shows "\<exists>e d'. CreateEntry p d = (Inr e, d')"
proof -
  have "\<not> (\<exists>u \<in> set (entries d). ent_id u = entry_seq d + 1)"
    using assms(1) by (auto simp: wf_db_def wf_entries_def)
  with assms(2,3) show ?thesis by (simp add: CreateEntry_def Let_def)
qed

lemma AddAccountBalance_ok:
  "account_row (aab_id p) d = Some a \<Longrightarrow> i64 (acc_balance a + aab_amount p) \<Longrightarrow>
    \<exists>b d'. AddAccountBalance p d = (Inr b, d')"
  by (simp add: AddAccountBalance_def)

lemma tx_exec_healthy:
  assumes "tx_status t = Active" and "healthy (tx_pool t)" and "\<exists>x d. st (tx_db t) = (Inr x, d)"
  shows "\<exists>x t'. tx_exec st t = (Inr x, t') \<and> st (tx_db t) = (Inr x, tx_db t') \<and>
    tx_status t' = Active \<and> healthy (tx_pool t')"
  using assms tx_exec_ok [of t st] by fastforce

lemma addMoney_ok:
  assumes t: "tx_status t = Active" "healthy (tx_pool t)"
    and a: "account_row i (tx_db t) = Some a" "i64 (acc_balance a + m)"
    and b: "account_row j (tx_db t) = Some b"
      "i64 (acc_balance (if i = j then add_balance m a else b) + n)"
  shows "\<exists>r t'. addMoney i m j n t = (Inr r, t') \<and> tx_status t' = Active \<and> healthy (tx_pool t')"
proof -
  let ?p = "\<lparr>aab_amount = m, aab_id = i\<rparr>" and ?q = "\<lparr>aab_amount = n, aab_id = j\<rparr>"
  from tx_exec_healthy [OF t, of "AddAccountBalance ?p"] AddAccountBalance_ok [of ?p] a
  obtain x t1 where 1: "tx_exec (AddAccountBalance ?p) t = (Inr x, t1)"
    "AddAccountBalance ?p (tx_db t) = (Inr x, tx_db t1)" "tx_status t1 = Active" "healthy (tx_pool t1)"
    by auto
  then have "account_row j (tx_db t1) = Some (if i = j then add_balance m a else b)"
    using AddAccountBalance_InrD [OF 1(2)] a b by (auto simp: row_simps)
  then have "\<exists>y d. AddAccountBalance ?q (tx_db t1) = (Inr y, d)"
    using b(2) by (auto intro!: AddAccountBalance_ok)
  with tx_exec_healthy [of t1 "AddAccountBalance ?q"] 1(3,4) obtain y t2 where
    "tx_exec (AddAccountBalance ?q) t1 = (Inr y, t2)" "tx_status t2 = Active" "healthy (tx_pool t2)"
    by blast
  with 1(1) show ?thesis by (simp add: addMoney_def)
qed

lemma update_balances_ok:
  assumes t: "tx_status t = Active" "healthy (tx_pool t)"
    and rows: "account_row (ttp_from_account_id arg) (tx_db t) \<noteq> None"
      "account_row (ttp_to_account_id arg) (tx_db t) \<noteq> None"
    and fit: "balances_fit arg (tx_db t)"
  shows "\<exists>r t'. update_balances arg t = (Inr r, t') \<and> tx_status t' = Active \<and> healthy (tx_pool t')"
proof -
  let ?f = "ttp_from_account_id arg" and ?g = "ttp_to_account_id arg"
  obtain a b where ab: "account_row ?f (tx_db t) = Some a" "account_row ?g (tx_db t) = Some b"
    using rows by blast
  show ?thesis
  proof (cases "?f < ?g")
    case True
    then have "i64 (acc_balance a + debit_of arg)" "i64 (acc_balance b + ttp_to_amount arg)"
      using fit ab by (simp_all add: balances_fit_def balance_in_def Let_def)
    with addMoney_ok [OF t ab(1) _ ab(2), of "debit_of arg" "ttp_to_amount arg"] True
    show ?thesis by (auto simp: update_balances_def debit_of_def)
  next
    case False
    have "i64 (acc_balance b + ttp_to_amount arg)"
      "i64 (acc_balance (if ?g = ?f then add_balance (ttp_to_amount arg) b else a) + debit_of arg)"
      using fit ab by (auto simp: balances_fit_def balance_in_def Let_def)
    with addMoney_ok [OF t ab(2) _ ab(1), of "ttp_to_amount arg" "debit_of arg"] False
    show ?thesis by (fastforce simp: update_balances_def debit_of_def)
  qed
qed

lemma transfer_fn_ok:
  assumes t: "tx_status t = Active" "healthy (tx_pool t)"
    and wf: "wf_db (tx_db t)" and ready: "transfer_ready arg (tx_db t)"
  shows "\<exists>r t'. transfer_fn arg t = (Inr r, t') \<and> tx_status t' = Active \<and> healthy (tx_pool t')"
proof -
  let ?d = "tx_db t" and ?f = "ttp_from_account_id arg" and ?g = "ttp_to_account_id arg"
  let ?tp = "\<lparr>ctp_from_account_id = ?f, ctp_to_account_id = ?g, ctp_amount = ttp_from_amount arg\<rparr>"
  let ?ep = "\<lparr>cep_account_id = ?f, cep_amount = debit_of arg\<rparr>"
  let ?eq = "\<lparr>cep_account_id = ?g, cep_amount = ttp_to_amount arg\<rparr>"
  from ready obtain a where a: "account_row ?f ?d = Some a" "ttp_from_amount arg \<le> acc_balance a"
    by (auto simp: transfer_ready_def balance_in_def)
  from ready have g: "account_row ?g ?d \<noteq> None" by (simp add: transfer_ready_def)
  from tx_exec_healthy [of t "select (GetAccount ?f)"] t a obtain x t1 where
    1: "tx_exec (select (GetAccount ?f)) t = (Inr x, t1)" "x = a" "tx_db t1 = ?d"
      "tx_status t1 = Active" "healthy (tx_pool t1)"
    by (auto simp: select_def GetAccount_def)
  from tx_exec_healthy [of t1 "CreateTransfer ?tp"] CreateTransfer_ok [OF wf, of ?tp] 1 a g ready
  obtain tr t2 where 2: "tx_exec (CreateTransfer ?tp) t1 = (Inr tr, t2)"
      "CreateTransfer ?tp ?d = (Inr tr, tx_db t2)" "tx_status t2 = Active" "healthy (tx_pool t2)"
    by (auto simp: transfer_ready_def)
  from CreateTransfer_InrD [OF 2(2)] have
    d2: "accounts (tx_db t2) = accounts ?d" "entry_seq (tx_db t2) = entry_seq ?d" by simp_all
  have wf2: "wf_db (tx_db t2)" using wf 2(2) by (rule wf_CreateTransfer)
  from tx_exec_healthy [of t2 "CreateEntry ?ep"] CreateEntry_ok [OF wf2, of ?ep] 2 d2 a ready
  obtain e1 t3 where 3: "tx_exec (CreateEntry ?ep) t2 = (Inr e1, t3)"
      "CreateEntry ?ep (tx_db t2) = (Inr e1, tx_db t3)" "tx_status t3 = Active" "healthy (tx_pool t3)"
    by (auto simp: transfer_ready_def)
  from CreateEntry_InrD [OF 3(2)] d2 have
    d3: "accounts (tx_db t3) = accounts ?d" "entry_seq (tx_db t3) = entry_seq ?d + 1" by simp_all
  have wf3: "wf_db (tx_db t3)" using wf2 3(2) by (rule wf_CreateEntry)
  from tx_exec_healthy [of t3 "CreateEntry ?eq"] CreateEntry_ok [OF wf3, of ?eq] 3 d3 g ready
  obtain e2 t4 where 4: "tx_exec (CreateEntry ?eq) t3 = (Inr e2, t4)"
      "CreateEntry ?eq (tx_db t3) = (Inr e2, tx_db t4)" "tx_status t4 = Active" "healthy (tx_pool t4)"
    by (auto simp: transfer_ready_def)
  from CreateEntry_InrD [OF 4(2)] d3 have d4: "accounts (tx_db t4) = accounts ?d" by simp
  have "balances_fit arg (tx_db t4)"
    using ready balances_fit_cong [OF d4] by (simp add: transfer_ready_def)
  with d4 a g have "\<exists>r t'. update_balances arg t4 = (Inr r, t') \<and> tx_status t' = Active \<and>
      healthy (tx_pool t')"
    by (intro update_balances_ok [OF 4(3,4)]) simp_all
  then obtain r t5 where
    5: "update_balances arg t4 = (Inr r, t5)" "tx_status t5 = Active" "healthy (tx_pool t5)"
    by blast
  obtain b c where "r = (b, c)" by (cases r)
  with 1 2 3 4 5 a show ?thesis
    by (simp add: transfer_fn_def balance_or_zero_def debit_of_def)
qed

subsection \<open>The transaction: all or nothing\<close>

lemma roll_back_same_rows [simp]: "same_rows d (roll_back d d')"
  by (simp add: roll_back_def same_rows_def)

text \<open>
  The two ways a transaction can end: its rows are those from before, or it was committed
  with the database its body ended in. Only a lost reply to the commit can report an error
  for the second.
\<close>

lemma execTx_InrD:
  assumes "execTx fn p = (Inr r, q)"
  shows "\<exists>t. fn (tx_begin (called p)) = (Inr r, t) \<and> tx_status t = Active \<and>
    q = called (tx_done t)"
  using assms
  by (auto simp: execTx_def tx_rollback_def tx_commit_def
      split: if_splits prod.splits sum.splits tx_status.splits fault.splits option.splits)

lemma execTx_InlD:
  assumes "execTx fn p = (Inl e, q)"
    and "\<And>t r t'. fn t = (r, t') \<Longrightarrow> pl_db (tx_pool t') = pl_db (tx_pool t)"
  shows "same_rows (pl_db p) (pl_db q) \<or>
    (e = ConnError \<and> (\<exists>r t. fn (tx_begin (called p)) = (Inr r, t) \<and> tx_status t = Active \<and>
       fault_of (tx_pool t) = LostReply \<and> pl_db q = tx_db t))"
proof -
  obtain r t where rt: "fn (tx_begin (called p)) = (r, t)"
    by (cases "fn (tx_begin (called p))")
  with assms(2) have "pl_db (tx_pool t) = pl_db p" by (fastforce simp: tx_begin_def)
  with assms(1) rt show ?thesis
    by (auto simp: execTx_def tx_rollback_def tx_commit_def tx_undone_def tx_done_def
        split: if_splits sum.splits tx_status.splits fault.splits option.splits)
qed

end
