(* ===== verification/Store_Props.thy ===== *)
theory Store_Props
  imports Store_Spec
begin

section \<open>Properties of money transfers\<close>

text \<open>
  The contract of \<open>SQLStore.TransferTx\<close>: its outcome on a healthy connection, atomicity
  under lost requests and replies, and the invariants it keeps: the integrity of the
  schema, books that balance (each account holds the sum of its entries), balances that
  do not go below zero, and the total of all accounts. The last part is the refinement
  of an abstract ledger, a map from account numbers to balances.
\<close>

named_theorems money_simps \<open>the specification of a transfer, unfolded\<close>

subsection \<open>Outcomes of TransferTx\<close>

lemma TransferTx_InrD:
  assumes "TransferTx arg p = (Inr r, q)"
  shows "transfer_ready arg (pl_db p) \<and> r = transfer_result arg (pl_db p) \<and>
    pl_db q = transferred arg (pl_db p) \<and> pl_faults q = pl_faults p"
proof -
  from execTx_InrD [OF assms [unfolded TransferTx_def]] obtain t where
    t: "transfer_fn arg (tx_begin (called p)) = (Inr r, t)" and q: "q = called (tx_done t)"
    by blast
  from transfer_fn_InrD [OF t] q show ?thesis by (auto simp: ran_def tx_done_def)
qed

lemma TransferTx_InlD:
  assumes "TransferTx arg p = (Inl e, q)"
  shows "same_rows (pl_db p) (pl_db q) \<or>
    (e = ConnError \<and> transfer_ready arg (pl_db p) \<and> pl_db q = transferred arg (pl_db p) \<and>
     (\<exists>n. pl_faults p n = LostReply))"
proof -
  have "pl_db (tx_pool t') = pl_db (tx_pool t)" if "transfer_fn arg t = (r, t')" for t r t'
    using transfer_fn_same_pool [OF that] by (simp add: same_pool_def)
  with execTx_InlD [OF assms [unfolded TransferTx_def]]
  consider "same_rows (pl_db p) (pl_db q)"
    | r t where "e = ConnError" "transfer_fn arg (tx_begin (called p)) = (Inr r, t)"
      "fault_of (tx_pool t) = LostReply" "pl_db q = tx_db t" by blast
  then show ?thesis
  proof cases
    case (2 r t)
    with transfer_fn_InrD [OF 2(2)] show ?thesis by (auto simp: ran_def fault_of_def)
  qed simp
qed

lemma TransferTx_rows_cases:
  assumes "TransferTx arg p = (r, q)"
  shows "same_rows (pl_db p) (pl_db q) \<or>
    (transfer_ready arg (pl_db p) \<and> pl_db q = transferred arg (pl_db p))"
  using assms TransferTx_InlD TransferTx_InrD by (cases r) fastforce+

lemma TransferTx_healthy:
  assumes "healthy p" and "wf_db (pl_db p)"
  shows "(\<exists>r q. TransferTx arg p = (Inr r, q)) \<longleftrightarrow> transfer_ready arg (pl_db p)"
proof
  assume "transfer_ready arg (pl_db p)"
  with assms transfer_fn_ok [of "tx_begin (called p)" arg] obtain r t where
    "transfer_fn arg (tx_begin (called p)) = (Inr r, t)" "tx_status t = Active" "healthy (tx_pool t)"
    by auto
  with assms(1) show "\<exists>r q. TransferTx arg p = (Inr r, q)"
    by (simp add: TransferTx_def execTx_def tx_commit_def)
qed (use TransferTx_InrD in blast)

lemma TransferTx_faults: "TransferTx arg p = (r, q) \<Longrightarrow> pl_faults q = pl_faults p"
  unfolding TransferTx_def execTx_def
  by (auto simp: tx_rollback_def tx_commit_def tx_undone_def tx_done_def same_pool_def
      split: if_splits prod.splits sum.splits option.splits tx_status.splits fault.splits
      dest!: transfer_fn_same_pool)

subsection \<open>The amounts of a transfer\<close>

lemma debit_of_nonneg: "0 \<le> ttp_from_amount arg \<Longrightarrow> i64 (ttp_from_amount arg) \<Longrightarrow>
    debit_of arg = - ttp_from_amount arg"
  unfolding debit_of_def by (rule wrap64_id) (simp add: i64_iff)

lemma balance_in_upd [money_simps]:
  "account_row k d \<noteq> None \<Longrightarrow>
    balance_in i (d\<lparr>accounts := upd_rows acc_id k (add_balance n) (accounts d)\<rparr>) =
      balance_in i d + (if i = k then n else 0)"
  by (auto simp: balance_in_def row_simps split: option.splits)

lemma balance_in_transferred [money_simps]:
  assumes "transfer_ready arg d"
  shows "balance_in i (transferred arg d) = balance_in i d
      + (if i = ttp_to_account_id arg then ttp_to_amount arg else 0)
      + (if i = ttp_from_account_id arg then debit_of arg else 0)"
  using assms
  by (auto simp: balance_in_def transferred_def moved_accounts_def transfer_ready_def row_simps
      split: option.splits)

text \<open>The sum of the entries of an account.\<close>

definition entry_sum :: "int \<Rightarrow> db \<Rightarrow> int" where
  "entry_sum i d = sum_list (map ent_amount (filter (\<lambda>e. ent_account_id e = i) (entries d)))"

definition total_balance :: "db \<Rightarrow> int" where
  "total_balance d = sum_list (map acc_balance (accounts d))"

text \<open>The books balance: every account holds what its entries add up to.\<close>

definition books_balance :: "db \<Rightarrow> bool" where
  "books_balance d \<longleftrightarrow> (\<forall>a \<in> set (accounts d). acc_balance a = entry_sum (acc_id a) d)"

definition no_overdraft :: "db \<Rightarrow> bool" where
  "no_overdraft d \<longleftrightarrow> (\<forall>a \<in> set (accounts d). 0 \<le> acc_balance a)"

lemma entry_sum_transferred [money_simps]:
  "entry_sum i (transferred arg d) = entry_sum i d
      + (if i = ttp_to_account_id arg then ttp_to_amount arg else 0)
      + (if i = ttp_from_account_id arg then debit_of arg else 0)"
  by (simp add: entry_sum_def transferred_def from_entry_def to_entry_def)

lemma accounts_ids_transferred [money_simps]:
  "map acc_id (accounts (transferred arg d)) = map acc_id (accounts d)"
  by (simp add: transferred_def moved_accounts_def map_upd_rows)

text \<open>With unique account numbers, a property of the rows is a property of the balances.\<close>

lemma rows_as_balances:
  assumes "distinct (map acc_id (accounts d))"
  shows "(\<forall>a \<in> set (accounts d). P (acc_id a) (acc_balance a)) \<longleftrightarrow>
    (\<forall>i \<in> set (map acc_id (accounts d)). P i (balance_in i d))"
  using row_of_distinct [OF assms] by (auto simp: balance_in_def)

lemma wf_distinct_ids: "wf_db d \<Longrightarrow> distinct (map acc_id (accounts d))"
  by (simp add: wf_db_def wf_accounts_def)

lemma same_rows_invariants:
  assumes "same_rows d d'"
  shows "books_balance d' = books_balance d" "no_overdraft d' = no_overdraft d"
    "total_balance d' = total_balance d" "balance_in i d' = balance_in i d"
  using assms
  by (simp_all add: same_rows_def books_balance_def no_overdraft_def total_balance_def
      entry_sum_def balance_in_def)

lemma books_transferred:
  assumes "wf_db d" and "transfer_ready arg d" and "books_balance d"
  shows "books_balance (transferred arg d)"
proof -
  have ids: "map acc_id (accounts (transferred arg d)) = map acc_id (accounts d)"
    by (rule accounts_ids_transferred)
  then have dt: "distinct (map acc_id (accounts (transferred arg d)))"
    using wf_distinct_ids [OF assms(1)] by simp
  from assms(3) rows_as_balances [OF wf_distinct_ids [OF assms(1)], of "\<lambda>i b. b = entry_sum i d"]
  have "\<forall>i \<in> set (map acc_id (accounts d)). balance_in i d = entry_sum i d"
    by (simp add: books_balance_def)
  then have "\<forall>i \<in> set (map acc_id (accounts d)).
      balance_in i (transferred arg d) = entry_sum i (transferred arg d)"
    using assms(2) by (simp add: balance_in_transferred entry_sum_transferred)
  then show ?thesis
    unfolding books_balance_def
    by (subst rows_as_balances [OF dt, of "\<lambda>i b. b = entry_sum i (transferred arg d)"])
      (simp only: ids)
qed

lemma no_overdraft_transferred:
  assumes "wf_db d" and "transfer_ready arg d" and "no_overdraft d"
    and "0 \<le> ttp_from_amount arg" and "i64 (ttp_from_amount arg)" and "0 \<le> ttp_to_amount arg"
  shows "no_overdraft (transferred arg d)"
proof -
  have ids: "map acc_id (accounts (transferred arg d)) = map acc_id (accounts d)"
    by (rule accounts_ids_transferred)
  then have dt: "distinct (map acc_id (accounts (transferred arg d)))"
    using wf_distinct_ids [OF assms(1)] by simp
  from assms(3) rows_as_balances [OF wf_distinct_ids [OF assms(1)], of "\<lambda>i b. 0 \<le> b"]
  have "\<forall>i \<in> set (map acc_id (accounts d)). 0 \<le> balance_in i d"
    by (simp add: no_overdraft_def)
  then have "\<forall>i \<in> set (map acc_id (accounts d)). 0 \<le> balance_in i (transferred arg d)"
    using assms(2,6) debit_of_nonneg [OF assms(4,5)]
    by (auto simp: balance_in_transferred transfer_ready_def)
  then show ?thesis
    unfolding no_overdraft_def
    by (subst rows_as_balances [OF dt, of "\<lambda>i b. 0 \<le> b"]) (simp only: ids)
qed

lemma total_transferred:
  assumes "wf_db d" and "transfer_ready arg d"
  shows "total_balance (transferred arg d) = total_balance d + ttp_to_amount arg + debit_of arg"
proof -
  let ?f = "ttp_from_account_id arg" and ?g = "ttp_to_account_id arg"
  let ?as = "upd_rows acc_id ?g (add_balance (ttp_to_amount arg)) (accounts d)"
  have ids: "map acc_id ?as = map acc_id (accounts d)" by (rule map_upd_rows) simp
  then have im: "acc_id ` set ?as = acc_id ` set (accounts d)" by (metis list.set_map)
  from assms(2) have g: "?g \<in> acc_id ` set (accounts d)" and f: "?f \<in> acc_id ` set ?as"
    unfolding im row_of_present [symmetric] by (simp_all add: transfer_ready_def)
  have d: "distinct (map acc_id (accounts d))" by (rule wf_distinct_ids [OF assms(1)])
  have "sum_list (map acc_balance ?as) = sum_list (map acc_balance (accounts d)) + ttp_to_amount arg"
    by (rule sum_upd_rows [OF d g]) simp
  moreover have "sum_list (map acc_balance (moved_accounts arg (accounts d))) =
      sum_list (map acc_balance ?as) + debit_of arg"
    unfolding moved_accounts_def by (rule sum_upd_rows [OF _ f]) (simp_all add: ids d)
  ultimately show ?thesis by (simp add: total_balance_def transferred_def)
qed

subsection \<open>Integrity through a transfer\<close>

lemma execTx_wf:
  assumes run: "execTx fn p = (r, q)" and wf: "wf_db (pl_db p)"
    and fn: "\<And>x t t'. fn t = (x, t') \<Longrightarrow> same_pool t t' \<and> (wf_db (tx_db t) \<longrightarrow> wf_db (tx_db t')) \<and>
      seqs_le (tx_db t) (tx_db t')"
  shows "wf_db (pl_db q)"
proof (cases "fault_of p = NoFault")
  case True
  obtain x t where xt: "fn (tx_begin (called p)) = (x, t)" by (cases "fn (tx_begin (called p))")
  from fn [OF xt] wf have t: "wf_db (tx_db t)" "wf_db (roll_back (pl_db (tx_pool t)) (tx_db t))"
    by (auto simp: same_pool_def intro: wf_roll_back)
  have "pl_db q = tx_db t \<or> pl_db q = roll_back (pl_db (tx_pool t)) (tx_db t)"
    using run xt True
    by (auto simp: execTx_def tx_rollback_def tx_commit_def tx_undone_def tx_done_def
        split: if_splits sum.splits option.splits tx_status.splits fault.splits)
  with t show ?thesis by auto
next
  case False
  with run wf show ?thesis by (auto simp: execTx_def)
qed

lemma TransferTx_wf:
  assumes "TransferTx arg p = (r, q)" and "wf_db (pl_db p)"
  shows "wf_db (pl_db q)"
  using assms unfolding TransferTx_def
  by (rule execTx_wf)
    (use transfer_fn_same_pool integrity.transfer_fn_keeps sequences.transfer_fn_keeps in blast)

lemma wf_transferred:
  assumes "wf_db d" and "transfer_ready arg d"
  shows "wf_db (transferred arg d)"
proof -
  define p where "p = \<lparr>pl_db = d, pl_faults = (\<lambda>_. NoFault), pl_calls = 0\<rparr>"
  have "healthy p" "pl_db p = d" by (simp_all add: p_def healthy_def)
  with assms TransferTx_healthy [of p arg] obtain r q where run: "TransferTx arg p = (Inr r, q)"
    by auto
  from TransferTx_wf [OF run] TransferTx_InrD [OF run] assms(1) \<open>pl_db p = d\<close>
  show ?thesis by simp
qed

subsection \<open>The abstract ledger\<close>

text \<open>
  What the store promises: a map from account numbers to balances, on which a transfer
  is one partial operation.
\<close>

type_synonym ledger = "int \<rightharpoonup> int"

definition ledger_of :: "db \<Rightarrow> ledger" where
  "ledger_of d i = map_option acc_balance (account_row i d)"

definition credit :: "int \<Rightarrow> int \<Rightarrow> ledger \<Rightarrow> ledger option" where
  "credit i n l = (case l i of None \<Rightarrow> None
     | Some b \<Rightarrow> if i64 (b + n) then Some (l(i \<mapsto> b + n)) else None)"

definition ledger_transfer :: "int \<Rightarrow> int \<Rightarrow> int \<Rightarrow> int \<Rightarrow> ledger \<Rightarrow> ledger option" where
  "ledger_transfer f g m n l =
     (case l f of None \<Rightarrow> None
      | Some b \<Rightarrow> if b < m then None
          else case credit g n l of None \<Rightarrow> None | Some l' \<Rightarrow> credit f (- m) l')"

definition room :: "db \<Rightarrow> bool" where
  "room d \<longleftrightarrow> transfer_seq d < seq_max \<and> entry_seq d + 1 < seq_max"

lemma ledger_of_balance:
  "account_row i d \<noteq> None \<Longrightarrow> ledger_of d i = Some (balance_in i d)"
  by (auto simp: ledger_of_def balance_in_def)

lemma ledger_transferred:
  assumes "0 \<le> ttp_from_amount arg" and "i64 (ttp_from_amount arg)" and "room d"
  shows "ledger_transfer (ttp_from_account_id arg) (ttp_to_account_id arg)
      (ttp_from_amount arg) (ttp_to_amount arg) (ledger_of d) =
    (if transfer_ready arg d then Some (ledger_of (transferred arg d)) else None)"
proof (cases "account_row (ttp_from_account_id arg) d = None \<or>
    account_row (ttp_to_account_id arg) d = None")
  case True
  then show ?thesis
    by (auto simp: ledger_transfer_def transfer_ready_def credit_def ledger_of_def split: option.splits)
next
  case False
  then have f: "ledger_of d (ttp_from_account_id arg) = Some (balance_in (ttp_from_account_id arg) d)"
    and g: "ledger_of d (ttp_to_account_id arg) = Some (balance_in (ttp_to_account_id arg) d)"
    by (simp_all add: ledger_of_balance)
  have ready: "transfer_ready arg d \<longleftrightarrow>
      ttp_from_amount arg \<le> balance_in (ttp_from_account_id arg) d \<and> balances_fit arg d"
    using False assms(3) by (auto simp: transfer_ready_def room_def)
  have after: "ledger_of (transferred arg d) i =
      (if account_row i d = None then None else Some (balance_in i (transferred arg d)))" for i
  proof -
    have "account_row i (transferred arg d) = None \<longleftrightarrow> account_row i d = None"
      by (simp add: transferred_def moved_accounts_def row_of_upd_rows)
    then show ?thesis by (auto simp: ledger_of_def balance_in_def)
  qed
  show ?thesis
  proof (cases "transfer_ready arg d")
    case True
    have "ledger_of (transferred arg d) i = ((ledger_of d)(ttp_to_account_id arg \<mapsto> balance_in (ttp_to_account_id arg) d + ttp_to_amount arg,
        ttp_from_account_id arg \<mapsto>
          (if ttp_from_account_id arg = ttp_to_account_id arg
           then balance_in (ttp_to_account_id arg) d + ttp_to_amount arg
           else balance_in (ttp_from_account_id arg) d) + debit_of arg)) i" for i
      unfolding after balance_in_transferred [OF True] using False
      by (auto simp: ledger_of_def balance_in_def)
    then show ?thesis
      using True ready f g debit_of_nonneg [OF assms(1,2)]
      by (auto simp: ledger_transfer_def credit_def balances_fit_def Let_def fun_eq_iff)
  next
    case not_ready: False
    then show ?thesis
      using ready f g debit_of_nonneg [OF assms(1,2)]
      by (auto simp: ledger_transfer_def credit_def balances_fit_def Let_def split: if_splits)
  qed
qed

end
