(* ===== verification/Samples.thy ===== *)
theory Samples
  imports Store_Spec
begin

section \<open>Sample data\<close>

text \<open>
  A small bank for the witnesses: alice holds 100 USD and 40 EUR, bob holds 50 USD, and
  the books balance. Exchange rates are rates to a common currency, as the crawler
  stores them.
\<close>

definition sample_user :: "string \<Rightarrow> user" where
  "sample_user n = \<lparr>usr_username = n, usr_hashed_password = ''hash-'' @ n,
     usr_full_name = n, usr_email = n @ ''@mail.com'', usr_password_changed_at = zero_time,
     usr_created_at = 0, usr_role = ''depositor'', usr_provider = ''local''\<rparr>"

definition sample_account :: "int \<Rightarrow> string \<Rightarrow> int \<Rightarrow> string \<Rightarrow> account" where
  "sample_account i u b c = \<lparr>acc_id = i, acc_owner = u, acc_balance = b, acc_currency = c,
     acc_created_at = Some 0\<rparr>"

definition sample_entry :: "int \<Rightarrow> int \<Rightarrow> int \<Rightarrow> entry" where
  "sample_entry i a n = \<lparr>ent_id = i, ent_account_id = a, ent_amount = n, ent_created_at = Some 0\<rparr>"

definition sample_rate :: "string \<Rightarrow> rat \<Rightarrow> currency_row" where
  "sample_rate c r = \<lparr>cur_currency = c, cur_rate = Num r, cur_created_at = Some 0\<rparr>"

definition sample_db :: db where
  "sample_db = \<lparr>
     users = [sample_user ''alice'', sample_user ''bob''],
     accounts = [sample_account 1 ''alice'' 100 ''USD'', sample_account 2 ''bob'' 50 ''USD'',
                 sample_account 3 ''alice'' 40 ''EUR''],
     entries = [sample_entry 1 1 100, sample_entry 2 2 50, sample_entry 3 3 40],
     transfers = [],
     currencies = [sample_rate ''USD'' 32, sample_rate ''EUR'' 36, sample_rate ''CAD'' 24],
     account_seq = 3, entry_seq = 3, transfer_seq = 0, db_now = 7\<rparr>"

lemmas sample_defs = sample_db_def sample_user_def sample_account_def sample_entry_def
  sample_rate_def

definition sample_pool :: pool where
  "sample_pool = \<lparr>pl_db = sample_db, pl_faults = (\<lambda>_. NoFault), pl_calls = 0\<rparr>"

text \<open>The same pool with the reply to one round trip lost.\<close>

definition lossy_pool :: "nat \<Rightarrow> pool" where
  "lossy_pool n = sample_pool\<lparr>pl_faults := (\<lambda>_. NoFault)(n := LostReply)\<rparr>"

definition sample_transfer :: "int \<Rightarrow> int \<Rightarrow> int \<Rightarrow> TransferTxParams" where
  "sample_transfer f g n = \<lparr>ttp_from_account_id = f, ttp_to_account_id = g,
     ttp_from_amount = n, ttp_to_amount = n\<rparr>"

lemma healthy_sample [simp]: "healthy sample_pool"
  by (simp add: healthy_def sample_pool_def)

lemma sample_pool_db [simp]: "pl_db sample_pool = sample_db"
  by (simp add: sample_pool_def)

lemma lossy_pool_db [simp]: "pl_db (lossy_pool n) = sample_db"
  by (simp add: lossy_pool_def)

lemma wf_sample [simp]: "wf_db sample_db"
  by (simp add: wf_defs sample_defs seq_max_def fits_def int_min_def int_max_def)

lemma sample_ready: "transfer_ready (sample_transfer 1 2 30) sample_db"
  by (simp add: transfer_ready_def balances_fit_def balance_in_def debit_of_def sample_transfer_def
      sample_defs seq_max_def wrap_def fits_def int_min_def int_max_def)

lemma sample_transfer_simps [simp]:
  "ttp_from_account_id (sample_transfer f g n) = f" "ttp_to_account_id (sample_transfer f g n) = g"
  "ttp_from_amount (sample_transfer f g n) = n" "ttp_to_amount (sample_transfer f g n) = n"
  by (simp_all add: sample_transfer_def)

text \<open>What the simplifier unfolds to run a transfer on concrete data.\<close>

lemmas sample_run_defs = sample_defs sample_pool_def lossy_pool_def sample_transfer_def
  TransferTx_def execTx_def transfer_fn_def tx_exec_def fault_of_def called_def tx_begin_def
  select_def Let_def tx_rollback_def tx_commit_def tx_done_def tx_undone_def
  update_balances_def addMoney_def balance_or_zero_def query_defs set_balance_def
  add_balance_def seq_max_def wrap_simps roll_back_def

end
