(* ===== verification/Store_Claims.thy ===== *)
theory Store_Claims
  imports Store_Props Samples
begin

section \<open>The contract of TransferTx\<close>

text \<open>The properties of the store, each with a witness on the sample bank.\<close>

lemma sample_run: "\<exists>r q. TransferTx (sample_transfer 1 2 30) sample_pool = (Inr r, q)"
  using TransferTx_healthy [of sample_pool "sample_transfer 1 2 30"] sample_ready by simp

lemma books_sample: "books_balance sample_db"
  by (simp add: books_balance_def entry_sum_def sample_defs)

lemma no_overdraft_sample: "no_overdraft sample_db"
  by (simp add: no_overdraft_def sample_defs)

text \<open>
  C1. On a healthy connection and an intact schema, \<open>TransferTx\<close> succeeds exactly when
  both accounts exist, the source holds the amount, no balance leaves the range of
  bigint and the sequences have room; it then leaves the database with one transfer row,
  the debit and the credit entry and the two balances moved, and returns these rows.
  Otherwise it returns an error and no row of any table has changed.
\<close>

theorem transfer_tx_outcome:
  assumes "healthy p" and "wf_db (pl_db p)" and "TransferTx arg p = (r, q)"
  shows "if transfer_ready arg (pl_db p)
    then r = Inr (transfer_result arg (pl_db p)) \<and> pl_db q = transferred arg (pl_db p)
    else (\<exists>e. r = Inl e) \<and> same_rows (pl_db p) (pl_db q)"
proof (cases r)
  case (Inl e)
  with TransferTx_healthy [OF assms(1,2), of arg] assms(3) have "\<not> transfer_ready arg (pl_db p)"
    by auto
  with TransferTx_InlD [of arg p e q] assms(3) Inl show ?thesis by auto
next
  case (Inr x)
  with TransferTx_InrD [of arg p x q] assms(3) show ?thesis by auto
qed

theorem transfer_tx_outcome_witness:
  "\<exists>q. TransferTx (sample_transfer 1 2 30) sample_pool =
      (Inr (transfer_result (sample_transfer 1 2 30) sample_db), q) \<and>
    map acc_balance (accounts (pl_db q)) = [70, 80, 40] \<and>
    map ent_amount (entries (pl_db q)) = [100, 50, 40, - 30, 30]"
proof -
  obtain r q where run: "TransferTx (sample_transfer 1 2 30) sample_pool = (r, q)"
    by (cases "TransferTx (sample_transfer 1 2 30) sample_pool")
  from transfer_tx_outcome [OF _ _ run] sample_ready
  have "r = Inr (transfer_result (sample_transfer 1 2 30) sample_db)"
    "pl_db q = transferred (sample_transfer 1 2 30) sample_db" by simp_all
  with run show ?thesis
    by (simp add: transferred_def moved_accounts_def from_entry_def to_entry_def debit_of_def
        sample_defs wrap_def)
qed

text \<open>
  C2. All or nothing, whatever round trips to the server fail: a transfer that reports
  success has been carried out in full, and one that reports an error has changed no
  row, unless the error is a failed connection after a commit whose reply was lost, in
  which case it too has been carried out in full. Without lost replies an error always
  means that nothing happened.
\<close>

theorem transfer_tx_all_or_nothing:
  assumes "TransferTx arg p = (r, q)"
  shows "(case r of
      Inr x \<Rightarrow> transfer_ready arg (pl_db p) \<and> x = transfer_result arg (pl_db p) \<and>
        pl_db q = transferred arg (pl_db p)
    | Inl e \<Rightarrow> same_rows (pl_db p) (pl_db q) \<or>
        (e = ConnError \<and> (\<exists>n. pl_faults p n = LostReply) \<and>
         transfer_ready arg (pl_db p) \<and> pl_db q = transferred arg (pl_db p)))"
  using assms TransferTx_InrD TransferTx_InlD by (cases r) fastforce+

text \<open>The reply to the commit, the eighth round trip, is lost.\<close>

theorem transfer_tx_all_or_nothing_witness:
  "\<exists>q. TransferTx (sample_transfer 1 2 30) (lossy_pool 7) = (Inl ConnError, q) \<and>
    pl_db q = transferred (sample_transfer 1 2 30) sample_db"
proof -
  let ?run = "TransferTx (sample_transfer 1 2 30) (lossy_pool 7)"
  have e: "fst ?run = Inl ConnError" by (simp add: sample_run_defs)
  have n: "map acc_balance (accounts (pl_db (snd ?run))) \<noteq> map acc_balance (accounts sample_db)"
    by (simp add: sample_run_defs)
  from e obtain q where run: "?run = (Inl ConnError, q)" by (cases ?run) simp
  from n run have "\<not> same_rows sample_db (pl_db q)" by (auto simp: same_rows_def)
  with transfer_tx_all_or_nothing [OF run] run show ?thesis by auto
qed

text \<open>
  C3. Every transfer keeps the books: whatever its outcome and whatever faults occur, the
  integrity of the schema (keys, foreign keys, ranges) is kept, and if every account held
  the sum of its entries before, it does after.
\<close>

theorem transfer_tx_keeps_books:
  assumes "TransferTx arg p = (r, q)" and "wf_db (pl_db p)" and "books_balance (pl_db p)"
  shows "wf_db (pl_db q) \<and> books_balance (pl_db q)"
proof -
  have "wf_db (pl_db q)" by (rule TransferTx_wf [OF assms(1,2)])
  moreover have "books_balance (pl_db q)"
    using TransferTx_rows_cases [OF assms(1)] assms(2,3) books_transferred same_rows_invariants(1)
    by metis
  ultimately show ?thesis ..
qed

theorem transfer_tx_keeps_books_witness:
  "\<exists>r q. TransferTx (sample_transfer 1 2 30) sample_pool = (Inr r, q) \<and>
    wf_db (pl_db q) \<and> books_balance (pl_db q)"
  using sample_run transfer_tx_keeps_books [of "sample_transfer 1 2 30" sample_pool] books_sample
  by fastforce

text \<open>
  C4. Transfers run one after another never overdraw an account: if the amounts are not
  negative and no balance was negative, none is negative afterwards, whatever the
  outcome. (The concurrent case is different, see the theory of interleaved transfers.)
\<close>

theorem transfer_tx_no_overdraft:
  assumes "TransferTx arg p = (r, q)" and "wf_db (pl_db p)" and "no_overdraft (pl_db p)"
    and "0 \<le> ttp_from_amount arg" and "i64 (ttp_from_amount arg)" and "0 \<le> ttp_to_amount arg"
  shows "no_overdraft (pl_db q)"
  using TransferTx_rows_cases [OF assms(1)] assms(2-) no_overdraft_transferred
    same_rows_invariants(2) by metis

theorem transfer_tx_no_overdraft_witness:
  "\<exists>r q. TransferTx (sample_transfer 1 2 30) sample_pool = (Inr r, q) \<and> no_overdraft (pl_db q)"
  using sample_run transfer_tx_no_overdraft [of "sample_transfer 1 2 30" sample_pool]
    no_overdraft_sample by (fastforce simp: i64_iff)

text \<open>
  Money is neither made nor lost beyond the exchange: a successful transfer changes the
  sum of all balances by exactly the credited minus the debited amount (so by nothing when
  the two are equal), and the balance of every account by exactly its share, also when
  source and target are the same account.
\<close>

theorem transfer_tx_conserves:
  assumes "TransferTx arg p = (Inr r, q)" and "wf_db (pl_db p)"
    and "0 \<le> ttp_from_amount arg" and "i64 (ttp_from_amount arg)"
  shows "total_balance (pl_db q) =
      total_balance (pl_db p) + ttp_to_amount arg - ttp_from_amount arg \<and>
    (\<forall>i. balance_in i (pl_db q) = balance_in i (pl_db p)
      + (if i = ttp_to_account_id arg then ttp_to_amount arg else 0)
      - (if i = ttp_from_account_id arg then ttp_from_amount arg else 0))"
  using TransferTx_InrD [OF assms(1)] total_transferred [OF assms(2)] debit_of_nonneg [OF assms(3,4)]
  by (simp add: balance_in_transferred)

theorem transfer_tx_conserves_witness:
  "\<exists>r q. TransferTx (sample_transfer 1 2 30) sample_pool = (Inr r, q) \<and>
    total_balance (pl_db q) = 190 \<and> balance_in 1 (pl_db q) = 70"
proof -
  obtain r q where run: "TransferTx (sample_transfer 1 2 30) sample_pool = (Inr r, q)"
    using sample_run by blast
  from transfer_tx_conserves [OF run] have
    "total_balance (pl_db q) = total_balance sample_db \<and>
     balance_in 1 (pl_db q) = balance_in 1 sample_db - 30" by (simp add: i64_iff)
  moreover have "total_balance sample_db = 190" "balance_in 1 sample_db = 100"
    by (simp_all add: total_balance_def balance_in_def sample_defs)
  ultimately show ?thesis using run by auto
qed

text \<open>
  Insufficient balance: when the source holds less than the amount (a missing source
  counts as an empty one), \<open>TransferTx\<close> returns \<open>ErrInsufficientBalance\<close> before it writes
  anything: rows and sequences are those from before.
\<close>

theorem transfer_tx_insufficient:
  assumes "healthy p" and "balance_in (ttp_from_account_id arg) (pl_db p) < ttp_from_amount arg"
  shows "\<exists>q. TransferTx arg p = (Inl ErrInsufficientBalance, q) \<and> pl_db q = pl_db p"
  using assms
  by (auto simp: TransferTx_def execTx_def transfer_fn_def tx_exec_def select_def GetAccount_def
      balance_in_def balance_or_zero_def tx_rollback_def tx_undone_def roll_back_def Let_def
      split: option.splits)

theorem transfer_tx_insufficient_witness:
  "\<exists>q. TransferTx (sample_transfer 1 2 101) sample_pool = (Inl ErrInsufficientBalance, q) \<and>
    pl_db q = sample_db"
  using transfer_tx_insufficient [of sample_pool "sample_transfer 1 2 101"]
  by (simp add: balance_in_def sample_defs)

text \<open>
  C5. Refinement: on a healthy connection with room in the sequences, \<open>TransferTx\<close>
  implements the abstract ledger: it succeeds exactly when the transfer is defined on the
  map of balances, and then the new map is the transfer's result; otherwise the map is
  unchanged.
\<close>

theorem transfer_tx_refines_ledger:
  assumes "healthy p" and "wf_db (pl_db p)" and "room (pl_db p)"
    and "0 \<le> ttp_from_amount arg" and "i64 (ttp_from_amount arg)"
    and "TransferTx arg p = (r, q)"
  shows "case ledger_transfer (ttp_from_account_id arg) (ttp_to_account_id arg)
        (ttp_from_amount arg) (ttp_to_amount arg) (ledger_of (pl_db p)) of
      None \<Rightarrow> (\<exists>e. r = Inl e) \<and> ledger_of (pl_db q) = ledger_of (pl_db p)
    | Some l \<Rightarrow> (\<exists>x. r = Inr x) \<and> ledger_of (pl_db q) = l"
proof (cases "transfer_ready arg (pl_db p)")
  case True
  with TransferTx_healthy [OF assms(1,2), of arg] assms(6) obtain x where "r = Inr x" by auto
  with True TransferTx_InrD [of arg p x q] assms(6) ledger_transferred [OF assms(4,5,3)]
  show ?thesis by simp
next
  case False
  with TransferTx_rows_cases [OF assms(6)] have "same_rows (pl_db p) (pl_db q)" by blast
  then have "ledger_of (pl_db q) = ledger_of (pl_db p)"
    by (simp add: ledger_of_def same_rows_def fun_eq_iff)
  moreover have "\<exists>e. r = Inl e"
    using False TransferTx_healthy [OF assms(1,2), of arg] assms(6) by (cases r) auto
  ultimately show ?thesis using False ledger_transferred [OF assms(4,5,3)] by simp
qed

theorem transfer_tx_refines_ledger_witness:
  "\<exists>x q. TransferTx (sample_transfer 1 2 30) sample_pool = (Inr x, q) \<and>
    ledger_of (pl_db q) = (ledger_of sample_db)(1 \<mapsto> 70, 2 \<mapsto> 80)"
proof -
  obtain r q where run: "TransferTx (sample_transfer 1 2 30) sample_pool = (r, q)"
    by (cases "TransferTx (sample_transfer 1 2 30) sample_pool")
  have "ledger_of sample_db 1 = Some 100" "ledger_of sample_db 2 = Some 50"
    by (simp_all add: ledger_of_def sample_defs)
  then have "ledger_transfer 1 2 30 30 (ledger_of sample_db) =
      Some ((ledger_of sample_db)(2 \<mapsto> 80, 1 \<mapsto> 70))"
    by (simp add: ledger_transfer_def credit_def i64_iff)
  moreover have "room sample_db" by (simp add: room_def sample_db_def seq_max_def)
  ultimately have
    "(\<exists>x. r = Inr x) \<and> ledger_of (pl_db q) = (ledger_of sample_db)(2 \<mapsto> 80, 1 \<mapsto> 70)"
    using transfer_tx_refines_ledger [OF _ _ _ _ _ run] by (simp add: i64_iff)
  with run show ?thesis by (auto simp: fun_upd_twist)
qed

end
