(* ===== verification/Go_Text.thy ===== *)
theory Go_Text
  imports Prelude
begin

section \<open>Text: the parts of Go's standard library the code relies on\<close>

text \<open>
  A Go string is a sequence of bytes, here a \<open>string\<close> of 8 bit characters. Decimal
  numbers (\<open>fmt\<close> with \<open>%d\<close>, \<open>strconv.FormatInt\<close>, \<open>strconv.ParseInt\<close>),
  \<open>strings.Fields\<close> and \<open>strings.ToLower\<close> on ASCII text, \<open>hex\<close> and unpadded
  \<open>base32\<close> encoding. The round trips show that the keys and numbers written to Redis
  are read back as they were.
\<close>

named_theorems text_simps \<open>round trips of encoded text\<close>

subsection \<open>Decimal numbers\<close>

definition digit_char :: "nat \<Rightarrow> char" where
  "digit_char n = char_of (48 + n)"

definition is_digit :: "char \<Rightarrow> bool" where
  "is_digit c \<longleftrightarrow> 48 \<le> (of_char c :: nat) \<and> (of_char c :: nat) \<le> 57"

definition digit_val :: "char \<Rightarrow> nat" where
  "digit_val c = of_char c - 48"

fun show_nat :: "nat \<Rightarrow> string" where
  "show_nat n = (if n < 10 then [digit_char n]
     else show_nat (n div 10) @ [digit_char (n mod 10)])"

declare show_nat.simps [simp del]

definition show_int :: "int \<Rightarrow> string" where
  "show_int i = (if i < 0 then CHR ''-'' # show_nat (nat (- i)) else show_nat (nat i))"

definition read_digits :: "string \<Rightarrow> nat" where
  "read_digits s = foldl (\<lambda>n c. 10 * n + digit_val c) 0 s"

definition read_nat :: "string \<Rightarrow> nat option" where
  "read_nat s = (if s \<noteq> [] \<and> list_all is_digit s then Some (read_digits s) else None)"

definition read_int :: "string \<Rightarrow> int option" where
  "read_int s = (case s of [] \<Rightarrow> None
     | c # cs \<Rightarrow>
         if c = CHR ''-'' then map_option (\<lambda>n. - int n) (read_nat cs)
         else if c = CHR ''+'' then map_option int (read_nat cs)
         else map_option int (read_nat s))"

text \<open>
  \<open>strconv.ParseInt(s, 10, w)\<close>: the value and whether it was accepted. On a syntax
  error the value is 0, out of range it is the nearest bound.
\<close>

definition ParseInt :: "nat \<Rightarrow> string \<Rightarrow> int \<times> bool" where
  "ParseInt w s = (case read_int s of None \<Rightarrow> (0, False)
     | Some i \<Rightarrow> if int_max w < i then (int_max w, False)
                 else if i < int_min w then (int_min w, False)
                 else (i, True))"

lemma digit_char_props [simp]:
  assumes "n < 10"
  shows "is_digit (digit_char n)" "digit_val (digit_char n) = n"
  using assms by (simp_all add: is_digit_def digit_char_def digit_val_def)

lemma show_nat_digits: "list_all is_digit (show_nat n)"
proof (induction n rule: show_nat.induct)
  case (1 n)
  then show ?case by (subst show_nat.simps) simp
qed

lemma show_nat_nonempty [simp]: "show_nat n \<noteq> []"
  by (subst show_nat.simps) simp

lemma read_digits_snoc: "read_digits (s @ [c]) = 10 * read_digits s + digit_val c"
  by (simp add: read_digits_def)

lemma read_digits_show [text_simps]: "read_digits (show_nat n) = n"
proof (induction n rule: show_nat.induct)
  case (1 n)
  show ?case
  proof (cases "n < 10")
    case True
    then show ?thesis by (subst show_nat.simps) (simp add: read_digits_def)
  next
    case False
    with 1 have "read_digits (show_nat (n div 10)) = n div 10" by simp
    with False show ?thesis
      by (subst show_nat.simps) (simp add: read_digits_snoc)
  qed
qed

lemma read_nat_show [text_simps]: "read_nat (show_nat n) = Some n"
  by (simp add: read_nat_def show_nat_digits read_digits_show)

lemma show_nat_inj: "show_nat m = show_nat n \<Longrightarrow> m = n"
  by (metis read_digits_show)

lemma show_nat_hd: "is_digit (hd (show_nat n))"
  using show_nat_digits [of n] by (cases "show_nat n") auto

lemma not_digit_signs: "\<not> is_digit (CHR ''-'')" "\<not> is_digit (CHR ''+'')" "\<not> is_digit (CHR '':'')"
  by (simp_all add: is_digit_def)

lemma read_int_show [text_simps]: "read_int (show_int i) = Some i"
proof (cases "i < 0")
  case True
  then show ?thesis by (simp add: show_int_def read_int_def read_nat_show)
next
  case False
  obtain c cs where s: "show_nat (nat i) = c # cs" by (cases "show_nat (nat i)") simp_all
  with show_nat_hd [of "nat i"] have "is_digit c" by simp
  then have "c \<noteq> CHR ''-''" "c \<noteq> CHR ''+''" using not_digit_signs by auto
  with False s read_nat_show [of "nat i"] show ?thesis by (simp add: show_int_def read_int_def)
qed

lemma ParseInt_show [text_simps]: "fits w i \<Longrightarrow> ParseInt w (show_int i) = (i, True)"
  by (simp add: ParseInt_def read_int_show fits_def)

lemma show_int_inj: "show_int i = show_int j \<longleftrightarrow> i = j"
  by (metis option.inject read_int_show)

lemma ParseInt_fits:
  assumes "0 < w"
  shows "fits w (fst (ParseInt w s))"
proof -
  have "int_min w \<le> 0" "0 \<le> int_max w" by (simp_all add: int_min_def int_max_def)
  then show ?thesis by (auto simp: ParseInt_def fits_def split: option.split)
qed

subsection \<open>Fields and lower case\<close>

definition is_space :: "char \<Rightarrow> bool" where
  "is_space c \<longleftrightarrow> c = CHR '' '' \<or> (9 \<le> (of_char c :: nat) \<and> (of_char c :: nat) \<le> 13)"

definition is_upper :: "char \<Rightarrow> bool" where
  "is_upper c \<longleftrightarrow> 65 \<le> (of_char c :: nat) \<and> (of_char c :: nat) \<le> 90"

definition is_lower :: "char \<Rightarrow> bool" where
  "is_lower c \<longleftrightarrow> 97 \<le> (of_char c :: nat) \<and> (of_char c :: nat) \<le> 122"

definition lower_char :: "char \<Rightarrow> char" where
  "lower_char c = (if is_upper c then char_of (of_char c + 32 :: nat) else c)"

definition ToLower :: "string \<Rightarrow> string" where
  "ToLower s = map lower_char s"

lemma dropWhile_shorter [termination_simp]: "length (dropWhile P xs) < Suc (length xs)"
  by (simp add: length_dropWhile_le less_Suc_eq_le)

fun Fields :: "string \<Rightarrow> string list" where
  "Fields [] = []"
| "Fields (c # cs) =
     (if is_space c then Fields cs
      else (c # takeWhile (\<lambda>d. \<not> is_space d) cs) #
           Fields (dropWhile (\<lambda>d. \<not> is_space d) cs))"

lemma Fields_nonempty: "f \<in> set (Fields s) \<Longrightarrow> f \<noteq> [] \<and> (\<forall>c \<in> set f. \<not> is_space c)"
proof (induction s rule: Fields.induct)
  case (2 c cs)
  show ?case
  proof (cases "is_space c")
    case True
    with 2 show ?thesis by simp
  next
    case False
    with "2.prems" consider "f = c # takeWhile (\<lambda>d. \<not> is_space d) cs"
      | "f \<in> set (Fields (dropWhile (\<lambda>d. \<not> is_space d) cs))" by auto
    then show ?thesis
    proof cases
      case 1
      with False show ?thesis by (auto dest: set_takeWhileD)
    next
      case 2
      then show ?thesis by (rule "2.IH"(2) [OF False])
    qed
  qed
qed simp

lemma dropWhile_word: "\<forall>c \<in> set w. \<not> is_space c \<Longrightarrow>
    dropWhile (\<lambda>d. \<not> is_space d) (w @ CHR '' '' # t) = CHR '' '' # t \<and>
    takeWhile (\<lambda>d. \<not> is_space d) (w @ CHR '' '' # t) = w"
  by (induction w) (auto simp: is_space_def)

lemma Fields_word: "w \<noteq> [] \<Longrightarrow> \<forall>c \<in> set w. \<not> is_space c \<Longrightarrow> Fields w = [w]"
proof -
  assume w: "w \<noteq> []" "\<forall>c \<in> set w. \<not> is_space c"
  then obtain c cs where c: "w = c # cs" by (cases w) auto
  with w have "takeWhile (\<lambda>d. \<not> is_space d) cs = cs" "dropWhile (\<lambda>d. \<not> is_space d) cs = []"
    by (auto simp: takeWhile_eq_all_conv dropWhile_eq_Nil_conv)
  with c w show ?thesis by (simp del: dropWhile_eq_Nil_conv)
qed

text \<open>A word, a space and a word: the two words.\<close>

lemma Fields_two:
  assumes "a \<noteq> []" and "\<forall>c \<in> set a. \<not> is_space c" and "b \<noteq> []" and "\<forall>c \<in> set b. \<not> is_space c"
  shows "Fields (a @ CHR '' '' # b) = [a, b]"
proof -
  obtain c cs where a: "a = c # cs" using assms(1) by (cases a) auto
  with assms(2) dropWhile_word [of cs b] have
    "Fields (a @ CHR '' '' # b) = a # Fields (CHR '' '' # b)" by simp
  also have "Fields (CHR '' '' # b) = Fields b" by (simp add: is_space_def)
  finally show ?thesis using Fields_word [OF assms(3,4)] by simp
qed

subsection \<open>Hexadecimal\<close>

definition hex_digit :: "nat \<Rightarrow> char" where
  "hex_digit n = ''0123456789abcdef'' ! n"

definition hex_val :: "char \<Rightarrow> nat" where
  "hex_val c = (if is_digit c then of_char c - 48 else of_char c - 87)"

fun hex_encode :: "nat list \<Rightarrow> string" where
  "hex_encode [] = []"
| "hex_encode (b # bs) = hex_digit (b div 16) # hex_digit (b mod 16) # hex_encode bs"

fun hex_decode :: "string \<Rightarrow> nat list" where
  "hex_decode (a # b # s) = (16 * hex_val a + hex_val b) # hex_decode s"
| "hex_decode s = []"

definition is_hex :: "char \<Rightarrow> bool" where
  "is_hex c \<longleftrightarrow> is_digit c \<or> c \<in> set ''abcdef''"

lemma hex_digits:
  "list_all (\<lambda>n. hex_val (hex_digit n) = n \<and> is_hex (hex_digit n)) [0..<16]"
  by code_simp

lemma hex_val_digit: "n < 16 \<Longrightarrow> hex_val (hex_digit n) = n"
  using hex_digits by (simp add: list_all_iff)

lemma hex_roundtrip [text_simps]: "list_all (\<lambda>b. b < 256) bs \<Longrightarrow> hex_decode (hex_encode bs) = bs"
  by (induction bs) (auto simp: hex_val_digit)

lemma length_hex [simp]: "length (hex_encode bs) = 2 * length bs"
  by (induction bs) auto

lemma is_hex_digit: "n < 16 \<Longrightarrow> is_hex (hex_digit n)"
  using hex_digits by (simp add: list_all_iff)

lemma hex_chars: "list_all (\<lambda>b. b < 256) bs \<Longrightarrow> c \<in> set (hex_encode bs) \<Longrightarrow> is_hex c"
  by (induction bs) (auto simp: is_hex_digit)

subsection \<open>Base 32 without padding\<close>

definition bits_of :: "nat \<Rightarrow> nat \<Rightarrow> bool list" where
  "bits_of k n = map (\<lambda>i. odd (n div 2 ^ (k - 1 - i))) [0..<k]"

definition of_bits :: "bool list \<Rightarrow> nat" where
  "of_bits bs = foldl (\<lambda>n b. 2 * n + (if b then 1 else 0)) 0 bs"

function chunks5 :: "bool list \<Rightarrow> bool list list" where
  "chunks5 bs = (if bs = [] then []
     else (take 5 bs @ replicate (5 - length bs) False) # chunks5 (drop 5 bs))"
  by pat_completeness auto
termination
  by (relation "measure length") auto

declare chunks5.simps [simp del]

definition base32_alphabet :: string where
  "base32_alphabet = ''ABCDEFGHIJKLMNOPQRSTUVWXYZ234567''"

definition base32_encode :: "nat list \<Rightarrow> string" where
  "base32_encode bytes =
     map (\<lambda>g. base32_alphabet ! of_bits g) (chunks5 (concat (map (bits_of 8) bytes)))"

lemma div5_step:
  assumes "0 < n"
  shows "Suc ((n - 5 + 4) div 5) = (n + 4) div (5 :: nat)"
proof (cases "n < 5")
  case True
  with assms have "n = 1 \<or> n = 2 \<or> n = 3 \<or> n = 4" by arith
  then show ?thesis by auto
next
  case False
  then obtain m where "n = m + 5" by (metis add.commute le_Suc_ex not_less)
  then show ?thesis by simp
qed

lemma length_chunks5: "length (chunks5 bs) = (length bs + 4) div 5"
proof (induction bs rule: chunks5.induct)
  case (1 bs)
  show ?case
  proof (cases "bs = []")
    case True
    then show ?thesis by (subst chunks5.simps) simp
  next
    case False
    with 1 have ih: "length (chunks5 (drop 5 bs)) = (length bs - 5 + 4) div 5" by simp
    have "0 < length bs" using False by simp
    then have "Suc ((length bs - 5 + 4) div 5) = (length bs + 4) div 5" by (rule div5_step)
    then show ?thesis using False ih by (subst chunks5.simps) simp
  qed
qed

lemma chunks5_width: "g \<in> set (chunks5 bs) \<Longrightarrow> length g = 5"
proof (induction bs rule: chunks5.induct)
  case (1 bs)
  then show ?case
    by (subst (asm) (2) chunks5.simps) (auto split: if_splits)
qed

lemma of_bits_bound: "of_bits bs < 2 ^ length bs"
proof (induction bs rule: rev_induct)
  case (snoc b bs)
  then show ?case by (simp add: of_bits_def)
qed (simp add: of_bits_def)

lemma length_concat_bits: "length (concat (map (bits_of 8) bs)) = 8 * length bs"
  by (induction bs) (simp_all add: bits_of_def)

lemma length_base32: "length (base32_encode bs) = (8 * length bs + 4) div 5"
  by (simp add: base32_encode_def length_chunks5 length_concat_bits)

lemma base32_chars: "set (base32_encode bs) \<subseteq> set base32_alphabet"
proof
  fix c
  assume "c \<in> set (base32_encode bs)"
  then obtain g where g: "g \<in> set (chunks5 (concat (map (bits_of 8) bs)))"
    and c: "c = base32_alphabet ! of_bits g" by (auto simp: base32_encode_def)
  have "of_bits g < length base32_alphabet"
    using of_bits_bound [of g] chunks5_width [OF g] by (simp add: base32_alphabet_def)
  with c show "c \<in> set base32_alphabet" by (simp only: nth_mem)
qed

end
