(* ===== verification/Runtime.thy ===== *)
theory Runtime
  imports Go_Text
begin

section \<open>What a request reads from its surroundings\<close>

text \<open>
  The clock (\<open>time.Now\<close>, nanoseconds since the Unix epoch) and the random source
  (\<open>math/rand\<close>, the salts, nonces and UUIDs of the libraries) are read one value after
  another: \<open>e_clock n\<close> is the n-th reading and \<open>e_draw n\<close> the n-th draw, both arbitrary.
  A draw below \<open>n\<close> is the raw draw modulo \<open>n\<close>, so every sequence of values in range
  is one of some raw draws.
\<close>

record env =
  e_clock :: "nat \<Rightarrow> int"
  e_ticks :: nat
  e_draw :: "nat \<Rightarrow> nat"
  e_drawn :: nat

definition time_now :: "env \<Rightarrow> int \<times> env" where
  "time_now e = (e_clock e (e_ticks e), e\<lparr>e_ticks := Suc (e_ticks e)\<rparr>)"

definition draw :: "env \<Rightarrow> nat \<times> env" where
  "draw e = (e_draw e (e_drawn e), e\<lparr>e_drawn := Suc (e_drawn e)\<rparr>)"

definition clock_mono :: "env \<Rightarrow> bool" where
  "clock_mono e \<longleftrightarrow> (\<forall>m n. m \<le> n \<longrightarrow> e_clock e m \<le> e_clock e n)"

text \<open>Durations: \<open>time.Duration\<close> counts nanoseconds; the readings truncate towards zero.\<close>

definition go_div :: "int \<Rightarrow> int \<Rightarrow> int" where
  "go_div a b = sgn a * sgn b * (\<bar>a\<bar> div \<bar>b\<bar>)"

definition UnixMilli :: "int \<Rightarrow> int" where
  "UnixMilli t = t div 1000000"

definition Milliseconds :: "int \<Rightarrow> int" where
  "Milliseconds d = go_div d 1000000"

definition int_Seconds :: "int \<Rightarrow> int" where
  "int_Seconds d = go_div d 1000000000"

lemma go_div_nonneg: "0 \<le> a \<Longrightarrow> 0 < b \<Longrightarrow> go_div a b = a div b"
  by (cases "a = 0") (simp_all add: go_div_def)

lemma time_now_frame [simp]:
  "e_clock (snd (time_now e)) = e_clock e" "e_draw (snd (time_now e)) = e_draw e"
  "e_drawn (snd (time_now e)) = e_drawn e" "e_ticks (snd (time_now e)) = Suc (e_ticks e)"
  by (simp_all add: time_now_def)

end
