(* ===== verification/Util.thy ===== *)
theory Util
  imports Runtime
begin

section \<open>Utilities (util/, api/rbac.go)\<close>

text \<open>
  Roles and currencies, the configuration record, random values and passwords. The
  bcrypt package is a parameter: \<open>bc_generate\<close> and \<open>bc_compare\<close>; the locale
  \<open>bcrypt_package\<close> states what its documentation promises.
\<close>

subsection \<open>Roles, currencies, configuration\<close>

definition DepositorRole :: string where "DepositorRole = ''depositor''"

definition BankerRole :: string where "BankerRole = ''banker''"

definition USD :: string where "USD = ''USD''"

definition EUR :: string where "EUR = ''EUR''"

definition CAD :: string where "CAD = ''CAD''"

definition IsSupportedCurrency :: "string \<Rightarrow> bool" where
  "IsSupportedCurrency c =
     (if c = USD \<or> c = EUR \<or> c = CAD then True else False)"

fun roleCheck :: "string \<Rightarrow> string list \<Rightarrow> bool" where
  "roleCheck userRole [] = False"
| "roleCheck userRole (role # accessibleRoles) =
     (if userRole = role then True else roleCheck userRole accessibleRoles)"

lemma roleCheck_iff [simp]: "roleCheck r rs \<longleftrightarrow> r \<in> set rs"
  by (induction rs) auto

record Config =
  DBSource :: string
  AllowedOrigins :: "string list"
  HTTPServerAddress :: string
  TokenSymmetricKey :: string
  AccessTokenDuration :: int
  RefreshTokenDuration :: int
  RedisURL :: string
  MigrationURL :: string
  EmailSenderName :: string
  EmailSenderAddress :: string
  EmailSenderPassword :: string
  APILimitBound :: int
  APILimitDuration :: int
  GoogleClientID :: string
  GoogleClientSecret :: string
  GoogleOAuthRedirectUrl :: string

text \<open>
  \<open>LoadConfig\<close> goes through viper, a parameter: \<open>vp_ReadInConfig\<close> reads the file of the
  given directory, name and type, and \<open>vp_Unmarshal\<close> fills the record from the file and
  the environment.
\<close>

datatype config_error = ConfigUnread | ConfigUnmarshalled

record 'w viper =
  vp_ReadInConfig :: "string \<Rightarrow> string \<Rightarrow> string \<Rightarrow> 'w \<Rightarrow> bool \<times> 'w"
  vp_Unmarshal :: "'w \<Rightarrow> Config option \<times> 'w"

definition LoadConfig :: "'w viper \<Rightarrow> string \<Rightarrow> 'w \<Rightarrow> (config_error, Config) result \<times> 'w" where
  "LoadConfig vp path w =
     (case vp_ReadInConfig vp path ''app'' ''env'' w of
        (False, w1) \<Rightarrow> (Inl ConfigUnread, w1)
      | (True, w1) \<Rightarrow>
          (case vp_Unmarshal vp w1 of
             (None, w2) \<Rightarrow> (Inl ConfigUnmarshalled, w2)
           | (Some conf, w2) \<Rightarrow> (Inr conf, w2)))"

subsection \<open>Random values (util/random.go)\<close>

definition alphabet :: string where
  "alphabet = ''abcdefghijklmnopqrstuvwxyz''"

text \<open>\<open>rand.Intn\<close> and \<open>rand.Int63n\<close> panic on a bound that is not positive: \<open>None\<close>.\<close>

definition Intn :: "int \<Rightarrow> env \<Rightarrow> (int \<times> env) option" where
  "Intn n e = (if n \<le> 0 then None
     else case draw e of (r, e') \<Rightarrow> Some (int r mod n, e'))"

definition RandomInt :: "int \<Rightarrow> int \<Rightarrow> env \<Rightarrow> (int \<times> env) option" where
  "RandomInt lo hi e =
     (case Intn (wrap64 (hi - lo + 1)) e of None \<Rightarrow> None
      | Some (r, e') \<Rightarrow> Some (wrap64 (lo + r), e'))"

text \<open>The loop of \<open>RandomString\<close>: \<open>k\<close> bytes are still to be written to the builder.\<close>

fun RandomString_loop :: "nat \<Rightarrow> string \<Rightarrow> env \<Rightarrow> string \<times> env" where
  "RandomString_loop 0 sb e = (sb, e)"
| "RandomString_loop (Suc k) sb e =
     (case draw e of (r, e') \<Rightarrow>
        RandomString_loop k (sb @ [alphabet ! (r mod length alphabet)]) e')"

definition RandomString :: "int \<Rightarrow> env \<Rightarrow> string \<times> env" where
  "RandomString n e = RandomString_loop (nat n) [] e"

definition RandomOwner :: "env \<Rightarrow> string \<times> env" where
  "RandomOwner e = RandomString 6 e"

definition RandomMoney :: "env \<Rightarrow> (int \<times> env) option" where
  "RandomMoney e = RandomInt 5000 10000 e"

definition RandomCurrency :: "env \<Rightarrow> string \<times> env" where
  "RandomCurrency e = (let currencies = [USD, EUR, CAD] in
     case draw e of (r, e') \<Rightarrow> (currencies ! (r mod length currencies), e'))"

definition RandomEmail :: "env \<Rightarrow> string \<times> env" where
  "RandomEmail e = (case RandomString 6 e of (s, e') \<Rightarrow> (s @ ''@email.com'', e'))"

text \<open>\<open>rand.Read\<close> fills a buffer of \<open>n\<close> bytes.\<close>

fun rand_Read :: "nat \<Rightarrow> env \<Rightarrow> nat list \<times> env" where
  "rand_Read 0 e = ([], e)"
| "rand_Read (Suc n) e = (case draw e of (r, e1) \<Rightarrow>
     case rand_Read n e1 of (bs, e2) \<Rightarrow> (r mod 256 # bs, e2))"

definition RandomID :: "env \<Rightarrow> string \<times> env" where
  "RandomID e = (case rand_Read 16 e of (bytes, e') \<Rightarrow> (hex_encode bytes, e'))"

definition RandomBase32Secret :: "nat \<Rightarrow> env \<Rightarrow> string \<times> env" where
  "RandomBase32Secret n e = (case rand_Read n e of (bytes, e') \<Rightarrow> (base32_encode bytes, e'))"

lemma rand_Read_bytes: "list_all (\<lambda>b. b < 256) (fst (rand_Read n e)) \<and> length (fst (rand_Read n e)) = n"
  by (induction n arbitrary: e) (auto split: prod.split simp: prod.case_eq_if)

lemma draw_frame [simp]: "e_clock (snd (draw e)) = e_clock e" "e_ticks (snd (draw e)) = e_ticks e"
  by (simp_all add: draw_def)

lemma rand_Read_frame [simp]:
  "e_clock (snd (rand_Read n e)) = e_clock e" "e_ticks (snd (rand_Read n e)) = e_ticks e"
  by (induction n arbitrary: e) (simp_all add: prod.case_eq_if)

lemma RandomID_frame [simp]:
  "e_clock (snd (RandomID e)) = e_clock e" "e_ticks (snd (RandomID e)) = e_ticks e"
  by (simp_all add: RandomID_def prod.case_eq_if)

lemma RandomID_shape: "length (fst (RandomID e)) = 32 \<and> (\<forall>c \<in> set (fst (RandomID e)). is_hex c)"
  using rand_Read_bytes [of 16 e] hex_chars by (auto simp: RandomID_def prod.case_eq_if)

lemma RandomString_loop_shape:
  "length (fst (RandomString_loop k sb e)) = length sb + k \<and>
   set (fst (RandomString_loop k sb e)) \<subseteq> set sb \<union> set alphabet"
proof (induction k arbitrary: sb e)
  case (Suc k)
  have "alphabet ! (fst (draw e) mod length alphabet) \<in> set alphabet"
    by (rule nth_mem) (simp add: alphabet_def)
  with Suc [of "sb @ [alphabet ! (fst (draw e) mod length alphabet)]" "snd (draw e)"]
  show ?case by (auto simp: prod.case_eq_if)
qed simp

lemma RandomInt_range:
  assumes "i64 lo" and "i64 hi" and "lo \<le> hi" and "i64 (hi - lo + 1)"
  shows "\<exists>r e'. RandomInt lo hi e = Some (r, e') \<and> lo \<le> r \<and> r \<le> hi"
proof -
  define m where "m = int (fst (draw e)) mod (hi - lo + 1)"
  have m: "0 \<le> m" "m \<le> hi - lo"
    using assms(3) pos_mod_bound [of "hi - lo + 1"] by (simp_all add: m_def)
  with assms have "i64 (lo + m)" by (simp add: i64_iff)
  with m assms show ?thesis
    by (auto simp: RandomInt_def Intn_def prod.case_eq_if simp flip: m_def)
qed

subsection \<open>Passwords (util/password.go)\<close>

record bcrypt =
  bc_generate :: "string \<Rightarrow> nat \<Rightarrow> string option"
  bc_compare :: "string \<Rightarrow> string \<Rightarrow> bool"

datatype password_error = HashFailed | HashMismatch

definition HashPassword :: "bcrypt \<Rightarrow> string \<Rightarrow> env \<Rightarrow> (password_error, string) result \<times> env" where
  "HashPassword bc password e =
     (case draw e of (salt, e') \<Rightarrow>
        ((case bc_generate bc password salt of None \<Rightarrow> Inl HashFailed | Some h \<Rightarrow> Inr h), e'))"

definition CheckPassword :: "bcrypt \<Rightarrow> string \<Rightarrow> string \<Rightarrow> password_error option" where
  "CheckPassword bc password hashedPassword =
     (if bc_compare bc hashedPassword password then None else Some HashMismatch)"

text \<open>
  The documented behaviour of the package: a password is accepted by its own hash, a
  different password of at most 72 bytes is not (longer ones are refused when hashing),
  and the empty string is not a hash.
\<close>

locale bcrypt_package =
  fixes bc :: bcrypt
  assumes accepts: "bc_generate bc p s = Some h \<Longrightarrow> bc_compare bc h p"
    and rejects: "bc_generate bc p s = Some h \<Longrightarrow> bc_compare bc h q \<Longrightarrow> length q \<le> 72 \<Longrightarrow> q = p"
    and long: "72 < length p \<Longrightarrow> bc_generate bc p s = None"
    and no_hash: "\<not> bc_compare bc [] q"
begin

lemma check_own: "HashPassword bc p e = (Inr h, e') \<Longrightarrow> CheckPassword bc p h = None"
  by (auto simp: HashPassword_def CheckPassword_def accepts split: prod.splits option.splits)

lemma check_other:
  "HashPassword bc p e = (Inr h, e') \<Longrightarrow> q \<noteq> p \<Longrightarrow> length q \<le> 72 \<Longrightarrow>
    CheckPassword bc q h = Some HashMismatch"
  by (auto simp: HashPassword_def CheckPassword_def split: prod.splits option.splits dest: rejects)

lemma check_empty: "CheckPassword bc q [] = Some HashMismatch"
  by (simp add: CheckPassword_def no_hash)

end

text \<open>
  A model of the package: the hash shows a salt and the password behind a mark. It serves
  to run the handlers on concrete data and to show that the laws can hold.
\<close>

definition plain_bcrypt :: bcrypt where
  "plain_bcrypt = \<lparr>
     bc_generate = (\<lambda>p s. if 72 < length p then None else Some (CHR ''$'' # p)),
     bc_compare = (\<lambda>h p. h = CHR ''$'' # p)\<rparr>"

interpretation plain: bcrypt_package plain_bcrypt
  by unfold_locales (auto simp: plain_bcrypt_def split: if_splits)

end
