(* ===== verification/Token.thy ===== *)
theory Token
  imports Runtime
begin

section \<open>Access tokens (token/)\<close>

text \<open>
  \<open>Payload\<close>, its creation and expiry, and \<open>PasetoMaker\<close> over the packages it calls:
  \<open>pas_encrypt\<close> and \<open>pas_decrypt\<close> (paseto v2, a nonce is drawn for each token) and
  \<open>pas_uuid\<close> (google/uuid). The interface \<open>Maker\<close> is the locale \<open>token_maker\<close>; the
  locale \<open>paseto_package\<close> states what is relied on of the encryption, and gives the
  interface.
\<close>

subsection \<open>Payloads (token/payload.go)\<close>

datatype token_error = ErrInvalidToken | ErrExpiredToken | UuidError | EncryptError | KeySizeError

record Payload =
  pay_ID :: string
  pay_Username :: string
  pay_Role :: string
  pay_IssuedAt :: int
  pay_ExpiredAt :: int

record paseto =
  pas_encrypt :: "string \<Rightarrow> Payload \<Rightarrow> nat \<Rightarrow> string option"
  pas_decrypt :: "string \<Rightarrow> string \<Rightarrow> Payload option"
  pas_uuid :: "nat \<Rightarrow> string option"

definition NewPayload ::
    "paseto \<Rightarrow> string \<Rightarrow> string \<Rightarrow> int \<Rightarrow> env \<Rightarrow> (token_error, Payload) result \<times> env" where
  "NewPayload lib username role duration e =
     (case draw e of (r, e1) \<Rightarrow>
      case pas_uuid lib r of
        None \<Rightarrow> (Inl UuidError, e1)
      | Some tokenID \<Rightarrow>
          (case time_now e1 of (issued, e2) \<Rightarrow>
           case time_now e2 of (now, e3) \<Rightarrow>
             (Inr \<lparr>pay_ID = tokenID, pay_Username = username, pay_Role = role,
                   pay_IssuedAt = issued, pay_ExpiredAt = now + duration\<rparr>, e3)))"

definition Valid :: "Payload \<Rightarrow> env \<Rightarrow> token_error option \<times> env" where
  "Valid payload e =
     (case time_now e of (now, e') \<Rightarrow>
        (if pay_ExpiredAt payload < now then Some ErrExpiredToken else None, e'))"

subsection \<open>The PASETO maker (token/paseto\_maker.go)\<close>

record PasetoMaker =
  pm_paseto :: paseto
  pm_symmetricKey :: string

definition KeySize :: nat where "KeySize = 32"

definition NewPasetoMaker :: "paseto \<Rightarrow> string \<Rightarrow> (token_error, PasetoMaker) result" where
  "NewPasetoMaker lib symmetricKey =
     (if length symmetricKey \<noteq> KeySize then Inl KeySizeError
      else Inr \<lparr>pm_paseto = lib, pm_symmetricKey = symmetricKey\<rparr>)"

definition CreateToken ::
    "PasetoMaker \<Rightarrow> string \<Rightarrow> string \<Rightarrow> int \<Rightarrow> env \<Rightarrow>
      (token_error, string \<times> Payload) result \<times> env" where
  "CreateToken maker username role duration e =
     (case NewPayload (pm_paseto maker) username role duration e of
        (Inl err, e1) \<Rightarrow> (Inl err, e1)
      | (Inr payload, e1) \<Rightarrow>
          (case draw e1 of (nonce, e2) \<Rightarrow>
             (case pas_encrypt (pm_paseto maker) (pm_symmetricKey maker) payload nonce of
                None \<Rightarrow> Inl EncryptError
              | Some token \<Rightarrow> Inr (token, payload), e2)))"

definition VerifyToken :: "PasetoMaker \<Rightarrow> string \<Rightarrow> env \<Rightarrow> (token_error, Payload) result \<times> env" where
  "VerifyToken maker token e =
     (case pas_decrypt (pm_paseto maker) (pm_symmetricKey maker) token of
        None \<Rightarrow> (Inl ErrInvalidToken, e)
      | Some payload \<Rightarrow>
          (case Valid payload e of
             (Some err, e') \<Rightarrow> (Inl err, e')
           | (None, e') \<Rightarrow> (Inr payload, e')))"

subsection \<open>The interface Maker (token/maker.go)\<close>

text \<open>
  What the handlers rely on: a token verifies to the payload it was made with until its
  expiry and not after, and only tokens of the maker verify.
\<close>

locale token_maker =
  fixes create :: "string \<Rightarrow> string \<Rightarrow> int \<Rightarrow> env \<Rightarrow> (token_error, string \<times> Payload) result \<times> env"
    and verify :: "string \<Rightarrow> env \<Rightarrow> (token_error, Payload) result \<times> env"
    and issued :: "string \<Rightarrow> Payload \<Rightarrow> bool"
  assumes create_issues: "create u r d e = (Inr (t, p), e') \<Longrightarrow>
      issued t p \<and> pay_Username p = u \<and> pay_Role p = r \<and>
      pay_ExpiredAt p = e_clock e (Suc (e_ticks e)) + d"
    and verify_fresh: "issued t p \<Longrightarrow> fst (time_now e) \<le> pay_ExpiredAt p \<Longrightarrow>
      verify t e = (Inr p, snd (time_now e))"
    and verify_stale: "issued t p \<Longrightarrow> pay_ExpiredAt p < fst (time_now e) \<Longrightarrow>
      fst (verify t e) = Inl ErrExpiredToken"
    and verify_issued: "verify t e = (Inr p, e') \<Longrightarrow> issued t p"
begin

lemma created_verifies:
  assumes "create u r d e = (Inr (t, p), e')" and "fst (time_now f) \<le> pay_ExpiredAt p"
  shows "verify t f = (Inr p, snd (time_now f)) \<and> pay_Username p = u \<and> pay_Role p = r"
  using create_issues [OF assms(1)] verify_fresh assms(2) by auto

text \<open>A token verifies exactly while its payload has not expired.\<close>

lemma verify_iff:
  assumes "issued t p"
  shows "(\<exists>e'. verify t e = (Inr p, e')) \<longleftrightarrow> fst (time_now e) \<le> pay_ExpiredAt p"
proof (cases "fst (time_now e) \<le> pay_ExpiredAt p")
  case True
  with verify_fresh [OF assms] show ?thesis by blast
next
  case False
  then have "fst (verify t e) = Inl ErrExpiredToken" using verify_stale [OF assms] by simp
  with False show ?thesis by auto
qed

end

subsection \<open>What is relied on of the encryption\<close>

text \<open>
  Authenticated encryption: a token decrypts, under its key, to what was encrypted, and
  nothing decrypts that was not encrypted under the key.
\<close>

locale paseto_package =
  fixes lib :: paseto and key :: string
  assumes decrypt_encrypt: "pas_encrypt lib key p n = Some t \<Longrightarrow> pas_decrypt lib key t = Some p"
    and decrypt_authentic: "pas_decrypt lib key t = Some p \<Longrightarrow> \<exists>n. pas_encrypt lib key p n = Some t"
begin

definition mk :: PasetoMaker where
  "mk = \<lparr>pm_paseto = lib, pm_symmetricKey = key\<rparr>"

definition made :: "string \<Rightarrow> Payload \<Rightarrow> bool" where
  "made t p \<longleftrightarrow> (\<exists>n. pas_encrypt lib key p n = Some t)"

lemma decrypt_made: "made t p \<Longrightarrow> pas_decrypt lib key t = Some p"
  by (auto simp: made_def decrypt_encrypt)

end

sublocale paseto_package \<subseteq> maker: token_maker "CreateToken mk" "VerifyToken mk" made
proof unfold_locales
  fix u r d e t p e'
  assume "CreateToken mk u r d e = (Inr (t, p), e')"
  then show "made t p \<and> pay_Username p = u \<and> pay_Role p = r \<and>
      pay_ExpiredAt p = e_clock e (Suc (e_ticks e)) + d"
    by (auto simp: CreateToken_def NewPayload_def mk_def made_def draw_def time_now_def
        split: prod.splits sum.splits option.splits)
next
  fix t p e
  assume m: "made t p" and f: "fst (time_now e) \<le> pay_ExpiredAt p"
  then show "VerifyToken mk t e = (Inr p, snd (time_now e))"
    by (cases "time_now e") (simp add: VerifyToken_def mk_def decrypt_made Valid_def)
next
  fix t p e
  assume m: "made t p" and f: "pay_ExpiredAt p < fst (time_now e)"
  then show "fst (VerifyToken mk t e) = Inl ErrExpiredToken"
    by (cases "time_now e") (simp add: VerifyToken_def mk_def decrypt_made Valid_def)
next
  fix t e p e'
  assume "VerifyToken mk t e = (Inr p, e')"
  then have "pas_decrypt lib key t = Some p"
    by (auto simp: VerifyToken_def mk_def Valid_def split: option.splits prod.splits if_splits)
  then show "made t p" using decrypt_authentic by (simp add: made_def)
qed

context paseto_package
begin

lemma token_life:
  assumes "CreateToken mk u r d e = (Inr (t, p), e')"
  shows "fst (VerifyToken mk t f) =
      (if fst (time_now f) \<le> e_clock e (Suc (e_ticks e)) + d then Inr p else Inl ErrExpiredToken)"
    and "pay_Username p = u" and "pay_Role p = r"
  using maker.create_issues [OF assms] maker.verify_fresh [of t p f] maker.verify_stale [of t p f]
  by (auto split: if_splits)

lemma verified_made:
  assumes "VerifyToken mk t e = (Inr p, e')"
  shows "\<exists>n. pas_encrypt lib key p n = Some t" and "fst (time_now e) \<le> pay_ExpiredAt p"
proof -
  have m: "made t p" by (rule maker.verify_issued [OF assms])
  then show "\<exists>n. pas_encrypt lib key p n = Some t" by (simp add: made_def)
  from maker.verify_iff [OF m] assms show "fst (time_now e) \<le> pay_ExpiredAt p" by blast
qed

end

subsection \<open>A model of the encryption\<close>

text \<open>
  An ideal box: the token lists the key and the payload in a prefix-free form, and opens
  for its key only. It shows that the laws can hold and runs the handlers on data.
\<close>

definition put_str :: "string \<Rightarrow> string" where
  "put_str s = concat (map (\<lambda>c. [CHR ''.'', c]) s) @ ''|''"

fun get_str :: "string \<Rightarrow> (string \<times> string) option" where
  "get_str [] = None"
| "get_str [a] = (if a = CHR ''|'' then Some ([], []) else None)"
| "get_str (a # c # r) = (if a = CHR ''|'' then Some ([], c # r)
     else map_option (\<lambda>(s, r'). (c # s, r')) (get_str r))"

lemma get_put_str: "get_str (put_str s @ r) = Some (s, r)"
proof (induction s)
  case Nil
  then show ?case by (cases r) (simp_all add: put_str_def)
next
  case (Cons c s)
  then show ?case by (simp add: put_str_def)
qed

definition box :: "string \<Rightarrow> Payload \<Rightarrow> string" where
  "box key p = put_str key @ put_str (pay_ID p) @ put_str (pay_Username p) @
     put_str (pay_Role p) @ put_str (show_int (pay_IssuedAt p)) @
     put_str (show_int (pay_ExpiredAt p))"

definition unbox :: "string \<Rightarrow> (string \<times> Payload) option" where
  "unbox t = Option.bind (get_str t) (\<lambda>(key, t1). Option.bind (get_str t1) (\<lambda>(i, t2).
     Option.bind (get_str t2) (\<lambda>(u, t3). Option.bind (get_str t3) (\<lambda>(r, t4).
     Option.bind (get_str t4) (\<lambda>(a, t5). Option.bind (get_str t5) (\<lambda>(b, t6).
     Option.bind (read_int a) (\<lambda>x. Option.bind (read_int b) (\<lambda>y.
       Some (key, \<lparr>pay_ID = i, pay_Username = u, pay_Role = r, pay_IssuedAt = x,
         pay_ExpiredAt = y\<rparr>)))))))))"

lemma get_put_str_end: "get_str (put_str s) = Some (s, [])"
  using get_put_str [of s "[]"] by simp

lemma unbox_box: "unbox (box key p) = Some (key, p)"
  by (simp add: unbox_def box_def get_put_str get_put_str_end read_int_show)

definition sealed_paseto :: paseto where
  "sealed_paseto = \<lparr>
     pas_encrypt = (\<lambda>key p n. Some (box key p)),
     pas_decrypt = (\<lambda>key t. case unbox t of None \<Rightarrow> None
        | Some (k, p) \<Rightarrow> if k = key \<and> box k p = t then Some p else None),
     pas_uuid = (\<lambda>n. Some (show_nat n))\<rparr>"

interpretation sealed: paseto_package sealed_paseto key for key
  by unfold_locales (auto simp: sealed_paseto_def unbox_box split: option.splits if_splits)

end
