(* ===== verification/Redis.thy ===== *)
theory Redis
  imports Go_Text Go_Float
begin

section \<open>The key-value store (redis/redis.go)\<close>

text \<open>
  \<open>RedisStore\<close> wraps the client of go-redis, a parameter here: a \<open>redis_client\<close> gives
  for each command its reply (a value or an error) and the new state of the server. The
  interface \<open>Store\<close> of the source is the record \<open>kv_store\<close>; \<open>NewRedisStore\<close> builds one
  from a client. The locale \<open>kv_contract\<close> is what the handlers rely on, and
  \<open>redis_package\<close> the documented behaviour of the commands, which gives it. Keys with an
  expiry may vanish between any two commands, so every law allows for that.
\<close>

subsection \<open>The client and the store\<close>

datatype kv_error = KvNil | KvFailed

record Z =
  z_score :: f64
  z_member :: string

record 'r redis_client =
  rc_Set :: "string \<Rightarrow> string \<Rightarrow> int \<Rightarrow> 'r \<Rightarrow> (kv_error, string) result \<times> 'r"
  rc_Get :: "string \<Rightarrow> 'r \<Rightarrow> (kv_error, string) result \<times> 'r"
  rc_Del :: "string \<Rightarrow> 'r \<Rightarrow> (kv_error, int) result \<times> 'r"
  rc_Exists :: "string \<Rightarrow> 'r \<Rightarrow> (kv_error, int) result \<times> 'r"
  rc_ZRemRangeByScore :: "string \<Rightarrow> string \<Rightarrow> string \<Rightarrow> 'r \<Rightarrow> (kv_error, int) result \<times> 'r"
  rc_ZCard :: "string \<Rightarrow> 'r \<Rightarrow> (kv_error, int) result \<times> 'r"
  rc_ZAdd :: "string \<Rightarrow> Z list \<Rightarrow> 'r \<Rightarrow> (kv_error, int) result \<times> 'r"
  rc_ZRange :: "string \<Rightarrow> int \<Rightarrow> int \<Rightarrow> 'r \<Rightarrow> (kv_error, string list) result \<times> 'r"
  rc_Expire :: "string \<Rightarrow> int \<Rightarrow> 'r \<Rightarrow> (kv_error, bool) result \<times> 'r"

record 'r kv_store =
  kv_Set :: "string \<Rightarrow> string \<Rightarrow> int \<Rightarrow> 'r \<Rightarrow> kv_error option \<times> 'r"
  kv_Get :: "string \<Rightarrow> 'r \<Rightarrow> (kv_error, string) result \<times> 'r"
  kv_Del :: "string \<Rightarrow> 'r \<Rightarrow> kv_error option \<times> 'r"
  kv_Exists :: "string \<Rightarrow> 'r \<Rightarrow> (kv_error, int) result \<times> 'r"
  kv_ZRemRangeByScore :: "string \<Rightarrow> string \<Rightarrow> string \<Rightarrow> 'r \<Rightarrow> kv_error option \<times> 'r"
  kv_ZCard :: "string \<Rightarrow> 'r \<Rightarrow> (kv_error, int) result \<times> 'r"
  kv_ZAdd :: "string \<Rightarrow> Z list \<Rightarrow> 'r \<Rightarrow> kv_error option \<times> 'r"
  kv_ZRange :: "string \<Rightarrow> int \<Rightarrow> int \<Rightarrow> 'r \<Rightarrow> (kv_error, string list) result \<times> 'r"
  kv_Expire :: "string \<Rightarrow> int \<Rightarrow> 'r \<Rightarrow> kv_error option \<times> 'r"

text \<open>\<open>Cmd.Err()\<close>: the error of a reply.\<close>

definition Err :: "(kv_error, 'a) result \<times> 'r \<Rightarrow> kv_error option \<times> 'r" where
  "Err c = (case c of (Inl e, s) \<Rightarrow> (Some e, s) | (Inr v, s) \<Rightarrow> (None, s))"

definition RedisStore_Set :: "'r redis_client \<Rightarrow> string \<Rightarrow> string \<Rightarrow> int \<Rightarrow> 'r \<Rightarrow> kv_error option \<times> 'r" where
  "RedisStore_Set client key val expiration s = Err (rc_Set client key val expiration s)"

definition RedisStore_Get :: "'r redis_client \<Rightarrow> string \<Rightarrow> 'r \<Rightarrow> (kv_error, string) result \<times> 'r" where
  "RedisStore_Get client key s = rc_Get client key s"

definition RedisStore_Del :: "'r redis_client \<Rightarrow> string \<Rightarrow> 'r \<Rightarrow> kv_error option \<times> 'r" where
  "RedisStore_Del client key s = Err (rc_Del client key s)"

definition RedisStore_Exists :: "'r redis_client \<Rightarrow> string \<Rightarrow> 'r \<Rightarrow> (kv_error, int) result \<times> 'r" where
  "RedisStore_Exists client key s = rc_Exists client key s"

definition RedisStore_ZRemRangeByScore ::
    "'r redis_client \<Rightarrow> string \<Rightarrow> string \<Rightarrow> string \<Rightarrow> 'r \<Rightarrow> kv_error option \<times> 'r" where
  "RedisStore_ZRemRangeByScore client key lo hi s = Err (rc_ZRemRangeByScore client key lo hi s)"

definition RedisStore_ZCard :: "'r redis_client \<Rightarrow> string \<Rightarrow> 'r \<Rightarrow> (kv_error, int) result \<times> 'r" where
  "RedisStore_ZCard client key s = rc_ZCard client key s"

definition RedisStore_ZAdd :: "'r redis_client \<Rightarrow> string \<Rightarrow> Z list \<Rightarrow> 'r \<Rightarrow> kv_error option \<times> 'r" where
  "RedisStore_ZAdd client key members s = Err (rc_ZAdd client key members s)"

definition RedisStore_ZRange ::
    "'r redis_client \<Rightarrow> string \<Rightarrow> int \<Rightarrow> int \<Rightarrow> 'r \<Rightarrow> (kv_error, string list) result \<times> 'r" where
  "RedisStore_ZRange client key lo hi s = rc_ZRange client key lo hi s"

definition RedisStore_Expire :: "'r redis_client \<Rightarrow> string \<Rightarrow> int \<Rightarrow> 'r \<Rightarrow> kv_error option \<times> 'r" where
  "RedisStore_Expire client key windowSize s = Err (rc_Expire client key windowSize s)"

definition NewRedisStore :: "'r redis_client \<Rightarrow> 'r kv_store" where
  "NewRedisStore client = \<lparr>
     kv_Set = RedisStore_Set client, kv_Get = RedisStore_Get client,
     kv_Del = RedisStore_Del client, kv_Exists = RedisStore_Exists client,
     kv_ZRemRangeByScore = RedisStore_ZRemRangeByScore client,
     kv_ZCard = RedisStore_ZCard client, kv_ZAdd = RedisStore_ZAdd client,
     kv_ZRange = RedisStore_ZRange client, kv_Expire = RedisStore_Expire client\<rparr>"

lemmas RedisStore_defs = RedisStore_Set_def RedisStore_Get_def RedisStore_Del_def
  RedisStore_Exists_def RedisStore_ZRemRangeByScore_def RedisStore_ZCard_def
  RedisStore_ZAdd_def RedisStore_ZRange_def RedisStore_Expire_def NewRedisStore_def

lemma Err_None: "Err c = (None, s) \<longleftrightarrow> (\<exists>v. c = (Inr v, s))"
  by (cases c; cases "fst c") (auto simp: Err_def)

lemma Err_cases: "Err c = (r, s) \<Longrightarrow> \<exists>v. c = (v, s)"
  by (cases c; cases "fst c") (auto simp: Err_def)

subsection \<open>What the handlers rely on\<close>

text \<open>
  A state shows string values and sorted sets. \<open>fades\<close>: nothing but expiry happened.
\<close>

locale kv_view =
  fixes vals :: "'r \<Rightarrow> string \<Rightarrow> string option"
    and zs :: "'r \<Rightarrow> string \<Rightarrow> string \<Rightarrow> f64 option"
begin

definition val_fades :: "'r \<Rightarrow> 'r \<Rightarrow> string \<Rightarrow> bool" where
  "val_fades s s' k \<longleftrightarrow> vals s' k = vals s k \<or> vals s' k = None"

definition zs_fades :: "'r \<Rightarrow> 'r \<Rightarrow> string \<Rightarrow> bool" where
  "zs_fades s s' k \<longleftrightarrow> zs s' k = zs s k \<or> zs s' k = Map.empty"

definition fades :: "'r \<Rightarrow> 'r \<Rightarrow> bool" where
  "fades s s' \<longleftrightarrow> (\<forall>k. val_fades s s' k \<and> zs_fades s s' k)"

definition fades_but :: "string \<Rightarrow> 'r \<Rightarrow> 'r \<Rightarrow> bool" where
  "fades_but j s s' \<longleftrightarrow> (\<forall>k. k \<noteq> j \<longrightarrow> val_fades s s' k \<and> zs_fades s s' k)"

lemma fades_trans: "fades a b \<Longrightarrow> fades b c \<Longrightarrow> fades a c"
  unfolding fades_def val_fades_def zs_fades_def by metis

lemma fades_refl: "fades a a"
  by (simp add: fades_def val_fades_def zs_fades_def)

lemma fades_butI: "fades s s' \<Longrightarrow> fades_but j s s'"
  by (simp add: fades_def fades_but_def)

lemma fadesD: "fades s s' \<Longrightarrow> val_fades s s' k" "fades s s' \<Longrightarrow> zs_fades s s' k"
  by (simp_all add: fades_def)

lemma fades_None: "fades s s' \<Longrightarrow> vals s k = None \<Longrightarrow> vals s' k = None"
  using fadesD(1)[of s s' k] by (auto simp: val_fades_def)

lemma fades_but_None: "fades_but j s s' \<Longrightarrow> k \<noteq> j \<Longrightarrow> vals s k = None \<Longrightarrow> vals s' k = None"
  by (auto simp: fades_but_def val_fades_def)

lemma fades_Some: "fades s s' \<Longrightarrow> vals s' k = Some v \<Longrightarrow> vals s k = Some v"
  using fadesD(1)[of s s' k] by (auto simp: val_fades_def)

lemma fades_but_Some: "fades_but j s s' \<Longrightarrow> k \<noteq> j \<Longrightarrow> vals s' k = Some v \<Longrightarrow> vals s k = Some v"
  by (auto simp: fades_but_def val_fades_def)

end

locale kv_contract = kv_view vals zs
  for vals :: "'r \<Rightarrow> string \<Rightarrow> string option"
    and zs :: "'r \<Rightarrow> string \<Rightarrow> string \<Rightarrow> f64 option" +
  fixes kv :: "'r kv_store"
  assumes set_ok: "0 < d \<Longrightarrow> kv_Set kv k v d s = (None, s') \<Longrightarrow> vals s' k = Some v"
    and set_any: "kv_Set kv k v d s = (r, s') \<Longrightarrow>
      fades_but k s s' \<and> (val_fades s s' k \<or> vals s' k = Some v)"
    and get_ok: "kv_Get kv k s = (Inr v, s') \<Longrightarrow> vals s' k = Some v"
    and get_any: "kv_Get kv k s = (rv, s') \<Longrightarrow> fades s s'"
    and del_ok: "kv_Del kv k s = (None, s') \<Longrightarrow> vals s' k = None \<and> zs s' k = Map.empty"
    and del_any: "kv_Del kv k s = (r, s') \<Longrightarrow> fades s s'"
    and exists_ok: "kv_Exists kv k s = (Inr n, s') \<Longrightarrow>
      0 < n \<longleftrightarrow> vals s' k \<noteq> None \<or> zs s' k \<noteq> Map.empty"
    and exists_any: "kv_Exists kv k s = (ri, s') \<Longrightarrow> fades s s'"
    and zrem_ok: "kv_ZRemRangeByScore kv k ''0'' (show_int w) s = (None, s') \<Longrightarrow>
      zs s' k = Map.empty \<or>
      zs s' k = zs s k |` {m. \<forall>x. zs s k m = Some x \<longrightarrow>
        \<not> (f64_le (f64_of_int 0) x \<and> f64_le x (f64_of_int w))}"
    and zrem_any: "kv_ZRemRangeByScore kv k ''0'' (show_int w) s = (r, s') \<Longrightarrow>
      fades_but k s s' \<and> val_fades s s' k \<and> zs s' k \<subseteq>\<^sub>m zs s k"
    and zcard_ok: "kv_ZCard kv k s = (Inr n, s') \<Longrightarrow> n = int (card (dom (zs s' k)))"
    and zcard_any: "kv_ZCard kv k s = (ri, s') \<Longrightarrow> fades s s'"
    and zadd_ok: "kv_ZAdd kv k [z] s = (None, s') \<Longrightarrow>
      zs s' k = (zs s k)(z_member z \<mapsto> z_score z) \<or> zs s' k = [z_member z \<mapsto> z_score z]"
    and zadd_any: "kv_ZAdd kv k [z] s = (r, s') \<Longrightarrow>
      fades_but k s s' \<and> val_fades s s' k \<and>
      (zs_fades s s' k \<or> zs s' k = (zs s k)(z_member z \<mapsto> z_score z) \<or>
       zs s' k = [z_member z \<mapsto> z_score z])"
    and zrange_ok: "kv_ZRange kv k 0 0 s = (Inr ms, s') \<Longrightarrow>
      (case ms of [] \<Rightarrow> zs s' k = Map.empty
       | m # ms' \<Rightarrow> ms' = [] \<and> (\<exists>x. zs s' k m = Some x))"
    and zrange_any: "kv_ZRange kv k 0 0 s = (rl, s') \<Longrightarrow> fades s s'"
    and expire_any: "0 < d \<Longrightarrow> kv_Expire kv k d s = (r, s') \<Longrightarrow> fades s s'"

subsection \<open>What is relied on of the client\<close>

locale redis_package = kv_view vals zs
  for vals :: "'r \<Rightarrow> string \<Rightarrow> string option"
    and zs :: "'r \<Rightarrow> string \<Rightarrow> string \<Rightarrow> f64 option" +
  fixes rc :: "'r redis_client"
  assumes rc_set_ok: "0 < d \<Longrightarrow> rc_Set rc k v d s = (Inr ok, s') \<Longrightarrow> vals s' k = Some v"
    and rc_set_any: "rc_Set rc k v d s = (rs, s') \<Longrightarrow>
      fades_but k s s' \<and> (val_fades s s' k \<or> vals s' k = Some v)"
    and rc_get_ok: "rc_Get rc k s = (Inr v, s') \<Longrightarrow> vals s' k = Some v"
    and rc_get_any: "rc_Get rc k s = (rs, s') \<Longrightarrow> fades s s'"
    and rc_del_ok: "rc_Del rc k s = (Inr n, s') \<Longrightarrow> vals s' k = None \<and> zs s' k = Map.empty"
    and rc_del_any: "rc_Del rc k s = (ri, s') \<Longrightarrow> fades s s'"
    and rc_exists_ok: "rc_Exists rc k s = (Inr n, s') \<Longrightarrow>
      0 < n \<longleftrightarrow> vals s' k \<noteq> None \<or> zs s' k \<noteq> Map.empty"
    and rc_exists_any: "rc_Exists rc k s = (ri, s') \<Longrightarrow> fades s s'"
    and rc_zrem_ok: "rc_ZRemRangeByScore rc k ''0'' (show_int w) s = (Inr n, s') \<Longrightarrow>
      zs s' k = Map.empty \<or>
      zs s' k = zs s k |` {m. \<forall>x. zs s k m = Some x \<longrightarrow>
        \<not> (f64_le (f64_of_int 0) x \<and> f64_le x (f64_of_int w))}"
    and rc_zrem_any: "rc_ZRemRangeByScore rc k ''0'' (show_int w) s = (ri, s') \<Longrightarrow>
      fades_but k s s' \<and> val_fades s s' k \<and> zs s' k \<subseteq>\<^sub>m zs s k"
    and rc_zcard_ok: "rc_ZCard rc k s = (Inr n, s') \<Longrightarrow> n = int (card (dom (zs s' k)))"
    and rc_zcard_any: "rc_ZCard rc k s = (ri, s') \<Longrightarrow> fades s s'"
    and rc_zadd_ok: "rc_ZAdd rc k [z] s = (Inr n, s') \<Longrightarrow>
      zs s' k = (zs s k)(z_member z \<mapsto> z_score z) \<or> zs s' k = [z_member z \<mapsto> z_score z]"
    and rc_zadd_any: "rc_ZAdd rc k [z] s = (ri, s') \<Longrightarrow>
      fades_but k s s' \<and> val_fades s s' k \<and>
      (zs_fades s s' k \<or> zs s' k = (zs s k)(z_member z \<mapsto> z_score z) \<or>
       zs s' k = [z_member z \<mapsto> z_score z])"
    and rc_zrange_ok: "rc_ZRange rc k 0 0 s = (Inr ms, s') \<Longrightarrow>
      (case ms of [] \<Rightarrow> zs s' k = Map.empty
       | m # ms' \<Rightarrow> ms' = [] \<and> (\<exists>x. zs s' k m = Some x))"
    and rc_zrange_any: "rc_ZRange rc k 0 0 s = (rl, s') \<Longrightarrow> fades s s'"
    and rc_expire_any: "0 < d \<Longrightarrow> rc_Expire rc k d s = (rb, s') \<Longrightarrow> fades s s'"

sublocale redis_package \<subseteq> kv_contract vals zs "NewRedisStore rc"
proof unfold_locales
  fix k v d s r s'
  assume "kv_Set (NewRedisStore rc) k v d s = (r, s')"
  then obtain n where "rc_Set rc k v d s = (n, s')"
    by (auto simp: RedisStore_defs dest!: Err_cases)
  then show "fades_but k s s' \<and> (val_fades s s' k \<or> vals s' k = Some v)"
    by (rule rc_set_any)
next
  fix k w s r s'
  assume "kv_ZRemRangeByScore (NewRedisStore rc) k ''0'' (show_int w) s = (r, s')"
  then obtain n where "rc_ZRemRangeByScore rc k ''0'' (show_int w) s = (n, s')"
    by (auto simp: RedisStore_defs dest!: Err_cases)
  then show "fades_but k s s' \<and> val_fades s s' k \<and> zs s' k \<subseteq>\<^sub>m zs s k"
    by (rule rc_zrem_any)
next
  fix k z s r s'
  assume "kv_ZAdd (NewRedisStore rc) k [z] s = (r, s')"
  then obtain n where "rc_ZAdd rc k [z] s = (n, s')"
    by (auto simp: RedisStore_defs dest!: Err_cases)
  then show "fades_but k s s' \<and> val_fades s s' k \<and>
      (zs_fades s s' k \<or> zs s' k = (zs s k)(z_member z \<mapsto> z_score z) \<or>
       zs s' k = [z_member z \<mapsto> z_score z])"
    by (rule rc_zadd_any)
qed (auto simp: RedisStore_defs Err_None
      intro: rc_set_ok rc_get_ok rc_del_any
      dest: Err_cases rc_get_any rc_del_ok rc_exists_ok rc_exists_any rc_zrem_ok
        rc_zcard_ok rc_zcard_any rc_zadd_ok rc_zrange_ok rc_zrange_any rc_expire_any)

subsection \<open>A server in memory\<close>

text \<open>
  A client on which the laws hold: values and sorted sets with their deadlines, the time of
  the server, and for every coming command how long it takes to arrive and whether it is
  refused.
\<close>

record mem_redis =
  mr_vals :: "string \<Rightarrow> (string \<times> int option) option"
  mr_zsets :: "string \<Rightarrow> ((string \<times> f64) list \<times> int option) option"
  mr_now :: int
  mr_plan :: "(nat \<times> bool) list"

definition live :: "int \<Rightarrow> ('a \<times> int option) option \<Rightarrow> 'a option" where
  "live now e = (case e of None \<Rightarrow> None
     | Some (v, None) \<Rightarrow> Some v
     | Some (v, Some t) \<Rightarrow> if now < t then Some v else None)"

definition mem_vals :: "mem_redis \<Rightarrow> string \<Rightarrow> string option" where
  "mem_vals s k = live (mr_now s) (mr_vals s k)"

definition mem_zset :: "mem_redis \<Rightarrow> string \<Rightarrow> (string \<times> f64) list" where
  "mem_zset s k = (case live (mr_now s) (mr_zsets s k) of None \<Rightarrow> [] | Some xs \<Rightarrow> xs)"

definition mem_zs :: "mem_redis \<Rightarrow> string \<Rightarrow> string \<Rightarrow> f64 option" where
  "mem_zs s k = map_of (mem_zset s k)"

definition mem_command ::
    "(mem_redis \<Rightarrow> 'a \<times> mem_redis) \<Rightarrow> mem_redis \<Rightarrow> (kv_error, 'a) result \<times> mem_redis" where
  "mem_command f s = (case mr_plan s of
       [] \<Rightarrow> (case f s of (v, s') \<Rightarrow> (Inr v, s'))
     | (d, refused) # ps \<Rightarrow>
         (let s1 = s\<lparr>mr_now := mr_now s + int d, mr_plan := ps\<rparr>
          in if refused then (Inl KvFailed, s1) else (case f s1 of (v, s') \<Rightarrow> (Inr v, s'))))"

fun lowest :: "(string \<times> f64) list \<Rightarrow> (string \<times> f64) option" where
  "lowest [] = None"
| "lowest ((m, x) # xs) = (case lowest xs of None \<Rightarrow> Some (m, x)
     | Some (m', y) \<Rightarrow> if f64_le x y then Some (m, x) else Some (m', y))"

definition mem_get :: "string \<Rightarrow> mem_redis \<Rightarrow> (kv_error, string) result \<times> mem_redis" where
  "mem_get k s = (case mem_command (\<lambda>s. (mem_vals s k, s)) s of
       (Inl e, s') \<Rightarrow> (Inl e, s')
     | (Inr None, s') \<Rightarrow> (Inl KvNil, s')
     | (Inr (Some v), s') \<Rightarrow> (Inr v, s'))"

definition mem_deadline :: "int \<Rightarrow> mem_redis \<Rightarrow> int option" where
  "mem_deadline d s = (if 0 < d then Some (mr_now s + d) else None)"

definition mem_drop :: "(string \<times> f64) list \<Rightarrow> string \<Rightarrow> string \<Rightarrow> (string \<times> f64) list" where
  "mem_drop xs lo hi = (case (read_int lo, read_int hi) of
       (Some a, Some b) \<Rightarrow> filter (\<lambda>(m, _). case map_of xs m of None \<Rightarrow> True
          | Some y \<Rightarrow> \<not> (f64_le (f64_of_int a) y \<and> f64_le y (f64_of_int b))) xs
     | _ \<Rightarrow> xs)"

definition mem_redis_client :: "mem_redis redis_client" where
  "mem_redis_client = \<lparr>
     rc_Set = (\<lambda>k v d. mem_command (\<lambda>s. (''OK'', s\<lparr>
        mr_vals := (mr_vals s)(k \<mapsto> (v, mem_deadline d s)),
        mr_zsets := (mr_zsets s)(k := None)\<rparr>))),
     rc_Get = mem_get,
     rc_Del = (\<lambda>k. mem_command (\<lambda>s.
        (if mem_vals s k \<noteq> None \<or> mem_zset s k \<noteq> [] then 1 else 0,
         s\<lparr>mr_vals := (mr_vals s)(k := None), mr_zsets := (mr_zsets s)(k := None)\<rparr>))),
     rc_Exists = (\<lambda>k. mem_command (\<lambda>s.
        (if mem_vals s k \<noteq> None \<or> mem_zset s k \<noteq> [] then 1 else 0, s))),
     rc_ZRemRangeByScore = (\<lambda>k lo hi. mem_command (\<lambda>s.
        case live (mr_now s) (mr_zsets s k) of
          None \<Rightarrow> (0, s)
        | Some xs \<Rightarrow> (int (length xs) - int (length (mem_drop xs lo hi)),
            s\<lparr>mr_zsets := (mr_zsets s)(k :=
               map_option (\<lambda>(_, t). (mem_drop xs lo hi, t)) (mr_zsets s k))\<rparr>))),
     rc_ZCard = (\<lambda>k. mem_command (\<lambda>s. (int (length (remdups (map fst (mem_zset s k)))), s))),
     rc_ZAdd = (\<lambda>k zs. mem_command (\<lambda>s.
        case live (mr_now s) (mr_zsets s k) of
          None \<Rightarrow> (int (length (remdups (map z_member zs))), s\<lparr>mr_zsets := (mr_zsets s)(k \<mapsto>
             (map (\<lambda>z. (z_member z, z_score z)) (rev zs), None))\<rparr>)
        | Some xs \<Rightarrow> (int (length (remdups (filter (\<lambda>m. m \<notin> fst ` set xs) (map z_member zs)))),
             s\<lparr>mr_zsets := (mr_zsets s)(k :=
             map_option (\<lambda>(_, t). (map (\<lambda>z. (z_member z, z_score z)) (rev zs) @ xs, t))
               (mr_zsets s k))\<rparr>))),
     rc_ZRange = (\<lambda>k lo hi. mem_command (\<lambda>s.
        (case lowest (mem_zset s k) of None \<Rightarrow> [] | Some (m, _) \<Rightarrow> [m], s))),
     rc_Expire = (\<lambda>k d. mem_command (\<lambda>s.
        (mem_vals s k \<noteq> None \<or> mem_zset s k \<noteq> [],
         s\<lparr>mr_vals := (mr_vals s)(k := map_option (\<lambda>v. (v, mem_deadline d s)) (mem_vals s k)),
           mr_zsets := (mr_zsets s)(k := map_option (\<lambda>v. (v, mem_deadline d s))
             (live (mr_now s) (mr_zsets s k)))\<rparr>)))\<rparr>"

interpretation mem_view: kv_view mem_vals mem_zs .

lemma live_later: "now \<le> now' \<Longrightarrow> live now' e = live now e \<or> live now' e = None"
  by (auto simp: live_def split: option.splits prod.splits)

lemma mem_commandE:
  assumes "mem_command f s = (r, s')"
  obtains (refused) e where "r = Inl e" "mem_view.fades s s'"
    | (served) v s1 where "r = Inr v" "mem_view.fades s s1" "f s1 = (v, s')"
proof -
  have tick: "mem_view.fades s (s\<lparr>mr_now := mr_now s + int d, mr_plan := ps\<rparr>)" for d ps
  proof -
    have "mem_vals (s\<lparr>mr_now := mr_now s + int d, mr_plan := ps\<rparr>) k = mem_vals s k
        \<or> mem_vals (s\<lparr>mr_now := mr_now s + int d, mr_plan := ps\<rparr>) k = None" for k
      using live_later [of "mr_now s" "mr_now s + int d" "mr_vals s k"] by (simp add: mem_vals_def)
    moreover have "mem_zs (s\<lparr>mr_now := mr_now s + int d, mr_plan := ps\<rparr>) k = mem_zs s k
        \<or> mem_zs (s\<lparr>mr_now := mr_now s + int d, mr_plan := ps\<rparr>) k = Map.empty" for k
      using live_later [of "mr_now s" "mr_now s + int d" "mr_zsets s k"]
      by (auto simp: mem_zs_def mem_zset_def)
    ultimately show ?thesis
      by (simp add: mem_view.fades_def mem_view.val_fades_def mem_view.zs_fades_def)
  qed
  show ?thesis
  proof (cases "mr_plan s")
    case Nil
    with assms obtain v where "f s = (v, s')" "r = Inr v"
      by (auto simp: mem_command_def split: prod.splits)
    then show ?thesis using served [OF _ mem_view.fades_refl] by blast
  next
    case (Cons p ps)
    obtain d b where p: "p = (d, b)" by (cases p)
    let ?s1 = "s\<lparr>mr_now := mr_now s + int d, mr_plan := ps\<rparr>"
    show ?thesis
    proof (cases b)
      case True
      with Cons p assms have "r = Inl KvFailed" "s' = ?s1" by (simp_all add: mem_command_def Let_def)
      then show ?thesis using refused tick by blast
    next
      case False
      with Cons p assms obtain v where "f ?s1 = (v, s')" "r = Inr v"
        by (auto simp: mem_command_def Let_def split: prod.splits)
      then show ?thesis using served [OF _ tick] by blast
    qed
  qed
qed

lemma lowest_None: "lowest xs = None \<longleftrightarrow> xs = []"
  by (induction xs rule: lowest.induct) (auto split: option.splits if_splits)

lemma lowest_in: "lowest xs = Some (m, x) \<Longrightarrow> (m, x) \<in> set xs"
  by (induction xs arbitrary: m x rule: lowest.induct) (auto split: option.splits if_splits)

lemma map_of_mem_drop:
  "map_of (mem_drop xs (show_int a) (show_int b)) =
     map_of xs |` {m. \<forall>x. map_of xs m = Some x \<longrightarrow>
       \<not> (f64_le (f64_of_int a) x \<and> f64_le x (f64_of_int b))}"
proof -
  have *: "map_of (filter (\<lambda>(m, _). P m) ys) = map_of ys |` {m. P m}" for P and ys :: "(string \<times> f64) list"
    by (induction ys) (auto simp: fun_eq_iff restrict_map_def)
  have "{m. \<forall>x. map_of xs m = Some x \<longrightarrow> \<not> (f64_le (f64_of_int a) x \<and> f64_le x (f64_of_int b))}
      = {m. case map_of xs m of None \<Rightarrow> True
          | Some y \<Rightarrow> \<not> (f64_le (f64_of_int a) y \<and> f64_le y (f64_of_int b))}"
    by (auto split: option.splits)
  then show ?thesis by (simp add: mem_drop_def text_simps *)
qed

lemma mem_command_reads:
  assumes "mem_command (\<lambda>s. (g s, s)) s = (r, s')"
  shows "mem_view.fades s s' \<and> (\<forall>v. r = Inr v \<longrightarrow> v = g s')"
  using assms by (cases rule: mem_commandE) auto

lemma mem_get_reads:
  assumes "mem_get k s = (r, s')"
  shows "mem_view.fades s s' \<and> (\<forall>v. r = Inr v \<longrightarrow> mem_vals s' k = Some v)"
proof -
  obtain q t where q: "mem_command (\<lambda>s. (mem_vals s k, s)) s = (q, t)" by fastforce
  with assms mem_command_reads [OF q] show ?thesis
    by (auto simp: mem_get_def split: sum.splits option.splits)
qed

text \<open>A command that writes touches one key only.\<close>

lemma mem_vals_write:
  "mem_vals (s\<lparr>mr_vals := (mr_vals s)(k := e)\<rparr>) j =
     (if j = k then live (mr_now s) e else mem_vals s j)"
  "mem_vals (s\<lparr>mr_zsets := z\<rparr>) j = mem_vals s j"
  by (simp_all add: mem_vals_def)

lemma mem_zs_write:
  "mem_zs (s\<lparr>mr_vals := w, mr_zsets := (mr_zsets s)(k := e)\<rparr>) j =
     (if j = k then map_of (case live (mr_now s) e of None \<Rightarrow> [] | Some xs \<Rightarrow> xs) else mem_zs s j)"
  "mem_zs (s\<lparr>mr_zsets := (mr_zsets s)(k := e)\<rparr>) j =
     (if j = k then map_of (case live (mr_now s) e of None \<Rightarrow> [] | Some xs \<Rightarrow> xs) else mem_zs s j)"
  by (simp_all add: mem_zs_def mem_zset_def)

lemmas mem_write = mem_vals_write mem_zs_write

lemma fades_but_writes:
  assumes "mem_view.fades s s1"
    and "\<And>j. j \<noteq> k \<Longrightarrow> mem_vals s' j = mem_vals s1 j \<and> mem_zs s' j = mem_zs s1 j"
  shows "mem_view.fades_but k s s'"
  using assms unfolding mem_view.fades_def mem_view.fades_but_def mem_view.val_fades_def
    mem_view.zs_fades_def by metis

lemma mem_set:
  assumes "rc_Set mem_redis_client k v d s = (rs, s')"
  shows "mem_view.fades_but k s s' \<and> (mem_view.val_fades s s' k \<or> mem_vals s' k = Some v)"
    and "0 < d \<Longrightarrow> rs = Inr ok \<Longrightarrow> mem_vals s' k = Some v"
proof -
  have c: "mem_command (\<lambda>s. (''OK'', s\<lparr>
        mr_vals := (mr_vals s)(k \<mapsto> (v, mem_deadline d s)),
        mr_zsets := (mr_zsets s)(k := None)\<rparr>)) s = (rs, s')"
    using assms by (simp add: mem_redis_client_def)
  have l: "live now (Some (v, mem_deadline d t)) = Some v" if "now = mr_now t" for now t
    using that by (simp add: live_def mem_deadline_def)
  show "mem_view.fades_but k s s' \<and> (mem_view.val_fades s s' k \<or> mem_vals s' k = Some v)"
    using c
  proof (cases rule: mem_commandE)
    case (refused e)
    then show ?thesis by (simp add: mem_view.fades_butI mem_view.fadesD)
  next
    case (served w s1)
    have "mem_view.fades_but k s s'"
      by (rule fades_but_writes [OF served(2)]) (use served(3) in \<open>auto simp: mem_write\<close>)
    with served(3) show ?thesis by (auto simp: mem_write l)
  qed
  show "mem_vals s' k = Some v" if "0 < d" "rs = Inr ok"
    using c that by (cases rule: mem_commandE) (auto simp: mem_write l)
qed

lemma mem_del:
  assumes "rc_Del mem_redis_client k s = (rs, s')"
  shows "mem_view.fades s s'"
    and "rs = Inr n \<Longrightarrow> mem_vals s' k = None \<and> mem_zs s' k = Map.empty"
proof -
  have c: "mem_command (\<lambda>s.
        (if mem_vals s k \<noteq> None \<or> mem_zset s k \<noteq> [] then 1 else 0,
         s\<lparr>mr_vals := (mr_vals s)(k := None), mr_zsets := (mr_zsets s)(k := None)\<rparr>)) s = (rs, s')"
    using assms by (simp add: mem_redis_client_def)
  show n: "mem_vals s' k = None \<and> mem_zs s' k = Map.empty" if "rs = Inr n" for n
    using c that by (cases rule: mem_commandE) (auto simp: mem_write live_def)
  show "mem_view.fades s s'"
    using c
  proof (cases rule: mem_commandE)
    case (served w s1)
    have "mem_view.fades_but k s s'"
      by (rule fades_but_writes [OF served(2)]) (use served(3) in \<open>auto simp: mem_write\<close>)
    with n [OF served(1)] show ?thesis
      unfolding mem_view.fades_def mem_view.fades_but_def mem_view.val_fades_def mem_view.zs_fades_def
      by metis
  qed simp
qed

lemma live_map: "live now (map_option (\<lambda>(v, t). (g v, t)) e) = map_option g (live now e)"
  by (auto simp: live_def split: option.splits prod.splits)

lemma mem_zs_live: "live (mr_now s) (mr_zsets s k) = Some xs \<Longrightarrow> mem_zs s k = map_of xs"
  "live (mr_now s) (mr_zsets s k) = None \<Longrightarrow> mem_zs s k = Map.empty"
  by (simp_all add: mem_zs_def mem_zset_def)

text \<open>A command that touches the sorted set of one key only.\<close>

lemma zset_command:
  assumes c: "mem_command f s = (rs, s')"
    and f: "\<And>s v s'. f s = (v, s') \<Longrightarrow> (\<forall>j. mem_vals s' j = mem_vals s j) \<and>
      (\<forall>j. j \<noteq> k \<longrightarrow> mem_zs s' j = mem_zs s j) \<and> P (mem_zs s k) (mem_zs s' k)"
  shows "mem_view.fades_but k s s' \<and> mem_view.val_fades s s' k \<and>
      (mem_view.zs_fades s s' k \<or> P (mem_zs s k) (mem_zs s' k) \<or> P Map.empty (mem_zs s' k))"
    and "rs = Inr n \<Longrightarrow> P (mem_zs s k) (mem_zs s' k) \<or> P Map.empty (mem_zs s' k)"
proof -
  have faded: "mem_zs s1 k = mem_zs s k \<or> mem_zs s1 k = Map.empty" if "mem_view.fades s s1" for s1
    using mem_view.fadesD(2) [OF that, of k] by (simp add: mem_view.zs_fades_def)
  show "mem_view.fades_but k s s' \<and> mem_view.val_fades s s' k \<and>
      (mem_view.zs_fades s s' k \<or> P (mem_zs s k) (mem_zs s' k) \<or> P Map.empty (mem_zs s' k))"
    using c
  proof (cases rule: mem_commandE)
    case (refused e)
    then show ?thesis by (simp add: mem_view.fades_butI mem_view.fadesD)
  next
    case (served w s1)
    note f1 = f [OF served(3)]
    have "mem_view.fades_but k s s'" using fades_but_writes [OF served(2)] f1 by blast
    moreover have "mem_view.val_fades s s' k"
      using mem_view.fadesD(1) [OF served(2)] f1 by (simp add: mem_view.val_fades_def)
    ultimately show ?thesis using faded [OF served(2)] f1 by metis
  qed
  show "P (mem_zs s k) (mem_zs s' k) \<or> P Map.empty (mem_zs s' k)" if "rs = Inr n"
    using c that
  proof (cases rule: mem_commandE)
    case (served w s1)
    from faded [OF served(2)] f [OF served(3)] show ?thesis by metis
  qed simp
qed

abbreviation outside :: "int \<Rightarrow> int \<Rightarrow> (string \<Rightarrow> f64 option) \<Rightarrow> string \<Rightarrow> f64 option" where
  "outside a b z \<equiv> z |` {m. \<forall>x. z m = Some x \<longrightarrow>
     \<not> (f64_le (f64_of_int a) x \<and> f64_le x (f64_of_int b))}"

lemma show_int_0: "show_int 0 = ''0''"
  by code_simp

lemma outside_le: "outside a b z \<subseteq>\<^sub>m z"
  by (auto simp: map_le_def dom_def restrict_map_def split: if_splits)

lemma mem_zrem:
  assumes "rc_ZRemRangeByScore mem_redis_client k (show_int a) (show_int b) s = (rs, s')"
  shows "mem_view.fades_but k s s' \<and> mem_view.val_fades s s' k \<and> mem_zs s' k \<subseteq>\<^sub>m mem_zs s k"
    and "rs = Inr n \<Longrightarrow> mem_zs s' k = Map.empty \<or> mem_zs s' k = outside a b (mem_zs s k)"
proof -
  let ?f = "\<lambda>s. case live (mr_now s) (mr_zsets s k) of
          None \<Rightarrow> (0, s)
        | Some xs \<Rightarrow> (int (length xs) - int (length (mem_drop xs (show_int a) (show_int b))),
            s\<lparr>mr_zsets := (mr_zsets s)(k :=
               map_option (\<lambda>(_, t). (mem_drop xs (show_int a) (show_int b), t)) (mr_zsets s k))\<rparr>)"
  have c: "mem_command ?f s = (rs, s')" using assms by (simp add: mem_redis_client_def)
  have f: "(\<forall>j. mem_vals s' j = mem_vals s j) \<and> (\<forall>j. j \<noteq> k \<longrightarrow> mem_zs s' j = mem_zs s j) \<and>
      mem_zs s' k = outside a b (mem_zs s k)" if "?f s = (v, s')" for s v s'
  proof (cases "live (mr_now s) (mr_zsets s k)")
    case None
    with that show ?thesis by (simp add: mem_zs_live(2))
  next
    case (Some xs)
    with that show ?thesis
      by (auto simp: mem_write mem_zs_live(1) [OF Some] live_map map_of_mem_drop)
  qed
  have "mem_view.fades_but k s s' \<and> mem_view.val_fades s s' k \<and>
      (mem_view.zs_fades s s' k \<or> mem_zs s' k = outside a b (mem_zs s k) \<or>
       mem_zs s' k = outside a b Map.empty)"
    by (rule zset_command(1) [where P = "\<lambda>z z'. z' = outside a b z", OF c]) (use f in blast)
  then show "mem_view.fades_but k s s' \<and> mem_view.val_fades s s' k \<and> mem_zs s' k \<subseteq>\<^sub>m mem_zs s k"
    using outside_le [where a = a and b = b and z = "mem_zs s k"] by (auto simp: mem_view.zs_fades_def)
  show "mem_zs s' k = Map.empty \<or> mem_zs s' k = outside a b (mem_zs s k)" if "rs = Inr n"
  proof -
    have "mem_zs s' k = outside a b (mem_zs s k) \<or> mem_zs s' k = outside a b Map.empty"
      by (rule zset_command(2) [where P = "\<lambda>z z'. z' = outside a b z", OF c _ that]) (use f in blast)
    then show ?thesis by auto
  qed
qed

lemma mem_zadd:
  assumes "rc_ZAdd mem_redis_client k [z] s = (rs, s')"
  shows "mem_view.fades_but k s s' \<and> mem_view.val_fades s s' k \<and>
      (mem_view.zs_fades s s' k \<or> mem_zs s' k = (mem_zs s k)(z_member z \<mapsto> z_score z) \<or>
       mem_zs s' k = [z_member z \<mapsto> z_score z])"
    and "rs = Inr n \<Longrightarrow>
      mem_zs s' k = (mem_zs s k)(z_member z \<mapsto> z_score z) \<or> mem_zs s' k = [z_member z \<mapsto> z_score z]"
proof -
  let ?f = "\<lambda>s. case live (mr_now s) (mr_zsets s k) of
          None \<Rightarrow> (int (length (remdups (map z_member [z]))), s\<lparr>mr_zsets := (mr_zsets s)(k \<mapsto>
             (map (\<lambda>z. (z_member z, z_score z)) (rev [z]), None))\<rparr>)
        | Some xs \<Rightarrow> (int (length (remdups (filter (\<lambda>m. m \<notin> fst ` set xs) (map z_member [z])))),
             s\<lparr>mr_zsets := (mr_zsets s)(k :=
             map_option (\<lambda>(_, t). (map (\<lambda>z. (z_member z, z_score z)) (rev [z]) @ xs, t))
               (mr_zsets s k))\<rparr>)"
  have c: "mem_command ?f s = (rs, s')"
    using assms unfolding mem_redis_client_def by (simp only: redis_client.simps)
  have f: "(\<forall>j. mem_vals s' j = mem_vals s j) \<and> (\<forall>j. j \<noteq> k \<longrightarrow> mem_zs s' j = mem_zs s j) \<and>
      mem_zs s' k = (mem_zs s k)(z_member z \<mapsto> z_score z)" if "?f s = (v, s')" for s v s'
  proof (cases "live (mr_now s) (mr_zsets s k)")
    case None
    with that show ?thesis by (auto simp: mem_write mem_zs_live(2) live_def)
  next
    case (Some xs)
    with that show ?thesis by (auto simp: mem_write mem_zs_live(1) [OF Some] live_map)
  qed
  let ?P = "\<lambda>y y'. y' = y(z_member z \<mapsto> z_score z)"
  show "mem_view.fades_but k s s' \<and> mem_view.val_fades s s' k \<and>
      (mem_view.zs_fades s s' k \<or> mem_zs s' k = (mem_zs s k)(z_member z \<mapsto> z_score z) \<or>
       mem_zs s' k = [z_member z \<mapsto> z_score z])"
    by (rule zset_command(1) [where P = ?P, OF c]) (use f in blast)
  show "mem_zs s' k = (mem_zs s k)(z_member z \<mapsto> z_score z) \<or> mem_zs s' k = [z_member z \<mapsto> z_score z]"
    if "rs = Inr n"
    by (rule zset_command(2) [where P = ?P, OF c _ that]) (use f in blast)
qed

lemma mem_expire:
  assumes "rc_Expire mem_redis_client k d s = (rs, s')" "0 < d"
  shows "mem_view.fades s s'"
proof -
  have "mem_command (\<lambda>s. (mem_vals s k \<noteq> None \<or> mem_zset s k \<noteq> [],
         s\<lparr>mr_vals := (mr_vals s)(k := map_option (\<lambda>v. (v, mem_deadline d s)) (mem_vals s k)),
           mr_zsets := (mr_zsets s)(k := map_option (\<lambda>v. (v, mem_deadline d s))
             (live (mr_now s) (mr_zsets s k)))\<rparr>)) s = (rs, s')"
    using assms by (simp add: mem_redis_client_def)
  then show ?thesis
  proof (cases rule: mem_commandE)
    case (served w s1)
    have l: "live now (map_option (\<lambda>v. (v, mem_deadline d s1)) e) = e" if "now = mr_now s1" for now e
      using that assms(2) by (cases e) (auto simp: live_def mem_deadline_def)
    have v: "mem_vals s' j = mem_vals s1 j" for j
      using served(3) l [OF refl, of "mem_vals s1 k"] by (cases "j = k") (auto simp: mem_write)
    have z: "mem_zs s' j = mem_zs s1 j" for j
      using served(3) l [OF refl, of "live (mr_now s1) (mr_zsets s1 k)"]
      by (auto simp: mem_write mem_zs_def mem_zset_def)
    from served(2) show ?thesis
      by (simp add: mem_view.fades_def mem_view.val_fades_def mem_view.zs_fades_def v z)
  qed simp
qed

lemma mem_zrange:
  assumes "rc_ZRange mem_redis_client k 0 0 s = (rs, s')"
  shows "mem_view.fades s s'"
    and "rs = Inr ms \<Longrightarrow> (case ms of [] \<Rightarrow> mem_zs s' k = Map.empty
       | m # ms' \<Rightarrow> ms' = [] \<and> (\<exists>x. mem_zs s' k m = Some x))"
proof -
  have c: "mem_command (\<lambda>s. (case lowest (mem_zset s k) of None \<Rightarrow> [] | Some (m, _) \<Rightarrow> [m], s)) s = (rs, s')"
    using assms by (simp add: mem_redis_client_def)
  show "mem_view.fades s s'" using mem_command_reads [OF c] by simp
  show "case ms of [] \<Rightarrow> mem_zs s' k = Map.empty
       | m # ms' \<Rightarrow> ms' = [] \<and> (\<exists>x. mem_zs s' k m = Some x)" if "rs = Inr ms"
  proof (cases "lowest (mem_zset s' k)")
    case None
    with mem_command_reads [OF c] that show ?thesis by (simp add: lowest_None mem_zs_def)
  next
    case (Some p)
    obtain m x where p: "p = (m, x)" by (cases p)
    from lowest_in Some p have "m \<in> fst ` set (mem_zset s' k)" by force
    then have "\<exists>x. mem_zs s' k m = Some x"
      unfolding mem_zs_def by (metis domD dom_map_of_conv_image_fst)
    with mem_command_reads [OF c] that Some p show ?thesis by simp
  qed
qed

lemma mem_exists:
  assumes "rc_Exists mem_redis_client k s = (ri, s')"
  shows "mem_view.fades s s'"
    and "ri = Inr n \<Longrightarrow> 0 < n \<longleftrightarrow> mem_vals s' k \<noteq> None \<or> mem_zs s' k \<noteq> Map.empty"
proof -
  have c: "mem_command (\<lambda>s. (if mem_vals s k \<noteq> None \<or> mem_zset s k \<noteq> [] then 1 else 0, s)) s = (ri, s')"
    using assms by (simp add: mem_redis_client_def)
  show "mem_view.fades s s'" using mem_command_reads [OF c] by simp
  show "0 < n \<longleftrightarrow> mem_vals s' k \<noteq> None \<or> mem_zs s' k \<noteq> Map.empty" if "ri = Inr n"
    using mem_command_reads [OF c] that by (auto simp: mem_zs_def)
qed

lemma mem_zcard:
  assumes "rc_ZCard mem_redis_client k s = (ri, s')"
  shows "mem_view.fades s s'" and "ri = Inr n \<Longrightarrow> n = int (card (dom (mem_zs s' k)))"
proof -
  have c: "mem_command (\<lambda>s. (int (length (remdups (map fst (mem_zset s k)))), s)) s = (ri, s')"
    using assms by (simp add: mem_redis_client_def)
  show "mem_view.fades s s'" using mem_command_reads [OF c] by simp
  show "n = int (card (dom (mem_zs s' k)))" if "ri = Inr n"
    using mem_command_reads [OF c] that
    by (simp add: mem_zs_def dom_map_of_conv_image_fst length_remdups_card_conv)
qed

lemma mem_get:
  assumes "rc_Get mem_redis_client k s = (rs, s')"
  shows "mem_view.fades s s'" and "rs = Inr v \<Longrightarrow> mem_vals s' k = Some v"
  using assms mem_get_reads [of k s rs s'] by (simp_all add: mem_redis_client_def)

interpretation mem: redis_package mem_vals mem_zs mem_redis_client
proof unfold_locales
  show "mem_zs s' k = Map.empty \<or> mem_zs s' k = outside 0 w (mem_zs s k)"
    if "rc_ZRemRangeByScore mem_redis_client k ''0'' (show_int w) s = (Inr n, s')" for k w s n s'
    by (rule mem_zrem(2) [where rs = "Inr n" and s = s, OF _ refl]) (use that in \<open>simp add: show_int_0\<close>)
  show "mem_view.fades_but k s s' \<and> mem_view.val_fades s s' k \<and> mem_zs s' k \<subseteq>\<^sub>m mem_zs s k"
    if "rc_ZRemRangeByScore mem_redis_client k ''0'' (show_int w) s = (ri, s')" for k w s ri s'
    by (rule mem_zrem(1) [where a = 0 and b = w]) (use that in \<open>simp add: show_int_0\<close>)
qed (fact mem_set mem_get mem_del mem_exists mem_zcard mem_zadd mem_zrange mem_expire
  | rule mem_set(2) [OF _ _ refl] mem_get(2) [OF _ refl] mem_del(2) [OF _ refl]
      mem_exists(2) [OF _ refl] mem_zcard(2) [OF _ refl] mem_zadd(2) [OF _ refl]
      mem_zrange(2) [OF _ refl] mem_expire; assumption)+

end
