(* ===== verification/Binding.thy ===== *)
theory Binding
  imports Util
begin

section \<open>Request bodies: JSON values, decoding and validation\<close>

text \<open>
  What \<open>encoding/json\<close> does with the structs of the API: a body is abstracted to the value
  it parses to, and the fields of a struct are read from it by name. Field validation is
  the package validator, a parameter: a \<open>validator\<close> has one predicate for each tag the
  source uses; the locale \<open>validator_package\<close> states the documented meaning of the tags.
\<close>

subsection \<open>Values and bodies\<close>

text \<open>\<open>JFrac\<close>: a number with a fraction or an exponent.\<close>

datatype json = JNull | JBool bool | JInt int | JFrac string | JString string
  | JArray "json list" | JObject "(string \<times> json) list"

text \<open>\<open>JsonTrailing\<close>: a value followed by something else.\<close>

datatype body = NoBody | BadJson | JsonBody json | JsonTrailing json

definition object_of :: "json \<Rightarrow> (string \<times> json) list option" where
  "object_of j = (case j of JObject fs \<Rightarrow> Some fs | JNull \<Rightarrow> Some [] | _ \<Rightarrow> None)"

text \<open>
  \<open>json.NewDecoder(body).Decode\<close> reads one value and ignores the rest of the body;
  \<open>json.Unmarshal\<close> wants the value to be all of it.
\<close>

definition Decode :: "body \<Rightarrow> (string \<times> json) list option" where
  "Decode b = (case b of JsonBody j \<Rightarrow> object_of j | JsonTrailing j \<Rightarrow> object_of j | _ \<Rightarrow> None)"

definition Unmarshal :: "body \<Rightarrow> (string \<times> json) list option" where
  "Unmarshal b = (case b of JsonBody j \<Rightarrow> object_of j | _ \<Rightarrow> None)"

lemma Unmarshal_Decode: "Unmarshal b = Some fs \<Longrightarrow> Decode b = Some fs"
  by (auto simp: Unmarshal_def Decode_def split: body.splits)

subsection \<open>Fields\<close>

text \<open>
  Names match up to case; two letters outside ASCII, the long s and the Kelvin sign,
  fold to ASCII ones.
\<close>

fun fold_name :: "string \<Rightarrow> string" where
  "fold_name (a # b # c # r) =
     (if a = CHR 0xC5 \<and> b = CHR 0xBF then CHR ''s'' # fold_name (c # r)
      else if a = CHR 0xE2 \<and> b = CHR 0x84 \<and> c = CHR 0xAA then CHR ''k'' # fold_name r
      else lower_char a # fold_name (b # c # r))"
| "fold_name [a, b] =
     (if a = CHR 0xC5 \<and> b = CHR 0xBF then ''s'' else [lower_char a, lower_char b])"
| "fold_name [a] = [lower_char a]"
| "fold_name [] = []"

definition names :: "string \<Rightarrow> string \<Rightarrow> bool" where
  "names field key \<longleftrightarrow> key = field \<or> fold_name key = fold_name field"

text \<open>
  A field starts at the zero value; a repeated field is set again, \<open>null\<close> leaves a string
  or a number and clears a pointer, and a value of another type is an error (\<open>None\<close>).
\<close>

fun string_field :: "string \<Rightarrow> string \<Rightarrow> (string \<times> json) list \<Rightarrow> string option" where
  "string_field name acc [] = Some acc"
| "string_field name acc ((k, v) # fs) =
     (if \<not> names name k then string_field name acc fs
      else case v of JString s \<Rightarrow> string_field name s fs
           | JNull \<Rightarrow> string_field name acc fs
           | _ \<Rightarrow> None)"

fun int64_field :: "string \<Rightarrow> int \<Rightarrow> (string \<times> json) list \<Rightarrow> int option" where
  "int64_field name acc [] = Some acc"
| "int64_field name acc ((k, v) # fs) =
     (if \<not> names name k then int64_field name acc fs
      else case v of JInt i \<Rightarrow> if i64 i then int64_field name i fs else None
           | JNull \<Rightarrow> int64_field name acc fs
           | _ \<Rightarrow> None)"

fun ptr_field :: "string \<Rightarrow> string option \<Rightarrow> (string \<times> json) list \<Rightarrow> string option option" where
  "ptr_field name acc [] = Some acc"
| "ptr_field name acc ((k, v) # fs) =
     (if \<not> names name k then ptr_field name acc fs
      else case v of JString s \<Rightarrow> ptr_field name (Some s) fs
           | JNull \<Rightarrow> ptr_field name None fs
           | _ \<Rightarrow> None)"

lemma int64_field_fits: "int64_field name acc fs = Some i \<Longrightarrow> i64 acc \<Longrightarrow> i64 i"
  by (induction name acc fs rule: int64_field.induct) (auto split: if_splits json.splits)

text \<open>Only the fields of that name matter.\<close>

lemma string_field_filter:
  "string_field name acc fs = string_field name acc (filter (\<lambda>(k, _). names name k) fs)"
  by (induction name acc fs rule: string_field.induct) (auto split: json.split)

lemma int64_field_filter:
  "int64_field name acc fs = int64_field name acc (filter (\<lambda>(k, _). names name k) fs)"
  by (induction name acc fs rule: int64_field.induct) (auto split: json.split)

lemma ptr_field_filter:
  "ptr_field name acc fs = ptr_field name acc (filter (\<lambda>(k, _). names name k) fs)"
  by (induction name acc fs rule: ptr_field.induct) (auto split: json.split)

subsection \<open>Validation tags\<close>

datatype field_value = VString string | VInt int

record validator =
  v_required :: "field_value \<Rightarrow> bool"
  v_min :: "int \<Rightarrow> field_value \<Rightarrow> bool"
  v_max :: "int \<Rightarrow> field_value \<Rightarrow> bool"
  v_gt :: "int \<Rightarrow> field_value \<Rightarrow> bool"
  v_alphanum :: "string \<Rightarrow> bool"
  v_email :: "string \<Rightarrow> bool"
  v_numeric :: "string \<Rightarrow> bool"

text \<open>Runes of a string in UTF-8: the bytes that do not continue one.\<close>

definition rune_count :: "string \<Rightarrow> nat" where
  "rune_count s =
     length (filter (\<lambda>c. (of_char c :: nat) < 128 \<or> 192 \<le> (of_char c :: nat)) s)"

definition is_alnum :: "char \<Rightarrow> bool" where
  "is_alnum c \<longleftrightarrow> is_digit c \<or> is_upper c \<or> is_lower c"

locale validator_package =
  fixes v :: validator
  assumes required_string: "v_required v (VString s) \<longleftrightarrow> s \<noteq> []"
    and required_int: "v_required v (VInt i) \<longleftrightarrow> i \<noteq> 0"
    and min_string: "v_min v k (VString s) \<longleftrightarrow> k \<le> int (rune_count s)"
    and min_int: "v_min v k (VInt i) \<longleftrightarrow> k \<le> i"
    and max_string: "v_max v k (VString s) \<longleftrightarrow> int (rune_count s) \<le> k"
    and max_int: "v_max v k (VInt i) \<longleftrightarrow> i \<le> k"
    and gt_int: "v_gt v k (VInt i) \<longleftrightarrow> k < i"
    and alphanum: "v_alphanum v s \<longleftrightarrow> s \<noteq> [] \<and> list_all is_alnum s"
begin

lemmas tags = required_string required_int min_string min_int max_string max_int gt_int

end

text \<open>A validator with this meaning of the tags.\<close>

definition plain_validator :: validator where
  "plain_validator = \<lparr>
     v_required = (\<lambda>f. case f of VString s \<Rightarrow> s \<noteq> [] | VInt i \<Rightarrow> i \<noteq> 0),
     v_min = (\<lambda>k f. case f of VString s \<Rightarrow> k \<le> int (rune_count s) | VInt i \<Rightarrow> k \<le> i),
     v_max = (\<lambda>k f. case f of VString s \<Rightarrow> int (rune_count s) \<le> k | VInt i \<Rightarrow> i \<le> k),
     v_gt = (\<lambda>k f. case f of VString s \<Rightarrow> k < int (rune_count s) | VInt i \<Rightarrow> k < i),
     v_alphanum = (\<lambda>s. s \<noteq> [] \<and> list_all is_alnum s),
     v_email = (\<lambda>s. CHR ''@'' \<in> set s),
     v_numeric = (\<lambda>s. s \<noteq> [] \<and> list_all is_digit s)\<rparr>"

interpretation plain_tags: validator_package plain_validator
  by unfold_locales (simp_all add: plain_validator_def)

text \<open>The custom tag \<open>currency\<close> (api/validator.go).\<close>

definition validCurrency :: "field_value \<Rightarrow> bool" where
  "validCurrency f = (case f of VString currency \<Rightarrow> IsSupportedCurrency currency | VInt _ \<Rightarrow> False)"

end
