(* ===== verification/Worker.thy ===== *)
theory Worker
  imports Binding Redis Store
begin

section \<open>Background tasks and mail (worker/, mail/)\<close>

text \<open>
  The task that sends an OTP: put on the queue by the API (\<open>RedisTaskDistributor\<close>) and run
  by \<open>RedisTaskProcessor\<close>. Parameters are the asynq client (a \<open>asynq_client\<close> over a queue
  state), the package gotp (\<open>gotp\<close>: the code of a secret at a time) and the mail packages
  behind \<open>GmailSender\<close>.
\<close>

subsection \<open>Distribution (worker/task\_send\_otp\_email.go, distributor.go)\<close>

datatype task_option = MaxRetry int | ProcessIn int | Queue string

definition QueueCritical :: string where "QueueCritical = ''critical''"

definition QueueDefault :: string where "QueueDefault = ''default''"

definition TaskSendVerifyEmail :: string where
  "TaskSendVerifyEmail = ''task:send_verify_email''"

record task =
  task_type :: string
  task_payload :: body
  task_options :: "task_option list"

record PayloadSendVerifyEmail =
  psv_Username :: string

text \<open>\<open>json.Marshal\<close> of the payload, a struct of one string: it does not fail.\<close>

definition marshal_payload :: "PayloadSendVerifyEmail \<Rightarrow> body" where
  "marshal_payload payload = JsonBody (JObject [(''username'', JString (psv_Username payload))])"

record 'q asynq_client =
  aq_Enqueue :: "task \<Rightarrow> 'q \<Rightarrow> bool \<times> 'q"

datatype task_error = EnqueueFailed

definition DistributeTaskSendVerifyEmail ::
    "'q asynq_client \<Rightarrow> PayloadSendVerifyEmail \<Rightarrow> task_option list \<Rightarrow> 'q \<Rightarrow> task_error option \<times> 'q" where
  "DistributeTaskSendVerifyEmail client payload opts q =
     (let task = \<lparr>task_type = TaskSendVerifyEmail, task_payload = marshal_payload payload,
                  task_options = opts\<rparr>
      in case aq_Enqueue client task q of (ok, q') \<Rightarrow>
           (if ok then None else Some EnqueueFailed, q'))"

subsection \<open>One-time codes\<close>

record gotp =
  gt_At :: "string \<Rightarrow> nat \<Rightarrow> int \<Rightarrow> int \<Rightarrow> string"
  gt_VerifyTime :: "string \<Rightarrow> nat \<Rightarrow> int \<Rightarrow> string \<Rightarrow> int \<Rightarrow> bool"

definition Unix :: "int \<Rightarrow> int" where
  "Unix t = t div 1000000000"

text \<open>
  A code is checked against the code of its time, and the codes change only from one
  interval to the next, counted from the epoch.
\<close>

locale gotp_package =
  fixes g :: gotp
  assumes verify_at: "gt_VerifyTime g secret digits interval otp t \<longleftrightarrow> otp = gt_At g secret digits interval t"
    and same_step: "0 < interval \<Longrightarrow> t div interval = t' div interval \<Longrightarrow>
      gt_At g secret digits interval t = gt_At g secret digits interval t'"
begin

lemma verify_in_step:
  "0 < i \<Longrightarrow> t div i = t' div i \<Longrightarrow> gt_VerifyTime g s n i (gt_At g s n i t) t'"
  using verify_at same_step by blast

end

definition pad_left :: "nat \<Rightarrow> string \<Rightarrow> string" where
  "pad_left n s = replicate (n - length s) (CHR ''0'') @ s"

text \<open>A model of the codes for runs on data: the number of the interval, six digits.\<close>

definition step_gotp :: gotp where
  "step_gotp = \<lparr>
     gt_At = (\<lambda>secret n i t. pad_left n (show_nat (nat (t div i) mod 10 ^ n))),
     gt_VerifyTime = (\<lambda>secret n i otp t. otp = pad_left n (show_nat (nat (t div i) mod 10 ^ n)))\<rparr>"

interpretation steps: gotp_package step_gotp
  by unfold_locales (simp_all add: step_gotp_def)

subsection \<open>Mail (mail/gmail.go)\<close>

record email =
  em_From :: string
  em_Subject :: string
  em_HTML :: string
  em_To :: "string list"
  em_Attachments :: "string list"

datatype mail_error = AttachFailed string | SendFailed

text \<open>The package email: it may fail to read a file and to send.\<close>

record 'm smtp =
  sm_AttachFile :: "string \<Rightarrow> string option"
  sm_Send :: "string \<Rightarrow> string \<Rightarrow> string \<Rightarrow> email \<Rightarrow> 'm \<Rightarrow> bool \<times> 'm"

record GmailSender =
  gs_name :: string
  gs_fromEmailAddress :: string
  gs_fromEmailPassword :: string

definition smtpServerAddress :: string where
  "smtpServerAddress = ''smtp.gmail.com:587''"

definition NewGmailSender :: "string \<Rightarrow> string \<Rightarrow> string \<Rightarrow> GmailSender" where
  "NewGmailSender name fromEmailAddress fromEmailPassword =
     \<lparr>gs_name = name, gs_fromEmailAddress = fromEmailAddress, gs_fromEmailPassword = fromEmailPassword\<rparr>"

fun attach_files :: "(string \<Rightarrow> string option) \<Rightarrow> string list \<Rightarrow> email \<Rightarrow> (mail_error, email) result" where
  "attach_files attach [] e = Inr e"
| "attach_files attach (f # fs) e =
     (case attach f of None \<Rightarrow> Inl (AttachFailed f)
      | Some content \<Rightarrow> attach_files attach fs (e\<lparr>em_Attachments := em_Attachments e @ [content]\<rparr>))"

definition SendEmail ::
    "'m smtp \<Rightarrow> GmailSender \<Rightarrow> string \<Rightarrow> string \<Rightarrow> string list \<Rightarrow> string list \<Rightarrow> 'm \<Rightarrow>
      mail_error option \<times> 'm" where
  "SendEmail lib sender subject content to attachFiles m =
     (let e = \<lparr>em_From = gs_name sender @ '' <'' @ gs_fromEmailAddress sender @ ''>'',
               em_Subject = subject, em_HTML = content, em_To = to, em_Attachments = []\<rparr>
      in case attach_files (sm_AttachFile lib) attachFiles e of
           Inl err \<Rightarrow> (Some err, m)
         | Inr e' \<Rightarrow>
             (case sm_Send lib smtpServerAddress (gs_fromEmailAddress sender)
                     (gs_fromEmailPassword sender) e' m of
                (ok, m') \<Rightarrow> (if ok then None else Some SendFailed, m')))"

text \<open>The interface \<open>EmailSender\<close>.\<close>

type_synonym 'm mailer =
  "string \<Rightarrow> string \<Rightarrow> string list \<Rightarrow> string list \<Rightarrow> 'm \<Rightarrow> mail_error option \<times> 'm"

lemma attach_files_Inr:
  "attach_files attach fs e = Inr e' \<Longrightarrow>
    e' = e\<lparr>em_Attachments := em_Attachments e @ map (the \<circ> attach) fs\<rparr> \<and> (\<forall>f\<in>set fs. attach f \<noteq> None)"
  by (induction attach fs e rule: attach_files.induct) (auto split: option.splits)

lemma attach_files_Inl: "attach_files attach fs e = Inl x \<Longrightarrow> \<exists>f. x = AttachFailed f"
  by (induction attach fs e rule: attach_files.induct) (auto split: option.splits)

lemma SendEmail_unsent:
  assumes "\<exists>f\<in>set fs. sm_AttachFile lib f = None"
  shows "\<exists>f. SendEmail lib sender subject content to fs m = (Some (AttachFailed f), m)"
proof -
  let ?e = "\<lparr>em_From = gs_name sender @ '' <'' @ gs_fromEmailAddress sender @ ''>'',
    em_Subject = subject, em_HTML = content, em_To = to, em_Attachments = []\<rparr>"
  from assms obtain x where "attach_files (sm_AttachFile lib) fs ?e = Inl x"
    using attach_files_Inr by (cases "attach_files (sm_AttachFile lib) fs ?e") fast+
  with attach_files_Inl [OF this] show ?thesis by (auto simp: SendEmail_def Let_def)
qed

subsection \<open>Processing (worker/task\_send\_otp\_email.go, processor.go)\<close>

text \<open>
  The asynq server of the processor is a parameter: what it is made from is data, and the
  commands \<open>Start\<close> (with the patterns of the mux) and \<open>Shutdown\<close> work on the state of its
  surroundings.
\<close>

record RedisClientOpt =
  ro_Addr :: string
  ro_DB :: int

record asynq_Server =
  as_redisOpt :: RedisClientOpt
  as_Queues :: "(string \<times> int) list"

record 'w asynq_package =
  aq_Start :: "asynq_Server \<Rightarrow> string list \<Rightarrow> 'w \<Rightarrow> bool \<times> 'w"
  aq_Shutdown :: "asynq_Server \<Rightarrow> 'w \<Rightarrow> 'w"

record ('r, 'm) TaskProcessor =
  tp_config :: Config
  tp_server :: asynq_Server
  tp_otpStore :: "'r kv_store"
  tp_mailer :: "'m mailer"
  tp_gotp :: gotp

record ('r, 'm) worker_state =
  ws_pool :: pool
  ws_kv :: 'r
  ws_mail :: 'm
  ws_env :: env

definition NewRedisTaskProcessor ::
    "gotp \<Rightarrow> Config \<Rightarrow> RedisClientOpt \<Rightarrow> 'r kv_store \<Rightarrow> 'm mailer \<Rightarrow> ('r, 'm) TaskProcessor" where
  "NewRedisTaskProcessor g conf redisOpt otpStore mailer =
     \<lparr>tp_config = conf,
      tp_server = \<lparr>as_redisOpt = redisOpt, as_Queues = [(QueueCritical, 10), (QueueDefault, 5)]\<rparr>,
      tp_otpStore = otpStore, tp_mailer = mailer, tp_gotp = g\<rparr>"

definition patterns :: "string list" where "patterns = [TaskSendVerifyEmail]"

definition Start :: "'w asynq_package \<Rightarrow> ('r, 'm) TaskProcessor \<Rightarrow> 'w \<Rightarrow> bool \<times> 'w" where
  "Start lib processor w = aq_Start lib (tp_server processor) patterns w"

definition Shutdown :: "'w asynq_package \<Rightarrow> ('r, 'm) TaskProcessor \<Rightarrow> 'w \<Rightarrow> 'w" where
  "Shutdown lib processor w = aq_Shutdown lib (tp_server processor) w"

datatype worker_error = SkipRetry | GetUserFailed db_error | SetOtpFailed kv_error
  | SendEmailFailed mail_error | NoHandler

abbreviation NL :: string where "NL \<equiv> [CHR 0x0A]"

abbreviation TAB :: string where "TAB \<equiv> [CHR 0x09]"

definition otp_content :: "string \<Rightarrow> int \<Rightarrow> string" where
  "otp_content otp seconds =
     NL @ TAB @ TAB @ ''<!DOCTYPE html>'' @
     NL @ TAB @ TAB @ ''<html lang=\"en\">'' @
     NL @ TAB @ TAB @ ''<head>'' @
     NL @ TAB @ TAB @ TAB @ ''<meta charset=\"UTF-8\">'' @
     NL @ TAB @ TAB @ TAB @
       ''<meta name=\"viewport\" content=\"width=device-width, initial-scale=1.0\">'' @
     NL @ TAB @ TAB @ TAB @ ''<title>OTP Code</title>'' @
     NL @ TAB @ TAB @ ''</head>'' @
     NL @ TAB @ TAB @ ''<body>'' @
     NL @ TAB @ TAB @ TAB @ ''<p>Your OTP is: <b>'' @ otp @ ''</b>. It will expire in <b>'' @
       show_int seconds @ ''</b> seconds.</p>'' @
     NL @ TAB @ TAB @ ''</body>'' @
     NL @ TAB @ TAB @ ''</html>''"

definition otp_key :: "string \<Rightarrow> string" where
  "otp_key username = ''otp:'' @ username"

definition ProcessTaskSendVerifyEmail ::
    "('r, 'm) TaskProcessor \<Rightarrow> task \<Rightarrow> ('r, 'm) worker_state \<Rightarrow>
      worker_error option \<times> ('r, 'm) worker_state" where
  "ProcessTaskSendVerifyEmail processor task w =
     (case Option.bind (Unmarshal (task_payload task)) (string_field ''username'' []) of
        None \<Rightarrow> (Some SkipRetry, w)
      | Some username \<Rightarrow>
      (case RandomBase32Secret 16 (ws_env w) of (secret, e1) \<Rightarrow>
      (case time_now e1 of (now, e2) \<Rightarrow>
       let interval = int_Seconds (APILimitDuration (tp_config processor));
           otp = gt_At (tp_gotp processor) secret 6 interval (Unix now);
           w = w\<lparr>ws_env := e2\<rparr>
       in case exec_auto (select (GetUser username)) (ws_pool w) of
         (Inl err, p) \<Rightarrow> (Some (GetUserFailed err), w\<lparr>ws_pool := p\<rparr>)
       | (Inr user, p) \<Rightarrow>
         (case kv_Set (tp_otpStore processor) (otp_key (usr_username user)) secret
                 (APILimitDuration (tp_config processor)) (ws_kv w) of
            (Some err, kv) \<Rightarrow> (Some (SetOtpFailed err), w\<lparr>ws_pool := p, ws_kv := kv\<rparr>)
          | (None, kv) \<Rightarrow>
            (case tp_mailer processor ''Transfer OTP'' (otp_content otp interval)
                    [usr_email user] [] (ws_mail w) of
               (Some err, m) \<Rightarrow>
                 (Some (SendEmailFailed err), w\<lparr>ws_pool := p, ws_kv := kv, ws_mail := m\<rparr>)
             | (None, m) \<Rightarrow> (None, w\<lparr>ws_pool := p, ws_kv := kv, ws_mail := m\<rparr>))))))"

text \<open>
  \<open>Start\<close> registers one handler. The mux of asynq gives it each task whose type begins
  with the pattern; for any other task no handler is found.
\<close>

definition handled :: "string \<Rightarrow> bool" where
  "handled type \<longleftrightarrow> list_ex (\<lambda>p. take (length p) type = p) patterns"

definition run_task ::
    "('r, 'm) TaskProcessor \<Rightarrow> task \<Rightarrow> ('r, 'm) worker_state \<Rightarrow>
      worker_error option \<times> ('r, 'm) worker_state" where
  "run_task processor task w =
     (if handled (task_type task) then ProcessTaskSendVerifyEmail processor task w
      else (Some NoHandler, w))"

lemma handled_own [simp]: "handled TaskSendVerifyEmail"
  by (simp add: handled_def patterns_def)

text \<open>What the processor reads is what the distributor wrote.\<close>

lemma task_roundtrip:
  "Option.bind (Unmarshal (marshal_payload p)) (string_field ''username'' []) = Some (psv_Username p)"
  by (simp add: marshal_payload_def Unmarshal_def object_of_def names_def)

end
