(* ===== verification/Gin.thy ===== *)
theory Gin
  imports Worker Token
begin

section \<open>Requests, responses and the handler chain\<close>

text \<open>
  What a handler sees and does. A \<open>ctx\<close> holds the request, the value the handlers share
  (\<open>authorization_payload\<close>), what has been written so far (the calls of \<open>ctx.JSON\<close>,
  \<open>ctx.Header\<close>, \<open>ctx.SetCookie\<close> and \<open>ctx.Redirect\<close> in order) and the state of the services
  behind the server: the database pool, the key-value store, the task queue, clock and
  random source. gin itself is modelled by what it documents of \<open>Next\<close>, \<open>Abort\<close> and
  the recovery from panics: \<open>run_chain\<close> and \<open>serve\<close>.
\<close>

subsection \<open>Errors and replies\<close>

datatype api_error = BindErr | DbErr db_error | TokErr token_error | KvErr kv_error
  | PwErr password_error | TaskErr task_error | HttpErr | Msg string

record userResponse =
  ur_Username :: string
  ur_FullName :: string
  ur_Email :: string
  ur_PasswordChangedAt :: int
  ur_CreatedAt :: int

record getUserResponse =
  gur_Username :: string
  gur_FullName :: string
  gur_Email :: string
  gur_PasswordChangedAt :: int
  gur_CreatedAt :: int
  gur_Accounts :: "account list"

record FieldViolation =
  fv_Field :: string
  fv_Description :: string

datatype reply = Error api_error | Message string | Status string
  | AccountReply account | AccountsReply "account list" | TransferReply TransferTxResult
  | UserReply userResponse | GetUserReply getUserResponse | Violations "FieldViolation list"
  | Redirected string | PlainText string | Empty

definition errorResponse :: "api_error \<Rightarrow> reply" where
  "errorResponse err = Error err"

subsection \<open>The context of a request\<close>

record request =
  rq_headers :: "string \<Rightarrow> string"
  rq_cookies :: "string \<Rightarrow> string option"
  rq_params :: "string \<Rightarrow> string"
  rq_query :: "string \<Rightarrow> string option"
  rq_ip :: string
  rq_body :: body

record cookie =
  ck_name :: string
  ck_value :: string
  ck_max_age :: int
  ck_path :: string
  ck_domain :: string
  ck_secure :: bool
  ck_http_only :: bool
  ck_lax :: bool

record ('r, 'q) ctx =
  c_request :: request
  c_body :: body
  c_payload :: "Payload option"
  c_csrf :: string
  c_aborted :: bool
  c_finished :: bool
  c_writes :: "(int \<times> reply) list"
  c_headers :: "(string \<times> string) list"
  c_cookies :: "cookie list"
  c_lax :: bool
  c_pool :: pool
  c_kv :: 'r
  c_queue :: 'q
  c_env :: env

datatype 'c outcome = Done 'c | Panicked 'c

type_synonym ('r, 'q) action = "('r, 'q) ctx \<Rightarrow> ('r, 'q) ctx outcome"

text \<open>A handler gets what \<open>ctx.Next()\<close> does: the rest of the chain.\<close>

type_synonym ('r, 'q) handler = "('r, 'q) action \<Rightarrow> ('r, 'q) action"

subsection \<open>Calls on the context\<close>

definition JSON :: "int \<Rightarrow> reply \<Rightarrow> ('r, 'q) ctx \<Rightarrow> ('r, 'q) ctx" where
  "JSON code obj c = c\<lparr>c_writes := c_writes c @ [(code, obj)]\<rparr>"

definition Redirect :: "int \<Rightarrow> string \<Rightarrow> ('r, 'q) ctx \<Rightarrow> ('r, 'q) ctx" where
  "Redirect code location c = c\<lparr>c_writes := c_writes c @ [(code, Redirected location)]\<rparr>"

definition Abort :: "('r, 'q) ctx \<Rightarrow> ('r, 'q) ctx" where
  "Abort c = c\<lparr>c_aborted := True\<rparr>"

definition AbortWithStatusJSON :: "int \<Rightarrow> reply \<Rightarrow> ('r, 'q) ctx \<Rightarrow> ('r, 'q) ctx" where
  "AbortWithStatusJSON code obj c = JSON code obj (Abort c)"

definition Header :: "string \<Rightarrow> string \<Rightarrow> ('r, 'q) ctx \<Rightarrow> ('r, 'q) ctx" where
  "Header k v c = c\<lparr>c_headers := c_headers c @ [(k, v)]\<rparr>"

definition SetSameSiteLax :: "('r, 'q) ctx \<Rightarrow> ('r, 'q) ctx" where
  "SetSameSiteLax c = c\<lparr>c_lax := True\<rparr>"

definition SetCookie ::
    "string \<Rightarrow> string \<Rightarrow> int \<Rightarrow> string \<Rightarrow> string \<Rightarrow> bool \<Rightarrow> bool \<Rightarrow> ('r, 'q) ctx \<Rightarrow> ('r, 'q) ctx" where
  "SetCookie name val max_age path domain secure http_only c = c\<lparr>c_cookies := c_cookies c @
     [\<lparr>ck_name = name, ck_value = val, ck_max_age = max_age, ck_path = path, ck_domain = domain,
       ck_secure = secure, ck_http_only = http_only, ck_lax = c_lax c\<rparr>]\<rparr>"

text \<open>Header names are compared without case.\<close>

definition GetHeader :: "('r, 'q) ctx \<Rightarrow> string \<Rightarrow> string" where
  "GetHeader c name = rq_headers (c_request c) (ToLower name)"

definition Cookie :: "('r, 'q) ctx \<Rightarrow> string \<Rightarrow> string option" where
  "Cookie c name = rq_cookies (c_request c) name"

definition ClientIP :: "('r, 'q) ctx \<Rightarrow> string" where
  "ClientIP c = rq_ip (c_request c)"

definition UserAgent :: "('r, 'q) ctx \<Rightarrow> string" where
  "UserAgent c = GetHeader c ''User-Agent''"

text \<open>Reading the body uses it up.\<close>

definition GetRawData :: "('r, 'q) ctx \<Rightarrow> body \<times> ('r, 'q) ctx" where
  "GetRawData c = (c_body c, c\<lparr>c_body := NoBody\<rparr>)"

definition ShouldBindJSON ::
    "((string \<times> json) list \<Rightarrow> 'a option) \<Rightarrow> ('a \<Rightarrow> bool) \<Rightarrow> ('r, 'q) ctx \<Rightarrow>
      (api_error, 'a) result \<times> ('r, 'q) ctx" where
  "ShouldBindJSON decode binding c =
     ((case Option.bind (Decode (c_body c)) decode of
         None \<Rightarrow> Inl BindErr
       | Some req \<Rightarrow> if binding req then Inr req else Inl BindErr),
      c\<lparr>c_body := NoBody\<rparr>)"

text \<open>The services behind the server.\<close>

definition store_call :: "'a op \<Rightarrow> ('r, 'q) ctx \<Rightarrow> (db_error, 'a) result \<times> ('r, 'q) ctx" where
  "store_call f c = (case f (c_pool c) of (r, p) \<Rightarrow> (r, c\<lparr>c_pool := p\<rparr>))"

definition kv_call :: "('r \<Rightarrow> 'a \<times> 'r) \<Rightarrow> ('r, 'q) ctx \<Rightarrow> 'a \<times> ('r, 'q) ctx" where
  "kv_call f c = (case f (c_kv c) of (r, s) \<Rightarrow> (r, c\<lparr>c_kv := s\<rparr>))"

definition queue_call :: "('q \<Rightarrow> 'a \<times> 'q) \<Rightarrow> ('r, 'q) ctx \<Rightarrow> 'a \<times> ('r, 'q) ctx" where
  "queue_call f c = (case f (c_queue c) of (r, q) \<Rightarrow> (r, c\<lparr>c_queue := q\<rparr>))"

definition env_call :: "(env \<Rightarrow> 'a \<times> env) \<Rightarrow> ('r, 'q) ctx \<Rightarrow> 'a \<times> ('r, 'q) ctx" where
  "env_call f c = (case f (c_env c) of (r, e) \<Rightarrow> (r, c\<lparr>c_env := e\<rparr>))"

subsection \<open>The server\<close>

text \<open>
  The packages the API calls: validator, bcrypt, gotp, the CSRF protection (it refuses a
  request with a reply or gives it a token), the address parser of \<open>net/mail\<close>, the format
  of a time, the HTTP client, the encoding of a query and the conversion of a
  floating point value that does not fit \<open>int64\<close>.
\<close>

text \<open>
  A request over HTTP: no response, or a status with the body, \<open>None\<close> if reading it failed.
\<close>

datatype http_result = NoResponse | Response int "body option"

record libs =
  lb_validator :: validator
  lb_bcrypt :: bcrypt
  lb_gotp :: gotp
  lb_csrf :: "request \<Rightarrow> (int \<times> reply, string) result"
  lb_ParseAddress :: "string \<Rightarrow> bool"
  lb_RFC3339 :: "int \<Rightarrow> string"
  lb_http :: "string \<Rightarrow> string \<Rightarrow> (string \<times> string) list \<Rightarrow> string \<Rightarrow> nat \<Rightarrow> http_result"
  lb_query :: "(string \<times> string) list \<Rightarrow> string"
  lb_oob :: "f64 \<Rightarrow> int"

record ('r, 'q) Server =
  sv_config :: Config
  sv_tokenMaker :: PasetoMaker
  sv_kvStore :: "'r kv_store"
  sv_asynq :: "'q asynq_client"
  sv_libs :: libs

subsection \<open>Running a chain\<close>

text \<open>
  gin runs the handlers in order; a handler that calls \<open>Next\<close> runs the rest inside, and
  after \<open>Abort\<close> no further handler starts. \<open>c_finished\<close> says that the end of the chain
  was reached inside the handler.
\<close>

fun run_chain :: "('r, 'q) handler list \<Rightarrow> ('r, 'q) action" where
  "run_chain [] c = Done (c\<lparr>c_finished := True\<rparr>)"
| "run_chain (h # hs) c =
     (if c_aborted c then Done c
      else case h (run_chain hs) c of
             Panicked c' \<Rightarrow> Panicked c'
           | Done c' \<Rightarrow> if c_finished c' then Done c' else run_chain hs c')"

text \<open>A handler that never calls \<open>Next\<close>.\<close>

definition plain :: "('r, 'q) action \<Rightarrow> ('r, 'q) handler" where
  "plain f next c = f c"

text \<open>The recovery of \<open>gin.Default()\<close>: a panic ends as a 500 when nothing was written.\<close>

definition serve :: "('r, 'q) handler list \<Rightarrow> ('r, 'q) ctx \<Rightarrow> ('r, 'q) ctx" where
  "serve hs c = (case run_chain hs c of
       Done c' \<Rightarrow> c'
     | Panicked c' \<Rightarrow> JSON 500 Empty (Abort c'))"

text \<open>The status of the response is the one written first, 200 if none was.\<close>

definition status :: "('r, 'q) ctx \<Rightarrow> int" where
  "status c = (case c_writes c of [] \<Rightarrow> 200 | (code, _) # _ \<Rightarrow> code)"

named_theorems ctx_simps \<open>what the calls on a context change\<close>

lemmas ctx_call_defs = JSON_def Redirect_def Abort_def AbortWithStatusJSON_def Header_def
  SetSameSiteLax_def SetCookie_def

lemma JSON_simps [simp]:
  "c_writes (JSON s r c) = c_writes c @ [(s, r)]" "c_pool (JSON s r c) = c_pool c"
  "c_kv (JSON s r c) = c_kv c" "c_env (JSON s r c) = c_env c" "c_queue (JSON s r c) = c_queue c"
  "c_payload (JSON s r c) = c_payload c" "c_aborted (JSON s r c) = c_aborted c"
  "c_finished (JSON s r c) = c_finished c" "c_request (JSON s r c) = c_request c"
  "c_body (JSON s r c) = c_body c" "c_cookies (JSON s r c) = c_cookies c"
  "c_headers (JSON s r c) = c_headers c"
  by (simp_all add: JSON_def)

lemma Abort_simps [simp]:
  "c_writes (Abort c) = c_writes c" "c_pool (Abort c) = c_pool c" "c_kv (Abort c) = c_kv c"
  "c_env (Abort c) = c_env c" "c_queue (Abort c) = c_queue c" "c_payload (Abort c) = c_payload c"
  "c_aborted (Abort c)" "c_finished (Abort c) = c_finished c" "c_request (Abort c) = c_request c"
  "c_body (Abort c) = c_body c" "c_cookies (Abort c) = c_cookies c" "c_headers (Abort c) = c_headers c"
  by (simp_all add: Abort_def)

lemma Header_simps [simp]:
  "c_writes (Header k v c) = c_writes c" "c_pool (Header k v c) = c_pool c"
  "c_kv (Header k v c) = c_kv c" "c_env (Header k v c) = c_env c" "c_queue (Header k v c) = c_queue c"
  "c_payload (Header k v c) = c_payload c" "c_aborted (Header k v c) = c_aborted c"
  "c_finished (Header k v c) = c_finished c" "c_request (Header k v c) = c_request c"
  "c_body (Header k v c) = c_body c" "c_cookies (Header k v c) = c_cookies c"
  "c_headers (Header k v c) = c_headers c @ [(k, v)]"
  by (simp_all add: Header_def)

lemma SetCookie_simps [simp]:
  "c_writes (SetCookie n v m p d s h c) = c_writes c" "c_pool (SetCookie n v m p d s h c) = c_pool c"
  "c_kv (SetCookie n v m p d s h c) = c_kv c" "c_env (SetCookie n v m p d s h c) = c_env c"
  "c_queue (SetCookie n v m p d s h c) = c_queue c"
  "c_payload (SetCookie n v m p d s h c) = c_payload c"
  "c_aborted (SetCookie n v m p d s h c) = c_aborted c"
  "c_finished (SetCookie n v m p d s h c) = c_finished c"
  "c_request (SetCookie n v m p d s h c) = c_request c" "c_body (SetCookie n v m p d s h c) = c_body c"
  "map ck_name (c_cookies (SetCookie n v m p d s h c)) = map ck_name (c_cookies c) @ [n]"
  by (simp_all add: SetCookie_def)

lemma SetSameSiteLax_simps [simp]:
  "c_writes (SetSameSiteLax c) = c_writes c" "c_pool (SetSameSiteLax c) = c_pool c"
  "c_kv (SetSameSiteLax c) = c_kv c" "c_env (SetSameSiteLax c) = c_env c"
  "c_queue (SetSameSiteLax c) = c_queue c" "c_payload (SetSameSiteLax c) = c_payload c"
  "c_aborted (SetSameSiteLax c) = c_aborted c" "c_finished (SetSameSiteLax c) = c_finished c"
  "c_request (SetSameSiteLax c) = c_request c" "c_body (SetSameSiteLax c) = c_body c"
  "c_cookies (SetSameSiteLax c) = c_cookies c" "c_headers (SetSameSiteLax c) = c_headers c"
  by (simp_all add: SetSameSiteLax_def)

text \<open>A read leaves the rows of the database.\<close>

lemma store_read:
  "store_call (exec_auto (select q)) c = (r, c') \<Longrightarrow>
    pl_db (c_pool c') = pl_db (c_pool c) \<and> c' = c\<lparr>c_pool := c_pool c'\<rparr>"
  by (auto simp: store_call_def exec_auto_select split: prod.splits)

lemma store_read_Inr:
  "store_call (exec_auto (select q)) c = (Inr x, c') \<Longrightarrow> q (pl_db (c_pool c)) = Inr x"
  by (auto simp: store_call_def select_def dest!: exec_auto_InrD split: prod.splits)

lemma run_chain_aborted: "c_aborted c \<Longrightarrow> hs \<noteq> [] \<Longrightarrow> run_chain hs c = Done c"
  by (cases hs) simp_all

end
