(* ===== verification/Middleware.thy ===== *)
theory Middleware
  imports Gin
begin

section \<open>Middleware (api/middleware.go)\<close>

text \<open>
  Authentication, the OTP check around a transfer, the sliding-window rate limiter and the
  CSRF protection, each a function of what runs next.
\<close>

subsection \<open>Authentication\<close>

definition authorizationHeaderKey :: string where "authorizationHeaderKey = ''authorization''"

definition authorizationTypeBearer :: string where "authorizationTypeBearer = ''bearer''"

text \<open>\<open>ctx.MustGet(authorizationPayloadKey)\<close>: panics when nothing was set.\<close>

definition MustGet :: "('r, 'q) ctx \<Rightarrow> (Payload \<Rightarrow> ('r, 'q) ctx outcome) \<Rightarrow> ('r, 'q) ctx outcome" where
  "MustGet c k = (case c_payload c of None \<Rightarrow> Panicked c | Some p \<Rightarrow> k p)"

definition auth_verify :: "PasetoMaker \<Rightarrow> string \<Rightarrow> ('r, 'q) handler" where
  "auth_verify tokenMaker accessToken next c =
     (case env_call (VerifyToken tokenMaker accessToken) c of
        (Inl err, c') \<Rightarrow> Done (AbortWithStatusJSON 401 (errorResponse (TokErr err)) c')
      | (Inr payload, c') \<Rightarrow> next (c'\<lparr>c_payload := Some payload\<rparr>))"

text \<open>
  The branch for fewer than two fields has no \<open>return\<close>: the code goes on to \<open>fields[0]\<close>
  and \<open>fields[1]\<close>, which panic when out of range.
\<close>

definition authMiddleware :: "PasetoMaker \<Rightarrow> ('r, 'q) handler" where
  "authMiddleware tokenMaker next c =
     (case Cookie c ''access_token'' of
        Some cookie \<Rightarrow> auth_verify tokenMaker cookie next c
      | None \<Rightarrow>
          let authorizeHeader = GetHeader c authorizationHeaderKey in
          if length authorizeHeader = 0
          then Done (AbortWithStatusJSON 401
                 (errorResponse (Msg ''authorization header is not provided'')) c)
          else
            let fields = Fields authorizeHeader;
                c1 = (if length fields < 2
                      then AbortWithStatusJSON 401 (errorResponse (Msg ''invalid authorization header'')) c
                      else c)
            in if length fields = 0 then Panicked c1
               else
                 let authorizationType = ToLower (fields ! 0) in
                 if authorizationType \<noteq> authorizationTypeBearer
                 then Done (AbortWithStatusJSON 401
                        (errorResponse (Msg (''unsupported authorization type '' @ authorizationType))) c1)
                 else if length fields < 2 then Panicked c1
                 else auth_verify tokenMaker (fields ! 1) next c1)"

subsection \<open>One-time passwords\<close>

definition verifyOTPMiddleware :: "gotp \<Rightarrow> 'r kv_store \<Rightarrow> int \<Rightarrow> ('r, 'q) handler" where
  "verifyOTPMiddleware g otpStore otpDuration next c =
     (case GetRawData c of (body, c0) \<Rightarrow>
      case Option.bind (Unmarshal body) (string_field ''otp'' []) of
        None \<Rightarrow> Done (Abort (JSON 401 (errorResponse BindErr) c0))
      | Some otp \<Rightarrow> MustGet c0 (\<lambda>authPayload.
          let redisKey = otp_key (pay_Username authPayload) in
          case kv_call (kv_Get otpStore redisKey) c0 of
            (Inl err, c1) \<Rightarrow> Done (Abort (JSON 401 (errorResponse (Msg ''OTP has been expired'')) c1))
          | (Inr secret, c1) \<Rightarrow>
              (case env_call time_now c1 of (now, c2) \<Rightarrow>
               if \<not> gt_VerifyTime g secret 6 (int_Seconds otpDuration) otp (Unix now)
               then Done (Abort (JSON 401 (errorResponse (Msg ''invalid OTP'')) c2))
               else case next (c2\<lparr>c_body := body\<rparr>) of
                      Panicked c3 \<Rightarrow> Panicked c3
                    | Done c3 \<Rightarrow> Done (snd (kv_call (kv_Del otpStore redisKey) c3)))))"

subsection \<open>Rate limiting\<close>

definition rate_key :: "string \<Rightarrow> string \<Rightarrow> string \<Rightarrow> string" where
  "rate_key ip username apiName = ip @ '':'' @ username @ '':'' @ apiName"

definition rate_headers :: "(int \<Rightarrow> string) \<Rightarrow> int \<Rightarrow> int \<Rightarrow> int \<Rightarrow> ('r, 'q) ctx \<Rightarrow> ('r, 'q) ctx" where
  "rate_headers rfc3339 maxRequests count nextReset c =
     Header ''X-RateLimit-Reset'' (rfc3339 (go_div nextReset 1000))
       (Header ''X-RateLimit-Remaining'' (show_int (max 0 (wrap64 (maxRequests - count))))
         (Header ''X-RateLimit-Limit'' (show_int maxRequests) c))"

definition rateLimitMiddleware ::
    "(int \<Rightarrow> string) \<Rightarrow> string \<Rightarrow> 'r kv_store \<Rightarrow> int \<Rightarrow> int \<Rightarrow> ('r, 'q) handler" where
  "rateLimitMiddleware rfc3339 apiName limiter maxRequests windowSize next c = MustGet c (\<lambda>authPayload.
     let redisKey = rate_key (ClientIP c) (pay_Username authPayload) apiName in
     case env_call time_now c of (t1, c1) \<Rightarrow>
     let currentTimestamp = UnixMilli t1;
         windowStart = wrap64 (currentTimestamp - Milliseconds windowSize) in
     case kv_call (kv_ZRemRangeByScore limiter redisKey ''0'' (show_int windowStart)) c1 of (_, c2) \<Rightarrow>
     case kv_call (kv_ZCard limiter redisKey) c2 of
       (Inl err, c3) \<Rightarrow>
         Done (Abort (JSON 500 (errorResponse (Msg ''failed to calculate number of API requests'')) c3))
     | (Inr count, c3) \<Rightarrow>
       (case kv_call (kv_ZRange limiter redisKey 0 0) c3 of (r, c4) \<Rightarrow>
        let windows = (case r of Inl _ \<Rightarrow> [] | Inr ms \<Rightarrow> ms);
            firstRequest = (case windows of [] \<Rightarrow> currentTimestamp | m # _ \<Rightarrow> fst (ParseInt 64 m));
            nextReset = wrap64 (firstRequest + Milliseconds windowSize);
            c5 = rate_headers rfc3339 maxRequests count nextReset c4
        in if count > maxRequests
           then Done (Abort (JSON 429 (errorResponse (Msg ''API Limit Reached''))
                  (Header ''X-RateLimit-Retry-After''
                    (show_int (max (go_div (wrap64 (nextReset - currentTimestamp)) 1000) 0)) c5)))
           else
             case env_call time_now c5 of (t2, c6) \<Rightarrow>
             case env_call time_now c6 of (t3, c7) \<Rightarrow>
             case kv_call (kv_ZAdd limiter redisKey
                    [\<lparr>z_score = f64_of_int (UnixMilli t2), z_member = show_int (UnixMilli t3)\<rparr>]) c7 of (_, c8) \<Rightarrow>
             case kv_call (kv_Expire limiter redisKey windowSize) c8 of (_, c9) \<Rightarrow>
             next c9))"

subsection \<open>CSRF\<close>

text \<open>The package answers a request itself, and gin is told to abort, or lets it through.\<close>

definition csrfVerifyMiddleware :: "(request \<Rightarrow> (int \<times> reply, string) result) \<Rightarrow> ('r, 'q) handler" where
  "csrfVerifyMiddleware csrf next c =
     (case csrf (c_request c) of
        Inl (code, r) \<Rightarrow> Done (Abort (JSON code r c))
      | Inr token \<Rightarrow> next (c\<lparr>c_csrf := token\<rparr>))"

definition csrfTokenMiddleware :: "('r, 'q) action" where
  "csrfTokenMiddleware c = Done (Header ''X-CSRF-Token'' (c_csrf c) c)"

subsection \<open>What authentication lets through\<close>

text \<open>\<open>refused c c'\<close>: an answer was written and no service was touched but the clock.\<close>

definition refused :: "('r, 'q) ctx \<Rightarrow> ('r, 'q) ctx \<Rightarrow> bool" where
  "refused c c' \<longleftrightarrow> c_pool c' = c_pool c \<and> c_kv c' = c_kv c \<and> c_queue c' = c_queue c \<and>
     c_payload c' = c_payload c \<and> c_cookies c' = c_cookies c \<and>
     (\<exists>ws. c_writes c' = c_writes c @ ws \<and> (\<forall>(code, r)\<in>set ws. code = 401 \<and> (\<exists>e. r = Error e)))"

text \<open>The token a request presents.\<close>

definition presented :: "('r, 'q) ctx \<Rightarrow> string option" where
  "presented c = (case Cookie c ''access_token'' of
       Some t \<Rightarrow> Some t
     | None \<Rightarrow> (case Fields (GetHeader c authorizationHeaderKey) of
         ty # t # _ \<Rightarrow> if ToLower ty = authorizationTypeBearer then Some t else None
       | _ \<Rightarrow> None))"

definition with_payload :: "Payload \<Rightarrow> env \<Rightarrow> ('r, 'q) ctx \<Rightarrow> ('r, 'q) ctx" where
  "with_payload p e c = c\<lparr>c_env := e, c_payload := Some p\<rparr>"

lemma auth_verify_cases:
  "auth_verify maker t next c =
    (case VerifyToken maker t (c_env c) of
       (Inr p, e) \<Rightarrow> next (with_payload p e c)
     | (Inl err, e) \<Rightarrow> Done (AbortWithStatusJSON 401 (Error (TokErr err)) (c\<lparr>c_env := e\<rparr>)))"
  by (auto simp: auth_verify_def env_call_def with_payload_def errorResponse_def split: prod.splits sum.splits)

lemma Fields_length: "length (Fields h) = 0 \<longleftrightarrow> Fields h = []"
  by simp

text \<open>A presented token is checked and nothing else decides.\<close>

lemma auth_presented:
  assumes "presented c = Some t"
  shows "authMiddleware maker next c = auth_verify maker t next c"
proof (cases "Cookie c ''access_token''")
  case None
  let ?h = "GetHeader c authorizationHeaderKey"
  from assms None obtain ty r where f: "Fields ?h = ty # t # r" and b: "ToLower ty = authorizationTypeBearer"
    by (auto simp: presented_def split: list.splits if_splits)
  then have "?h \<noteq> []" by (cases ?h) auto
  with None f b show ?thesis by (simp add: authMiddleware_def Let_def)
qed (use assms in \<open>simp add: presented_def authMiddleware_def\<close>)

lemma auth_not_presented:
  assumes "presented c = None"
  shows "\<exists>c'. refused c c' \<and> c_writes c' \<noteq> c_writes c \<and>
    (authMiddleware maker next c = Done c' \<and> c_aborted c' \<or>
     authMiddleware maker next c = Panicked c')"
proof -
  let ?h = "GetHeader c authorizationHeaderKey"
  have no_cookie: "Cookie c ''access_token'' = None"
    using assms by (auto simp: presented_def split: option.splits)
  note s = authMiddleware_def no_cookie Let_def refused_def AbortWithStatusJSON_def errorResponse_def
  show ?thesis
  proof (cases "?h = []")
    case True
    then show ?thesis by (simp add: s)
  next
    case False
    then show ?thesis
    proof (cases "Fields ?h")
      case Nil
      with False show ?thesis by (simp add: s)
    next
      case (Cons ty r)
      with False assms no_cookie show ?thesis
        by (cases r) (auto simp: s presented_def)
    qed
  qed
qed

end
