(* ===== verification/Api_Account.thy ===== *)
theory Api_Account
  imports Middleware
begin

section \<open>Accounts (api/account.go)\<close>

text \<open>
  The three account handlers: the struct of the request with its decoding and its
  \<open>binding\<close> tags, then the handler with each of its answers.
\<close>

subsection \<open>createAccount\<close>

record createAccountRequest =
  car_Currency :: string

definition createAccountRequest_fields :: "(string \<times> json) list \<Rightarrow> createAccountRequest option" where
  "createAccountRequest_fields fs =
     map_option (\<lambda>currency. \<lparr>car_Currency = currency\<rparr>) (string_field ''currency'' [] fs)"

definition createAccountRequest_binding :: "validator \<Rightarrow> createAccountRequest \<Rightarrow> bool" where
  "createAccountRequest_binding v req \<longleftrightarrow>
     v_required v (VString (car_Currency req)) \<and> validCurrency (VString (car_Currency req))"

definition createAccount :: "('r, 'q) Server \<Rightarrow> ('r, 'q) action" where
  "createAccount server c =
     (case ShouldBindJSON createAccountRequest_fields
             (createAccountRequest_binding (lb_validator (sv_libs server))) c of
        (Inl err, c1) \<Rightarrow> Done (JSON 400 (errorResponse err) c1)
      | (Inr req, c1) \<Rightarrow> MustGet c1 (\<lambda>authPayload.
          case store_call (exec_auto (CreateAccount
                 \<lparr>cap_owner = pay_Username authPayload, cap_balance = 0,
                  cap_currency = car_Currency req\<rparr>)) c1 of
            (Inl err, c2) \<Rightarrow>
              let errCode = ErrorCode err in
              if errCode = ForeignKeyViolation \<or> errCode = UniqueViolation
              then Done (JSON 409 (errorResponse (DbErr err)) c2)
              else Done (JSON 500 (errorResponse (DbErr err)) c2)
          | (Inr account, c2) \<Rightarrow> Done (JSON 200 (AccountReply account) c2)))"

subsection \<open>getAccount\<close>

text \<open>\<open>ShouldBindUri\<close> reads the path parameter as a decimal \<open>int64\<close>; an empty one is 0.\<close>

definition uri_int64 :: "string \<Rightarrow> int option" where
  "uri_int64 s = (if s = [] then Some 0
     else case ParseInt 64 s of (i, ok) \<Rightarrow> if ok then Some i else None)"

definition getAccountRequest_binding :: "validator \<Rightarrow> int \<Rightarrow> bool" where
  "getAccountRequest_binding v i \<longleftrightarrow> v_required v (VInt i) \<and> v_min v 1 (VInt i)"

definition ShouldBindUri_id :: "validator \<Rightarrow> ('r, 'q) ctx \<Rightarrow> int option" where
  "ShouldBindUri_id v c = Option.bind (uri_int64 (rq_params (c_request c) ''id''))
     (\<lambda>i. if getAccountRequest_binding v i then Some i else None)"

definition getAccount :: "('r, 'q) Server \<Rightarrow> ('r, 'q) action" where
  "getAccount server c =
     (case ShouldBindUri_id (lb_validator (sv_libs server)) c of
        None \<Rightarrow> Done (JSON 400 (errorResponse BindErr) c)
      | Some i \<Rightarrow>
          (case store_call (exec_auto (select (GetAccount i))) c of
             (Inl err, c1) \<Rightarrow>
               if err = ErrRecordNotFound then Done (JSON 404 (errorResponse (DbErr err)) c1)
               else Done (JSON 500 (errorResponse (DbErr err)) c1)
           | (Inr account, c1) \<Rightarrow> MustGet c1 (\<lambda>authPayload.
               if acc_owner account \<noteq> pay_Username authPayload
               then Done (JSON 401 (errorResponse
                      (Msg ''account doesn't belong to the authenticated user'')) c1)
               else Done (JSON 200 (AccountReply account) c1))))"

subsection \<open>listAccounts\<close>

record listAccountsRequest =
  lar_PageID :: int
  lar_PageSize :: int

text \<open>A query parameter that is missing or empty leaves 0; the fields are \<open>int32\<close>.\<close>

definition form_int32 :: "string option \<Rightarrow> int option" where
  "form_int32 q = (case q of None \<Rightarrow> Some 0
     | Some s \<Rightarrow> if s = [] then Some 0
         else case ParseInt 32 s of (i, ok) \<Rightarrow> if ok then Some i else None)"

definition listAccountsRequest_binding :: "validator \<Rightarrow> listAccountsRequest \<Rightarrow> bool" where
  "listAccountsRequest_binding v req \<longleftrightarrow>
     v_required v (VInt (lar_PageID req)) \<and> v_min v 1 (VInt (lar_PageID req)) \<and>
     v_required v (VInt (lar_PageSize req)) \<and> v_min v 5 (VInt (lar_PageSize req)) \<and>
     v_max v 10 (VInt (lar_PageSize req))"

definition ShouldBindQuery_page :: "validator \<Rightarrow> ('r, 'q) ctx \<Rightarrow> listAccountsRequest option" where
  "ShouldBindQuery_page v c =
     Option.bind (form_int32 (rq_query (c_request c) ''page_id'')) (\<lambda>pg.
     Option.bind (form_int32 (rq_query (c_request c) ''page_size'')) (\<lambda>sz.
       let req = \<lparr>lar_PageID = pg, lar_PageSize = sz\<rparr>
       in if listAccountsRequest_binding v req then Some req else None))"

text \<open>The offset is computed in \<open>int32\<close> and wraps.\<close>

definition page_offset :: "int \<Rightarrow> int \<Rightarrow> int" where
  "page_offset pg sz = wrap32 (wrap32 (pg - 1) * sz)"

definition listAccounts :: "('r, 'q) Server \<Rightarrow> ('r, 'q) action" where
  "listAccounts server c =
     (case ShouldBindQuery_page (lb_validator (sv_libs server)) c of
        None \<Rightarrow> Done (JSON 400 (errorResponse BindErr) c)
      | Some req \<Rightarrow> MustGet c (\<lambda>authPayload.
          case store_call (exec_auto (select (ListAccounts
                 \<lparr>lap_owner = pay_Username authPayload, lap_limit = lar_PageSize req,
                  lap_offset = page_offset (lar_PageID req) (lar_PageSize req)\<rparr>))) c of
            (Inl err, c1) \<Rightarrow> Done (JSON 500 (errorResponse (DbErr err)) c1)
          | (Inr accs, c1) \<Rightarrow> Done (JSON 200 (AccountsReply accs) c1)))"

end
