(* ===== verification/Api_Transfer.thy ===== *)
theory Api_Transfer
  imports Middleware Store_Props
begin

section \<open>Transfers and one-time passwords (api/transfer.go, api/otp.go)\<close>

text \<open>
  The handler of \<open>POST /transfers\<close> with its helpers \<open>validAccount\<close> and \<open>currencyExchange\<close>,
  and \<open>sendOTP\<close>, which puts the mail task on the queue. A helper that answers the request
  itself returns the context it wrote to; one that panics returns the panic.
\<close>

subsection \<open>transferRequest\<close>

record transferRequest =
  trq_FromAccountID :: int
  trq_ToAccountID :: int
  trq_Amount :: int
  trq_Currency :: string
  trq_OTP :: string

definition transferRequest_fields :: "(string \<times> json) list \<Rightarrow> transferRequest option" where
  "transferRequest_fields fs =
     Option.bind (int64_field ''from_account_id'' 0 fs) (\<lambda>f.
     Option.bind (int64_field ''to_account_id'' 0 fs) (\<lambda>t.
     Option.bind (int64_field ''amount'' 0 fs) (\<lambda>n.
     Option.bind (string_field ''currency'' [] fs) (\<lambda>cur.
     Option.bind (string_field ''otp'' [] fs) (\<lambda>otp.
       Some \<lparr>trq_FromAccountID = f, trq_ToAccountID = t, trq_Amount = n,
             trq_Currency = cur, trq_OTP = otp\<rparr>)))))"

definition transferRequest_binding :: "validator \<Rightarrow> transferRequest \<Rightarrow> bool" where
  "transferRequest_binding v req \<longleftrightarrow>
     v_required v (VInt (trq_FromAccountID req)) \<and> v_min v 1 (VInt (trq_FromAccountID req)) \<and>
     v_required v (VInt (trq_ToAccountID req)) \<and> v_min v 1 (VInt (trq_ToAccountID req)) \<and>
     v_required v (VInt (trq_Amount req)) \<and> v_gt v 0 (VInt (trq_Amount req)) \<and>
     v_required v (VString (trq_Currency req)) \<and> validCurrency (VString (trq_Currency req)) \<and>
     v_required v (VString (trq_OTP req)) \<and> v_min v 6 (VString (trq_OTP req)) \<and>
     v_max v 6 (VString (trq_OTP req)) \<and> v_numeric v (trq_OTP req)"

subsection \<open>validAccount and currencyExchange\<close>

definition mismatch :: "int \<Rightarrow> string \<Rightarrow> string \<Rightarrow> string" where
  "mismatch i a b = ''account ['' @ show_int i @ ''] currency mismatch: '' @ a @ '' vs '' @ b"

definition validAccount ::
    "int \<Rightarrow> string \<Rightarrow> ('r, 'q) ctx \<Rightarrow> account option \<times> ('r, 'q) ctx" where
  "validAccount accountID currency c =
     (case store_call (exec_auto (select (GetAccount accountID))) c of
        (Inl err, c1) \<Rightarrow>
          if err = ErrRecordNotFound then (None, JSON 404 (errorResponse (DbErr err)) c1)
          else (None, JSON 500 (errorResponse (DbErr err)) c1)
      | (Inr account, c1) \<Rightarrow>
          if acc_currency account \<noteq> currency
          then (None, JSON 400 (errorResponse
                 (Msg (mismatch (acc_id account) (acc_currency account) currency))) c1)
          else (Some account, c1))"

text \<open>The rate of the source over the rate of the target, in floating point.\<close>

definition exchanged :: "(f64 \<Rightarrow> int) \<Rightarrow> f64 \<Rightarrow> f64 \<Rightarrow> int \<Rightarrow> int" where
  "exchanged oob fromExchangeRate toExchangeRate amount =
     f64_to_int oob (f64_mul (f64_of_int amount) (f64_div fromExchangeRate toExchangeRate))"

text \<open>
  When the second query fails for another reason than a missing row, the handler builds
  its answer from \<open>errFrom\<close>, which is nil there: \<open>err.Error()\<close> panics.
\<close>

definition currencyExchange ::
    "(f64 \<Rightarrow> int) \<Rightarrow> string \<Rightarrow> string \<Rightarrow> int \<Rightarrow> ('r, 'q) ctx \<Rightarrow>
      int option \<times> ('r, 'q) ctx outcome" where
  "currencyExchange oob fromCurrency toCurrency amount c =
     (case store_call (exec_auto (select (GetExchangeRate fromCurrency))) c of
        (Inl errFrom, c1) \<Rightarrow>
          if errFrom = ErrRecordNotFound then (None, Done (JSON 404 (errorResponse (DbErr errFrom)) c1))
          else (None, Done (JSON 500 (errorResponse (DbErr errFrom)) c1))
      | (Inr fromExchangeRate, c1) \<Rightarrow>
          (case store_call (exec_auto (select (GetExchangeRate toCurrency))) c1 of
             (Inl errTo, c2) \<Rightarrow>
               if errTo = ErrRecordNotFound then (None, Done (JSON 404 (errorResponse (DbErr errTo)) c2))
               else (None, Panicked c2)
           | (Inr toExchangeRate, c2) \<Rightarrow>
               (Some (exchanged oob fromExchangeRate toExchangeRate amount), Done c2)))"

subsection \<open>createTransfer\<close>

definition createTransfer :: "('r, 'q) Server \<Rightarrow> ('r, 'q) action" where
  "createTransfer server c =
     (case ShouldBindJSON transferRequest_fields
             (transferRequest_binding (lb_validator (sv_libs server))) c of
        (Inl err, c1) \<Rightarrow> Done (JSON 400 (errorResponse err) c1)
      | (Inr req, c1) \<Rightarrow>
     (case validAccount (trq_FromAccountID req) (trq_Currency req) c1 of
        (None, c2) \<Rightarrow> Done c2
      | (Some fromAccount, c2) \<Rightarrow> MustGet c2 (\<lambda>authPayload.
     if acc_owner fromAccount \<noteq> pay_Username authPayload
     then Done (JSON 401 (errorResponse
            (Msg ''from account doesn't belong to the authenticated user'')) c2)
     else
     (case store_call (exec_auto (select (GetAccount (trq_ToAccountID req)))) c2 of
        (Inl err, c3) \<Rightarrow>
          if err = ErrRecordNotFound then Done (JSON 404 (errorResponse (DbErr err)) c3)
          else Done (JSON 500 (errorResponse (DbErr err)) c3)
      | (Inr toAccount, c3) \<Rightarrow>
     (case currencyExchange (lb_oob (sv_libs server)) (acc_currency fromAccount)
             (acc_currency toAccount) (trq_Amount req) c3 of
        (None, out) \<Rightarrow> out
      | (Some afterExchange, Panicked c4) \<Rightarrow> Panicked c4
      | (Some afterExchange, Done c4) \<Rightarrow>
     (case store_call (TransferTx
             \<lparr>ttp_from_account_id = trq_FromAccountID req,
              ttp_to_account_id = trq_ToAccountID req,
              ttp_from_amount = trq_Amount req,
              ttp_to_amount = afterExchange\<rparr>) c4 of
        (Inl err, c5) \<Rightarrow>
          if err = ErrInsufficientBalance then Done (JSON 400 (errorResponse (DbErr err)) c5)
          else Done (JSON 500 (errorResponse (DbErr err)) c5)
      | (Inr res, c5) \<Rightarrow> Done (JSON 200 (TransferReply res) c5)))))))"

subsection \<open>sendOTP\<close>

definition sendOTP :: "('r, 'q) Server \<Rightarrow> ('r, 'q) action" where
  "sendOTP server c = MustGet c (\<lambda>authPayload.
     let taskPayload = \<lparr>psv_Username = pay_Username authPayload\<rparr>;
         opts = [MaxRetry 10, ProcessIn (10 * 1000000000), Queue QueueCritical]
     in case queue_call (DistributeTaskSendVerifyEmail (sv_asynq server) taskPayload opts) c of
          (Some err, c1) \<Rightarrow> Done (JSON 500 (errorResponse (TaskErr err)) c1)
        | (None, c1) \<Rightarrow>
            Done (JSON 200 (Message ''OTP sent. Please verify to complete the transfer.'') c1))"

end
