(* ===== verification/Session.thy ===== *)
theory Session
  imports Middleware
begin

section \<open>Sessions: keys, cookies, renewal (api/renew.go and shared code of the login handlers)\<close>

text \<open>
  A session is three keys of the key-value store, under the random id in the cookie
  \<open>sid\<close>: the user, the user agent and the address it was opened from. The statements that
  open and close one appear in several handlers with the same text; they are
  \<open>set_session\<close> and \<open>del_session\<close> here.
\<close>

definition sid_key :: "string \<Rightarrow> string" where
  "sid_key sID = ''sid:'' @ sID"

definition agent_key :: "string \<Rightarrow> string" where
  "agent_key sID = ''sid:'' @ sID @ '':user_agent''"

definition ip_key :: "string \<Rightarrow> string" where
  "ip_key sID = ''sid:'' @ sID @ '':ip''"

text \<open>All three commands run; \<open>True\<close> when none reported an error.\<close>

definition set_session ::
    "('r, 'q) Server \<Rightarrow> string \<Rightarrow> string \<Rightarrow> ('r, 'q) ctx \<Rightarrow> bool \<times> ('r, 'q) ctx" where
  "set_session server sID username c =
     (let kv = sv_kvStore server; d = RefreshTokenDuration (sv_config server) in
      case kv_call (kv_Set kv (sid_key sID) username d) c of (err1, c1) \<Rightarrow>
      case kv_call (kv_Set kv (agent_key sID) (UserAgent c1) d) c1 of (err2, c2) \<Rightarrow>
      case kv_call (kv_Set kv (ip_key sID) (ClientIP c2) d) c2 of (err3, c3) \<Rightarrow>
        (err1 = None \<and> err2 = None \<and> err3 = None, c3))"

definition del_session ::
    "('r, 'q) Server \<Rightarrow> string \<Rightarrow> ('r, 'q) ctx \<Rightarrow> bool \<times> ('r, 'q) ctx" where
  "del_session server sID c =
     (let kv = sv_kvStore server in
      case kv_call (kv_Del kv (sid_key sID)) c of (err1, c1) \<Rightarrow>
      case kv_call (kv_Del kv (agent_key sID)) c1 of (err2, c2) \<Rightarrow>
      case kv_call (kv_Del kv (ip_key sID)) c2 of (err3, c3) \<Rightarrow>
        (err1 = None \<and> err2 = None \<and> err3 = None, c3))"

definition set_sid_cookie :: "('r, 'q) Server \<Rightarrow> string \<Rightarrow> ('r, 'q) ctx \<Rightarrow> ('r, 'q) ctx" where
  "set_sid_cookie server sID c =
     SetCookie ''sid'' sID (int_Seconds (RefreshTokenDuration (sv_config server))) ''/'' [] False True
       (SetSameSiteLax c)"

definition set_access_cookie :: "('r, 'q) Server \<Rightarrow> string \<Rightarrow> ('r, 'q) ctx \<Rightarrow> ('r, 'q) ctx" where
  "set_access_cookie server accessToken c =
     SetCookie ''access_token'' accessToken (int_Seconds (AccessTokenDuration (sv_config server)))
       ''/'' [] False True c"

text \<open>A new session: a fresh id, its cookie and its three keys.\<close>

definition open_session ::
    "('r, 'q) Server \<Rightarrow> string \<Rightarrow> ('r, 'q) ctx \<Rightarrow> bool \<times> ('r, 'q) ctx" where
  "open_session server username c =
     (case env_call RandomID c of (sID, c1) \<Rightarrow>
        set_session server sID username (set_sid_cookie server sID c1))"

definition or_empty :: "('e, string) result \<Rightarrow> string" where
  "or_empty r = (case r of Inl _ \<Rightarrow> [] | Inr s \<Rightarrow> s)"

definition renewAccessToken :: "('r, 'q) Server \<Rightarrow> ('r, 'q) action" where
  "renewAccessToken server c =
     (let kv = sv_kvStore server;
          expired = errorResponse (Msg ''refresh token has been expired'')
      in case Cookie c ''sid'' of
        None \<Rightarrow> Done (JSON 401 expired c)
      | Some sID \<Rightarrow>
     (case kv_call (kv_Exists kv (sid_key sID)) c of (ex, c1) \<Rightarrow>
      if (case ex of Inl _ \<Rightarrow> True | Inr n \<Rightarrow> n \<le> 0) then Done (JSON 401 expired c1)
      else
     (case kv_call (kv_Get kv (sid_key sID)) c1 of
        (Inl err, c2) \<Rightarrow> Done (JSON 401 (errorResponse (KvErr err)) c2)
      | (Inr username, c2) \<Rightarrow>
     (case kv_call (kv_Get kv (agent_key sID)) c2 of (storedUserAgent, c3) \<Rightarrow>
      case kv_call (kv_Get kv (ip_key sID)) c3 of (storedIP, c4) \<Rightarrow>
      if or_empty storedUserAgent \<noteq> GetHeader c4 ''User-Agent''
      then Done (JSON 401 (errorResponse (Msg ''mismatched user agent'')) c4)
      else if or_empty storedIP \<noteq> ClientIP c4
      then Done (JSON 401 (errorResponse (Msg ''mismatched IP'')) c4)
      else
     (case store_call (exec_auto (select (GetUser username))) c4 of
        (Inl err, c5) \<Rightarrow>
          if err = ErrRecordNotFound then Done (JSON 404 (errorResponse (DbErr err)) c5)
          else Done (JSON 500 (errorResponse (DbErr err)) c5)
      | (Inr user, c5) \<Rightarrow>
     (case env_call (CreateToken (sv_tokenMaker server) (usr_username user) (usr_role user)
             (AccessTokenDuration (sv_config server))) c5 of
        (Inl err, c6) \<Rightarrow> Done (JSON 500 (errorResponse (TokErr err)) c6)
      | (Inr (accessToken, _), c6) \<Rightarrow>
     (case del_session server sID c6 of
        (False, c7) \<Rightarrow> Done (JSON 500 (errorResponse
            (Msg ''failed to delete session in redis when renewing access token'')) c7)
      | (True, c7) \<Rightarrow>
     (case open_session server (usr_username user) c7 of
        (False, c8) \<Rightarrow> Done (JSON 500 (errorResponse
            (Msg ''failed to set session in redis when renewing access token'')) c8)
      | (True, c8) \<Rightarrow>
          Done (JSON 200 (Status ''success'') (set_access_cookie server accessToken c8))))))))))"

end
