(* ===== verification/Api_User.thy ===== *)
theory Api_User
  imports Session
begin

section \<open>Users (api/user.go, api/validator.go)\<close>

text \<open>
  Registration, profile, login and logout, and the update of a user with its field checks.
\<close>

subsection \<open>Field checks (api/validator.go)\<close>

definition ValidateString :: "string \<Rightarrow> int \<Rightarrow> int \<Rightarrow> string option" where
  "ValidateString val minLength maxLength =
     (let n = int (length val) in
      if n < minLength \<or> n > maxLength
      then Some (''must contain from '' @ show_int minLength @ ''-'' @ show_int maxLength @ '' characters'')
      else None)"

text \<open>The expressions \<open>^[a-z0-9_]+$\<close> and \<open>^[a-zA-Z\s]+$\<close>.\<close>

definition isValidUsername :: "string \<Rightarrow> bool" where
  "isValidUsername s \<longleftrightarrow> s \<noteq> [] \<and> list_all (\<lambda>c. is_lower c \<or> is_digit c \<or> c = CHR ''_'') s"

definition is_blank :: "char \<Rightarrow> bool" where
  "is_blank c \<longleftrightarrow> c \<in> {CHR '' '', CHR 0x09, CHR 0x0A, CHR 0x0C, CHR 0x0D}"

definition isValidFullName :: "string \<Rightarrow> bool" where
  "isValidFullName s \<longleftrightarrow> s \<noteq> [] \<and> list_all (\<lambda>c. is_lower c \<or> is_upper c \<or> is_blank c) s"

definition ValidateUsername :: "string \<Rightarrow> string option" where
  "ValidateUsername val =
     (case ValidateString val 3 100 of
        Some err \<Rightarrow> Some err
      | None \<Rightarrow> if \<not> isValidUsername val
          then Some ''must contain only lowercase letters, digits, or underscore'' else None)"

definition ValidateFullName :: "string \<Rightarrow> string option" where
  "ValidateFullName val =
     (case ValidateString val 3 100 of
        Some err \<Rightarrow> Some err
      | None \<Rightarrow> if \<not> isValidFullName val then Some ''must contain only letters or spaces'' else None)"

definition ValidatePassword :: "string \<Rightarrow> string option" where
  "ValidatePassword val = ValidateString val 6 100"

definition ValidateEmail :: "(string \<Rightarrow> bool) \<Rightarrow> string \<Rightarrow> string option" where
  "ValidateEmail parses val =
     (case ValidateString val 3 200 of
        Some err \<Rightarrow> Some err
      | None \<Rightarrow> if \<not> parses val then Some ''is not a valid email address'' else None)"

subsection \<open>createUser, getUser\<close>

definition newUserResponse :: "user \<Rightarrow> userResponse" where
  "newUserResponse u = \<lparr>ur_Username = usr_username u, ur_FullName = usr_full_name u,
     ur_Email = usr_email u, ur_PasswordChangedAt = usr_password_changed_at u,
     ur_CreatedAt = usr_created_at u\<rparr>"

record createUserRequest =
  cur_Username :: string
  cur_FullName :: string
  cur_Email :: string
  cur_Password :: string

definition createUserRequest_fields :: "(string \<times> json) list \<Rightarrow> createUserRequest option" where
  "createUserRequest_fields fs =
     Option.bind (string_field ''username'' [] fs) (\<lambda>u.
     Option.bind (string_field ''full_name'' [] fs) (\<lambda>n.
     Option.bind (string_field ''email'' [] fs) (\<lambda>e.
     Option.bind (string_field ''password'' [] fs) (\<lambda>p.
       Some \<lparr>cur_Username = u, cur_FullName = n, cur_Email = e, cur_Password = p\<rparr>))))"

definition createUserRequest_binding :: "validator \<Rightarrow> createUserRequest \<Rightarrow> bool" where
  "createUserRequest_binding v req \<longleftrightarrow>
     v_required v (VString (cur_Username req)) \<and> v_alphanum v (cur_Username req) \<and>
     v_required v (VString (cur_FullName req)) \<and>
     v_required v (VString (cur_Email req)) \<and> v_email v (cur_Email req) \<and>
     v_required v (VString (cur_Password req)) \<and> v_min v 6 (VString (cur_Password req))"

definition createUser :: "('r, 'q) Server \<Rightarrow> ('r, 'q) action" where
  "createUser server c =
     (case ShouldBindJSON createUserRequest_fields
             (createUserRequest_binding (lb_validator (sv_libs server))) c of
        (Inl err, c1) \<Rightarrow> Done (JSON 400 (errorResponse err) c1)
      | (Inr req, c1) \<Rightarrow>
     (case env_call (HashPassword (lb_bcrypt (sv_libs server)) (cur_Password req)) c1 of
        (Inl err, c2) \<Rightarrow> Done (JSON 500 (errorResponse (PwErr err)) c2)
      | (Inr hashedPassword, c2) \<Rightarrow>
     (case store_call (exec_auto (CreateUser
             \<lparr>cup_username = cur_Username req, cup_hashed_password = hashedPassword,
              cup_full_name = cur_FullName req, cup_email = cur_Email req\<rparr>)) c2 of
        (Inl err, c3) \<Rightarrow>
          if ErrorCode err = UniqueViolation then Done (JSON 409 (errorResponse (DbErr err)) c3)
          else Done (JSON 500 (errorResponse (DbErr err)) c3)
      | (Inr u, c3) \<Rightarrow> Done (JSON 201 (UserReply (newUserResponse u)) c3))))"

text \<open>The accounts of the profile are copied without their time of creation.\<close>

definition profile_account :: "account \<Rightarrow> account" where
  "profile_account a = \<lparr>acc_id = acc_id a, acc_owner = acc_owner a, acc_balance = acc_balance a,
     acc_currency = acc_currency a, acc_created_at = None\<rparr>"

definition getUser :: "('r, 'q) Server \<Rightarrow> ('r, 'q) action" where
  "getUser server c = MustGet c (\<lambda>authPayload.
     case store_call (exec_auto (select (GetUser (pay_Username authPayload)))) c of
       (Inl err, c1) \<Rightarrow>
         if err = ErrRecordNotFound then Done (JSON 404 (errorResponse (DbErr err)) c1)
         else Done (JSON 500 (errorResponse (DbErr err)) c1)
     | (Inr u, c1) \<Rightarrow>
         (case store_call (exec_auto (select (ListAccounts
                 \<lparr>lap_owner = usr_username u, lap_limit = 5, lap_offset = 0\<rparr>))) c1 of
            (Inl err, c2) \<Rightarrow> Done (JSON 500 (errorResponse (DbErr err)) c2)
          | (Inr accs, c2) \<Rightarrow>
              Done (JSON 200 (GetUserReply
                \<lparr>gur_Username = usr_username u, gur_FullName = usr_full_name u,
                 gur_Email = usr_email u, gur_PasswordChangedAt = usr_password_changed_at u,
                 gur_CreatedAt = usr_created_at u,
                 gur_Accounts = map profile_account accs\<rparr>) c2)))"

subsection \<open>loginUser, logoutUser\<close>

record loginUserRequest =
  lur_Username :: string
  lur_Password :: string

definition loginUserRequest_fields :: "(string \<times> json) list \<Rightarrow> loginUserRequest option" where
  "loginUserRequest_fields fs =
     Option.bind (string_field ''username'' [] fs) (\<lambda>u.
     Option.bind (string_field ''password'' [] fs) (\<lambda>p.
       Some \<lparr>lur_Username = u, lur_Password = p\<rparr>))"

definition loginUserRequest_binding :: "validator \<Rightarrow> loginUserRequest \<Rightarrow> bool" where
  "loginUserRequest_binding v req \<longleftrightarrow>
     v_required v (VString (lur_Username req)) \<and> v_alphanum v (lur_Username req) \<and>
     v_required v (VString (lur_Password req)) \<and> v_min v 6 (VString (lur_Password req))"

definition loginUser :: "('r, 'q) Server \<Rightarrow> ('r, 'q) action" where
  "loginUser server c =
     (case ShouldBindJSON loginUserRequest_fields
             (loginUserRequest_binding (lb_validator (sv_libs server))) c of
        (Inl err, c1) \<Rightarrow> Done (JSON 400 (errorResponse err) c1)
      | (Inr req, c1) \<Rightarrow>
     (case store_call (exec_auto (select (GetUser (lur_Username req)))) c1 of
        (Inl err, c2) \<Rightarrow>
          if err = ErrRecordNotFound then Done (JSON 404 (errorResponse (DbErr err)) c2)
          else Done (JSON 500 (errorResponse (DbErr err)) c2)
      | (Inr u, c2) \<Rightarrow>
     (case CheckPassword (lb_bcrypt (sv_libs server)) (lur_Password req) (usr_hashed_password u) of
        Some err \<Rightarrow> Done (JSON 401 (errorResponse (PwErr err)) c2)
      | None \<Rightarrow>
     (case env_call (CreateToken (sv_tokenMaker server) (lur_Username req) (usr_role u)
             (AccessTokenDuration (sv_config server))) c2 of
        (Inl err, c3) \<Rightarrow> Done (JSON 500 (errorResponse (TokErr err)) c3)
      | (Inr (accessToken, _), c3) \<Rightarrow>
     (case open_session server (usr_username u) c3 of
        (False, c4) \<Rightarrow> Done (JSON 500 (errorResponse
            (Msg ''failed to set session in redis when logging in'')) c4)
      | (True, c4) \<Rightarrow>
          Done (JSON 200 (Message ''login successfully'') (set_access_cookie server accessToken c4)))))))"

definition clear_cookie :: "string \<Rightarrow> ('r, 'q) ctx \<Rightarrow> ('r, 'q) ctx" where
  "clear_cookie name c = SetCookie name [] (- 1) ''/'' [] False True c"

definition logoutUser :: "('r, 'q) Server \<Rightarrow> ('r, 'q) action" where
  "logoutUser server c =
     (let bye = JSON 200 (Message ''logout successfully'') in
      case Cookie c ''sid'' of
        None \<Rightarrow> Done (bye c)
      | Some sID \<Rightarrow>
          (case del_session server sID c of
             (False, c1) \<Rightarrow> Done (JSON 500 (errorResponse
                 (Msg ''failed to delete session in redis when logging out'')) c1)
           | (True, c1) \<Rightarrow>
               Done (bye (clear_cookie ''_gorilla_csrf'' (clear_cookie ''access_token''
                 (clear_cookie ''sid'' c1))))))"

subsection \<open>updateUser\<close>

record UpdateUserRequest =
  uur_Username :: string
  uur_FullName :: "string option"
  uur_Email :: "string option"
  uur_Password :: "string option"

text \<open>The getters work on a pointer to the request, which may be nil.\<close>

definition GetUsername :: "UpdateUserRequest option \<Rightarrow> string" where
  "GetUsername x = (case x of Some r \<Rightarrow> uur_Username r | None \<Rightarrow> [])"

definition GetFullName :: "UpdateUserRequest option \<Rightarrow> string" where
  "GetFullName x = (case x of Some r \<Rightarrow> (case uur_FullName r of Some s \<Rightarrow> s | None \<Rightarrow> []) | None \<Rightarrow> [])"

definition GetEmail :: "UpdateUserRequest option \<Rightarrow> string" where
  "GetEmail x = (case x of Some r \<Rightarrow> (case uur_Email r of Some s \<Rightarrow> s | None \<Rightarrow> []) | None \<Rightarrow> [])"

definition GetPassword :: "UpdateUserRequest option \<Rightarrow> string" where
  "GetPassword x = (case x of Some r \<Rightarrow> (case uur_Password r of Some s \<Rightarrow> s | None \<Rightarrow> []) | None \<Rightarrow> [])"

definition UpdateUserRequest_fields :: "(string \<times> json) list \<Rightarrow> UpdateUserRequest option" where
  "UpdateUserRequest_fields fs =
     Option.bind (string_field ''username'' [] fs) (\<lambda>u.
     Option.bind (ptr_field ''full_name'' None fs) (\<lambda>n.
     Option.bind (ptr_field ''email'' None fs) (\<lambda>e.
     Option.bind (ptr_field ''password'' None fs) (\<lambda>p.
       Some \<lparr>uur_Username = u, uur_FullName = n, uur_Email = e, uur_Password = p\<rparr>))))"

definition UpdateUserRequest_binding :: "validator \<Rightarrow> UpdateUserRequest \<Rightarrow> bool" where
  "UpdateUserRequest_binding v req \<longleftrightarrow>
     v_required v (VString (uur_Username req)) \<and> v_alphanum v (uur_Username req)"

definition violation :: "string \<Rightarrow> string option \<Rightarrow> FieldViolation list" where
  "violation field err = (case err of None \<Rightarrow> []
     | Some d \<Rightarrow> [\<lparr>fv_Field = field, fv_Description = d\<rparr>])"

definition validateUpdateUserRequest ::
    "(string \<Rightarrow> bool) \<Rightarrow> UpdateUserRequest \<Rightarrow> FieldViolation list" where
  "validateUpdateUserRequest parses req =
     violation ''username'' (ValidateUsername (GetUsername (Some req))) @
     (if uur_Password req \<noteq> None
      then violation ''password'' (ValidatePassword (GetPassword (Some req))) else []) @
     (if uur_FullName req \<noteq> None
      then violation ''full_name'' (ValidateFullName (GetFullName (Some req))) else []) @
     (if uur_Email req \<noteq> None
      then violation ''email'' (ValidateEmail parses (GetEmail (Some req))) else [])"

text \<open>\<open>pgtype.Text\<close> with its \<open>Valid\<close> flag.\<close>

definition pg_text :: "string \<Rightarrow> bool \<Rightarrow> string option" where
  "pg_text s valid = (if valid then Some s else None)"

text \<open>The new hash and its time, when a password is given.\<close>

definition new_password ::
    "('r, 'q) Server \<Rightarrow> UpdateUserRequest \<Rightarrow> ('r, 'q) ctx \<Rightarrow>
      (api_error, (string \<times> int) option) result \<times> ('r, 'q) ctx" where
  "new_password server req c =
     (if uur_Password req = None then (Inr None, c)
      else case env_call (HashPassword (lb_bcrypt (sv_libs server)) (GetPassword (Some req))) c of
          (Inl err, c1) \<Rightarrow> (Inl (PwErr err), c1)
        | (Inr hashedPassword, c1) \<Rightarrow>
            (case env_call time_now c1 of (now, c2) \<Rightarrow> (Inr (Some (hashedPassword, now)), c2)))"

definition updateUser :: "('r, 'q) Server \<Rightarrow> ('r, 'q) action" where
  "updateUser server c = MustGet c (\<lambda>authPayload.
     let no_permission = errorResponse (Msg ''no permission'') in
     if \<not> roleCheck (pay_Role authPayload) [BankerRole, DepositorRole]
     then Done (JSON 403 no_permission c)
     else
     (case ShouldBindJSON UpdateUserRequest_fields
             (UpdateUserRequest_binding (lb_validator (sv_libs server))) c of
        (Inl err, c1) \<Rightarrow> Done (JSON 400 (errorResponse err) c1)
      | (Inr req, c1) \<Rightarrow>
      let invalidRequest = validateUpdateUserRequest (lb_ParseAddress (sv_libs server)) req in
      if invalidRequest \<noteq> [] then Done (JSON 400 (Violations invalidRequest) c1)
      else if pay_Role authPayload \<noteq> BankerRole \<and>
              pay_Username authPayload \<noteq> GetUsername (Some req)
      then Done (JSON 403 no_permission c1)
      else
     (case new_password server req c1 of
        (Inl err, c2) \<Rightarrow> Done (JSON 401 (errorResponse err) c2)
      | (Inr pw, c2) \<Rightarrow>
     (case store_call (exec_auto (UpdateUser
             \<lparr>uup_hashed_password = map_option fst pw,
              uup_password_changed_at = map_option snd pw,
              uup_full_name = pg_text (GetFullName (Some req)) (uur_FullName req \<noteq> None),
              uup_email = pg_text (GetEmail (Some req)) (uur_Email req \<noteq> None),
              uup_username = GetUsername (Some req)\<rparr>)) c2 of
        (Inl err, c3) \<Rightarrow>
          if err = ErrRecordNotFound then Done (JSON 404 (errorResponse (DbErr err)) c3)
          else Done (JSON 500 (errorResponse (DbErr err)) c3)
      | (Inr u, c3) \<Rightarrow> Done (JSON 200 (UserReply (newUserResponse u)) c3)))))"

end
