(* ===== verification/Api_OAuth.thy ===== *)
theory Api_OAuth
  imports Session
begin

section \<open>Login with Google (api/oauth.go)\<close>

text \<open>
  The two requests to Google and the handler that turns their answers into a user and a
  session. The HTTP client is a parameter: what comes back is arbitrary. A type assertion
  on a field that is missing or not a string panics.
\<close>

datatype 'a attempt = Returns "(api_error, 'a) result" | Panics

record GoogleOauthToken =
  got_Access_token :: string
  got_Id_token :: string

record GoogleUserResult =
  gu_Email :: string
  gu_Name :: string
  gu_Given_name :: string
  gu_Family_name :: string

text \<open>\<open>json.Unmarshal\<close> into a map: the last value of a name stays.\<close>

definition string_value :: "(string \<times> json) list \<Rightarrow> string \<Rightarrow> string option" where
  "string_value fs key = (case map_of (rev fs) key of Some (JString s) \<Rightarrow> Some s | _ \<Rightarrow> None)"

text \<open>One request: the fields of the answer when it is a 200 with an object.\<close>

definition fetch ::
    "libs \<Rightarrow> string \<Rightarrow> string \<Rightarrow> (string \<times> string) list \<Rightarrow> string \<Rightarrow> string \<Rightarrow> env \<Rightarrow>
      (api_error, (string \<times> json) list) result \<times> env" where
  "fetch lib meth url headers content failure e =
     (case draw e of (r, e') \<Rightarrow>
       (case lb_http lib meth url headers content r of
          NoResponse \<Rightarrow> Inl HttpErr
        | Response code res \<Rightarrow>
            if code \<noteq> 200 then Inl (Msg failure)
            else case res of
                   None \<Rightarrow> Inl HttpErr
                 | Some b \<Rightarrow> (case Unmarshal b of None \<Rightarrow> Inl BindErr | Some fs \<Rightarrow> Inr fs),
        e'))"

definition GetGoogleOauthToken :: "libs \<Rightarrow> Config \<Rightarrow> string \<Rightarrow> env \<Rightarrow> GoogleOauthToken attempt \<times> env" where
  "GetGoogleOauthToken lib conf code e =
     (let query = lb_query lib
        [(''grant_type'', ''authorization_code''), (''code'', code),
         (''client_id'', GoogleClientID conf), (''client_secret'', GoogleClientSecret conf),
         (''redirect_uri'', GoogleOAuthRedirectUrl conf)]
      in case fetch lib ''POST'' ''https://oauth2.googleapis.com/token''
                [(''Content-Type'', ''application/x-www-form-urlencoded'')] query
                ''could not retrieve token'' e of
           (Inl err, e') \<Rightarrow> (Returns (Inl err), e')
         | (Inr fs, e') \<Rightarrow>
             (case (string_value fs ''access_token'', string_value fs ''id_token'') of
                (Some a, Some i) \<Rightarrow> Returns (Inr \<lparr>got_Access_token = a, got_Id_token = i\<rparr>)
              | _ \<Rightarrow> Panics, e'))"

definition GetGoogleUser :: "libs \<Rightarrow> string \<Rightarrow> string \<Rightarrow> env \<Rightarrow> GoogleUserResult attempt \<times> env" where
  "GetGoogleUser lib access_token id_token e =
     (case fetch lib ''GET''
             (''https://www.googleapis.com/oauth2/v1/userinfo?alt=json&access_token='' @ access_token)
             [(''Authorization'', ''Bearer '' @ id_token)] [] ''could not retrieve user'' e of
        (Inl err, e') \<Rightarrow> (Returns (Inl err), e')
      | (Inr fs, e') \<Rightarrow>
          (case (string_value fs ''email'', string_value fs ''name'',
                 string_value fs ''given_name'', string_value fs ''family_name'') of
             (Some m, Some n, Some g, Some f) \<Rightarrow>
               Returns (Inr \<lparr>gu_Email = m, gu_Name = n, gu_Given_name = g, gu_Family_name = f\<rparr>)
           | _ \<Rightarrow> Panics, e'))"

definition Query :: "('r, 'q) ctx \<Rightarrow> string \<Rightarrow> string" where
  "Query c key = (case rq_query (c_request c) key of None \<Rightarrow> [] | Some s \<Rightarrow> s)"

definition google_user_params :: "GoogleUserResult \<Rightarrow> UpsertUserParams" where
  "google_user_params googleUser =
     \<lparr>up_username = gu_Name googleUser @ ''-google'', up_hashed_password = [],
      up_full_name = gu_Given_name googleUser @ '' '' @ gu_Family_name googleUser,
      up_email = gu_Email googleUser, up_provider = ''Google''\<rparr>"

definition googleOAuth :: "('r, 'q) Server \<Rightarrow> ('r, 'q) action" where
  "googleOAuth server c =
     (let code = Query c ''code'';
          pathUrl = (if Query c ''state'' \<noteq> [] then Query c ''state'' else ''/'')
      in if code = []
      then Done (JSON 401 (errorResponse (Msg ''authorization code not provided'')) c)
      else
     (case env_call (GetGoogleOauthToken (sv_libs server) (sv_config server) code) c of
        (Panics, c1) \<Rightarrow> Panicked c1
      | (Returns (Inl err), c1) \<Rightarrow> Done (JSON 502 (errorResponse err) c1)
      | (Returns (Inr tokenRes), c1) \<Rightarrow>
     (case env_call (GetGoogleUser (sv_libs server) (got_Access_token tokenRes)
             (got_Id_token tokenRes)) c1 of
        (Panics, c2) \<Rightarrow> Panicked c2
      | (Returns (Inl err), c2) \<Rightarrow> Done (JSON 502 (errorResponse err) c2)
      | (Returns (Inr googleUser), c2) \<Rightarrow>
     (case store_call (exec_auto (UpsertUser (google_user_params googleUser))) c2 of
        (Inl err, c3) \<Rightarrow>
          if ErrorCode err = UniqueViolation then Done (JSON 409 (errorResponse (DbErr err)) c3)
          else Done (JSON 500 (errorResponse (DbErr err)) c3)
      | (Inr u, c3) \<Rightarrow>
     (case env_call (CreateToken (sv_tokenMaker server) (usr_username u) (usr_role u)
             (AccessTokenDuration (sv_config server))) c3 of
        (Inl err, c4) \<Rightarrow> Done (JSON 500 (errorResponse (TokErr err)) c4)
      | (Inr (accessToken, _), c4) \<Rightarrow>
     (case open_session server (usr_username u) c4 of
        (False, c5) \<Rightarrow> Done (JSON 500 (errorResponse
            (Msg ''failed to set session in redis when logging in'')) c5)
      | (True, c5) \<Rightarrow>
          let c6 = set_access_cookie server accessToken c5 in
          (case AllowedOrigins (sv_config server) of
             [] \<Rightarrow> Panicked c6
           | origin # _ \<Rightarrow> Done (Redirect 307 (origin @ pathUrl) c6))))))))"

definition testGoogleOAuth :: "('r, 'q) Server \<Rightarrow> ('r, 'q) action" where
  "testGoogleOAuth server c =
     (let from = (case rq_query (c_request c) ''from'' of
                    None \<Rightarrow> ''/api/users/logout'' | Some s \<Rightarrow> s);
          v = lb_query (sv_libs server)
            [(''redirect_uri'', GoogleOAuthRedirectUrl (sv_config server)),
             (''client_id'', GoogleClientID (sv_config server)),
             (''access_type'', ''offline''), (''response_type'', ''code''),
             (''prompt'', ''consent''),
             (''scope'', ''https://www.googleapis.com/auth/userinfo.profile '' @
                ''https://www.googleapis.com/auth/userinfo.email''),
             (''state'', from)]
      in Done (Redirect 302 (''https://accounts.google.com/o/oauth2/v2/auth'' @ ''?'' @ v) c))"

end
