(* ===== verification/Server.thy ===== *)
theory Server
  imports Api_Account Api_Transfer Api_User Api_OAuth
begin

section \<open>The server and its routes (api/server.go)\<close>

text \<open>
  \<open>NewServer\<close> and the table of routes it registers, with the middleware of each group, and
  \<open>handle\<close>, a request from its path to the response. Of gin's router the documented
  behaviour is used: a path without parameters wins over one with them, and a path that
  is not registered is answered with 404. The settings of the CORS package are data; what
  the package does with them is left out.
\<close>

definition NewServer ::
    "libs \<Rightarrow> paseto \<Rightarrow> Config \<Rightarrow> 'r kv_store \<Rightarrow> 'q asynq_client \<Rightarrow>
      (token_error, ('r, 'q) Server) result" where
  "NewServer lib pas conf kvStore taskDistributor =
     (case NewPasetoMaker pas (TokenSymmetricKey conf) of
        Inl err \<Rightarrow> Inl err
      | Inr tokenMaker \<Rightarrow> Inr \<lparr>sv_config = conf, sv_tokenMaker = tokenMaker,
          sv_kvStore = kvStore, sv_asynq = taskDistributor, sv_libs = lib\<rparr>)"

subsection \<open>The routes\<close>

datatype segment = Lit string | Param string

record ('r, 'q) route =
  rt_method :: string
  rt_path :: "segment list"
  rt_handlers :: "('r, 'q) handler list"

definition auth_chain :: "('r, 'q) Server \<Rightarrow> ('r, 'q) handler list" where
  "auth_chain server = [csrfVerifyMiddleware (lb_csrf (sv_libs server)), plain csrfTokenMiddleware,
     authMiddleware (sv_tokenMaker server)]"

definition api_route ::
    "string \<Rightarrow> segment list \<Rightarrow> ('r, 'q) handler list \<Rightarrow> ('r, 'q) route" where
  "api_route meth path hs = \<lparr>rt_method = meth, rt_path = Lit ''api'' # path, rt_handlers = hs\<rparr>"

definition auth_route ::
    "('r, 'q) Server \<Rightarrow> string \<Rightarrow> segment list \<Rightarrow> ('r, 'q) handler list \<Rightarrow> ('r, 'q) route" where
  "auth_route server meth path hs = api_route meth (Lit ''auth'' # path) (auth_chain server @ hs)"

definition fetch_csrf :: "('r, 'q) action" where
  "fetch_csrf c = Done (JSON 200 (Message ''fetch csrf token successfully'') c)"

definition rate_limit :: "('r, 'q) Server \<Rightarrow> string \<Rightarrow> int \<Rightarrow> int \<Rightarrow> ('r, 'q) handler" where
  "rate_limit server = (\<lambda>apiName.
     rateLimitMiddleware (lb_RFC3339 (sv_libs server)) apiName (sv_kvStore server))"

definition test_payload :: Payload where
  "test_payload = \<lparr>pay_ID = [], pay_Username = ''test'', pay_Role = [],
     pay_IssuedAt = zero_time, pay_ExpiredAt = zero_time\<rparr>"

definition set_test_payload :: "('r, 'q) handler" where
  "set_test_payload next c = next (c\<lparr>c_payload := Some test_payload\<rparr>)"

definition routes :: "('r, 'q) Server \<Rightarrow> ('r, 'q) route list" where
  "routes server =
     (let bound = APILimitBound (sv_config server); d = APILimitDuration (sv_config server);
          g = lb_gotp (sv_libs server); kv = sv_kvStore server
      in
     [api_route ''POST'' [Lit ''users''] [plain (createUser server)],
      api_route ''POST'' [Lit ''users'', Lit ''login''] [plain (loginUser server)],
      api_route ''GET'' [Lit ''tokens'', Lit ''renew_access''] [plain (renewAccessToken server)],
      api_route ''GET'' [Lit ''users'', Lit ''logout''] [plain (logoutUser server)],
      auth_route server ''GET'' [Lit ''users'', Lit ''update''] [plain fetch_csrf],
      auth_route server ''PATCH'' [Lit ''users'', Lit ''update''] [plain (updateUser server)],
      auth_route server ''GET'' [Lit ''users'', Lit ''me''] [plain (getUser server)],
      auth_route server ''GET'' [Lit ''accounts''] [plain fetch_csrf],
      auth_route server ''POST'' [Lit ''accounts''] [plain (createAccount server)],
      auth_route server ''GET'' [Lit ''accounts'', Param ''id''] [plain (getAccount server)],
      auth_route server ''GET'' [Lit ''accounts'', Lit ''all''] [plain (listAccounts server)],
      auth_route server ''GET'' [Lit ''transfers'', Lit ''sendOTP'']
        [rate_limit server ''sendOTP'' bound d, plain (sendOTP server)],
      auth_route server ''GET'' [Lit ''transfers''] [plain fetch_csrf],
      auth_route server ''POST'' [Lit ''transfers'']
        [rate_limit server ''verifyOTP'' bound d, verifyOTPMiddleware g kv d,
         plain (createTransfer server)],
      api_route ''GET'' [Lit ''stress_test'']
        [set_test_payload, rate_limit server ''test'' 1000 (30 * 1000000000)],
      api_route ''GET'' [Lit ''oauth'', Lit ''google''] [plain (googleOAuth server)],
      api_route ''GET'' [Lit ''test'', Lit ''oauth'', Lit ''google''] [plain (testGoogleOAuth server)]])"

subsection \<open>A request\<close>

fun match_path :: "segment list \<Rightarrow> string list \<Rightarrow> (string \<times> string) list option" where
  "match_path [] [] = Some []"
| "match_path (Lit a # ps) (s # ss) = (if a = s then match_path ps ss else None)"
| "match_path (Param n # ps) (s # ss) =
     (if s = [] then None else map_option (\<lambda>m. (n, s) # m) (match_path ps ss))"
| "match_path _ _ = None"

definition literal :: "segment list \<Rightarrow> bool" where
  "literal ps \<longleftrightarrow> list_all (\<lambda>p. case p of Lit _ \<Rightarrow> True | Param _ \<Rightarrow> False) ps"

definition matches :: "string \<Rightarrow> string list \<Rightarrow> ('r, 'q) route \<Rightarrow> bool" where
  "matches meth path rt \<longleftrightarrow> rt_method rt = meth \<and> match_path (rt_path rt) path \<noteq> None"

definition find_route ::
    "('r, 'q) route list \<Rightarrow> string \<Rightarrow> string list \<Rightarrow> ('r, 'q) route option" where
  "find_route rts meth path =
     (case filter (\<lambda>rt. matches meth path rt \<and> literal (rt_path rt)) rts of
        rt # _ \<Rightarrow> Some rt
      | [] \<Rightarrow> (case filter (matches meth path) rts of rt # _ \<Rightarrow> Some rt | [] \<Rightarrow> None))"

record ('r, 'q) services =
  sr_pool :: pool
  sr_kv :: 'r
  sr_queue :: 'q
  sr_env :: env

definition new_ctx :: "request \<Rightarrow> ('r, 'q) services \<Rightarrow> ('r, 'q) ctx" where
  "new_ctx req s = \<lparr>c_request = req, c_body = rq_body req, c_payload = None, c_csrf = [],
     c_aborted = False, c_finished = False, c_writes = [], c_headers = [], c_cookies = [],
     c_lax = False, c_pool = sr_pool s, c_kv = sr_kv s, c_queue = sr_queue s, c_env = sr_env s\<rparr>"

definition bind_params :: "segment list \<Rightarrow> string list \<Rightarrow> request \<Rightarrow> request" where
  "bind_params pat path req = (case match_path pat path of
       None \<Rightarrow> req
     | Some m \<Rightarrow> req\<lparr>rq_params := (\<lambda>n. case map_of m n of None \<Rightarrow> [] | Some v \<Rightarrow> v)\<rparr>)"

definition handle ::
    "('r, 'q) Server \<Rightarrow> string \<Rightarrow> string list \<Rightarrow> request \<Rightarrow> ('r, 'q) services \<Rightarrow> ('r, 'q) ctx" where
  "handle server meth path req s =
     (case find_route (routes server) meth path of
        None \<Rightarrow> JSON 404 (PlainText ''404 page not found'') (new_ctx req s)
      | Some rt \<Rightarrow> serve (rt_handlers rt) (new_ctx (bind_params (rt_path rt) path req) s))"

lemma find_route_Some:
  assumes "find_route rts meth path = Some rt"
  shows "rt \<in> set rts \<and> matches meth path rt"
proof -
  have "rt \<in> set (filter (matches meth path) rts)"
    using assms by (auto simp: find_route_def split: list.splits dest: filter_eq_ConsD)
  then show ?thesis by simp
qed

subsection \<open>Settings of CORS and the HTTP server\<close>

record cors_Config =
  co_AllowOrigins :: "string list"
  co_AllowMethods :: "string list"
  co_AllowHeaders :: "string list"
  co_AllowCredentials :: bool
  co_ExposeHeaders :: "string list"
  co_MaxAge :: int

definition cors_config :: "Config \<Rightarrow> cors_Config" where
  "cors_config conf = \<lparr>
     co_AllowOrigins = AllowedOrigins conf,
     co_AllowMethods = [''HEAD'', ''OPTIONS'', ''GET'', ''POST'', ''PUT'', ''PATCH'', ''DELETE''],
     co_AllowHeaders = [''Content-Type'', ''Authorization'', ''X-CSRF-Token''],
     co_AllowCredentials = True,
     co_ExposeHeaders = [''X-RateLimit-Limit'', ''X-RateLimit-Remaining'', ''X-RateLimit-Reset'',
       ''X-RateLimit-Retry-After'', ''X-CSRF-Token''],
     co_MaxAge = 12 * 3600 * 1000000000\<rparr>"

record ('r, 'q) http_Server =
  hs_Handler :: "('r, 'q) route list"
  hs_Addr :: string

definition New :: "('r, 'q) Server \<Rightarrow> string \<Rightarrow> ('r, 'q) http_Server" where
  "New server address = \<lparr>hs_Handler = routes server, hs_Addr = address\<rparr>"

text \<open>
  Every method of a route is allowed, and every header that the limiter adds to a response
  is one a browser may read.
\<close>

lemma cors_covers_routes: "list_all (\<lambda>rt. rt_method rt \<in> set (co_AllowMethods (cors_config conf))) (routes server)"
  by (simp add: routes_def Let_def api_route_def auth_route_def cors_config_def)

lemma cors_covers_limiter:
  "fst ` set (c_headers (rate_headers rfc m count reset c)) \<subseteq>
    fst ` set (c_headers c) \<union> set (co_ExposeHeaders (cors_config conf))"
  by (auto simp: rate_headers_def Header_def cors_config_def)

end
