(* ===== verification/Chains.thy ===== *)
theory Chains
  imports Gin
begin

section \<open>Relations that a chain of handlers keeps\<close>

text \<open>
  A relation between the context before and after a handler that is reflexive and
  transitive, and blind to the end of the chain and to the recovery from a panic, holds for
  a whole request when it holds for each of its handlers. A handler gets the rest of the
  chain as an argument, so it has to keep the relation for every rest that does.
\<close>

fun after :: "'c outcome \<Rightarrow> 'c" where
  "after (Done c) = c"
| "after (Panicked c) = c"

definition action_in :: "(('r, 'q) ctx \<Rightarrow> ('r, 'q) ctx \<Rightarrow> bool) \<Rightarrow> ('r, 'q) action \<Rightarrow> bool" where
  "action_in R f \<longleftrightarrow> (\<forall>c. R c (after (f c)))"

definition handler_in :: "(('r, 'q) ctx \<Rightarrow> ('r, 'q) ctx \<Rightarrow> bool) \<Rightarrow> ('r, 'q) handler \<Rightarrow> bool" where
  "handler_in R h \<longleftrightarrow> (\<forall>next. action_in R next \<longrightarrow> action_in R (h next))"

lemma handler_inI: "(\<And>next c. action_in R next \<Longrightarrow> R c (after (h next c))) \<Longrightarrow> handler_in R h"
  by (simp add: handler_in_def action_in_def)

lemma action_inD: "action_in R f \<Longrightarrow> R c (after (f c))"
  by (simp add: action_in_def)

lemma plain_in: "action_in R f \<Longrightarrow> handler_in R (plain f)"
  by (simp add: handler_in_def action_in_def plain_def)

locale chain_rel =
  fixes R :: "('r, 'q) ctx \<Rightarrow> ('r, 'q) ctx \<Rightarrow> bool"
  assumes R_refl: "R c c"
    and R_trans: "R c c1 \<Longrightarrow> R c1 c2 \<Longrightarrow> R c c2"
    and R_finished: "R c (c\<lparr>c_finished := True\<rparr>)"
    and R_recovered: "R c (JSON 500 Empty (Abort c))"
begin

lemma run_chain_in: "\<forall>h\<in>set hs. handler_in R h \<Longrightarrow> action_in R (run_chain hs)"
proof (induction hs)
  case Nil
  show ?case by (simp add: action_in_def R_finished)
next
  case (Cons h hs)
  then have h: "action_in R (h (run_chain hs))" and r: "action_in R (run_chain hs)"
    by (simp_all add: handler_in_def)
  have "R c (after (run_chain (h # hs) c))" for c
    using action_inD [OF h, of c]
    by (cases "h (run_chain hs) c") (auto intro: R_refl R_trans action_inD [OF r])
  then show ?case by (simp add: action_in_def)
qed

lemma serve_in: "\<forall>h\<in>set hs. handler_in R h \<Longrightarrow> R c (serve hs c)"
  using action_inD [OF run_chain_in, of hs c]
  by (cases "run_chain hs c") (auto simp: serve_def intro: R_trans R_recovered)

end

end
