(* ===== verification/Api_Frame.thy ===== *)
theory Api_Frame
  imports Server Chains
begin

section \<open>What a request does to the database\<close>

text \<open>
  The frame of every call a handler makes, and the locale \<open>request_keeps\<close>: a relation
  between databases that the statements of the handlers keep is kept by every request,
  whatever fails on the way. It is interpreted by the invariants of the bank.
\<close>

subsection \<open>Frames of the calls\<close>

named_theorems frame_simps \<open>what a call leaves as it is\<close>

abbreviation db_of :: "('r, 'q) ctx \<Rightarrow> db" where
  "db_of c \<equiv> pl_db (c_pool c)"

lemma kv_call_frame [frame_simps]:
  "c_pool (snd (kv_call f c)) = c_pool c" "c_payload (snd (kv_call f c)) = c_payload c"
  "c_request (snd (kv_call f c)) = c_request c" "c_writes (snd (kv_call f c)) = c_writes c"
  "c_queue (snd (kv_call f c)) = c_queue c" "c_env (snd (kv_call f c)) = c_env c"
  "c_cookies (snd (kv_call f c)) = c_cookies c" "c_body (snd (kv_call f c)) = c_body c"
  "c_aborted (snd (kv_call f c)) = c_aborted c" "c_finished (snd (kv_call f c)) = c_finished c"
  "c_headers (snd (kv_call f c)) = c_headers c"
  by (simp_all add: kv_call_def split_beta)

lemma kv_call_state [frame_simps]:
  "c_kv (snd (kv_call f c)) = snd (f (c_kv c))" "fst (kv_call f c) = fst (f (c_kv c))"
  by (simp_all add: kv_call_def split_beta)

lemma env_call_frame [frame_simps]:
  "c_pool (snd (env_call g c)) = c_pool c" "c_payload (snd (env_call g c)) = c_payload c"
  "c_request (snd (env_call g c)) = c_request c" "c_writes (snd (env_call g c)) = c_writes c"
  "c_queue (snd (env_call g c)) = c_queue c" "c_kv (snd (env_call g c)) = c_kv c"
  "c_cookies (snd (env_call g c)) = c_cookies c" "c_body (snd (env_call g c)) = c_body c"
  "c_aborted (snd (env_call g c)) = c_aborted c" "c_finished (snd (env_call g c)) = c_finished c"
  "c_headers (snd (env_call g c)) = c_headers c"
  "c_env (snd (env_call g c)) = snd (g (c_env c))" "fst (env_call g c) = fst (g (c_env c))"
  by (simp_all add: env_call_def split_beta)

lemma queue_call_frame [frame_simps]:
  "c_pool (snd (queue_call h c)) = c_pool c" "c_payload (snd (queue_call h c)) = c_payload c"
  "c_kv (snd (queue_call h c)) = c_kv c" "c_writes (snd (queue_call h c)) = c_writes c"
  by (simp_all add: queue_call_def split_beta)

lemma store_call_frame [frame_simps]:
  "c_payload (snd (store_call st c)) = c_payload c" "c_request (snd (store_call st c)) = c_request c"
  "c_writes (snd (store_call st c)) = c_writes c" "c_queue (snd (store_call st c)) = c_queue c"
  "c_kv (snd (store_call st c)) = c_kv c" "c_env (snd (store_call st c)) = c_env c"
  "c_cookies (snd (store_call st c)) = c_cookies c" "c_body (snd (store_call st c)) = c_body c"
  "c_aborted (snd (store_call st c)) = c_aborted c" "c_finished (snd (store_call st c)) = c_finished c"
  "c_pool (snd (store_call st c)) = snd (st (c_pool c))" "fst (store_call st c) = fst (st (c_pool c))"
  by (simp_all add: store_call_def split_beta)

lemma exec_select_db [frame_simps]: "pl_db (snd (exec_auto (select q) p)) = pl_db p"
  using exec_auto_select [of q p] by (metis prod.collapse)

lemma exec_faults [frame_simps]: "pl_faults (snd (exec_auto st p)) = pl_faults p"
  by (auto simp: exec_auto_def split_beta split: fault.split)

lemma exec_select_Inr: "fst (exec_auto (select q) p) = Inr x \<Longrightarrow> q (pl_db p) = Inr x"
  using exec_auto_InrD [of "select q" p x] by (cases "exec_auto (select q) p") (auto simp: select_def)

lemma bind_frame [frame_simps]:
  "snd (ShouldBindJSON d b c) = c\<lparr>c_body := NoBody\<rparr>" "snd (GetRawData c) = c\<lparr>c_body := NoBody\<rparr>"
  "fst (GetRawData c) = c_body c"
  by (simp_all add: ShouldBindJSON_def GetRawData_def)

lemma ShouldBindJSON_Inr:
  "fst (ShouldBindJSON d b c) = Inr req \<Longrightarrow>
    \<exists>fs. Decode (c_body c) = Some fs \<and> d fs = Some req \<and> b req"
  by (auto simp: ShouldBindJSON_def bind_eq_Some_conv split: option.splits if_splits)

lemma session_frame [frame_simps]:
  "c_pool (snd (set_session server i u c)) = c_pool c" "c_pool (snd (del_session server i c)) = c_pool c"
  "c_pool (set_sid_cookie server i c) = c_pool c" "c_pool (set_access_cookie server t c) = c_pool c"
  "c_pool (clear_cookie n c) = c_pool c" "c_pool (snd (open_session server u c)) = c_pool c"
  by (simp_all add: set_session_def del_session_def set_sid_cookie_def set_access_cookie_def
      clear_cookie_def open_session_def Let_def split_beta frame_simps)

lemma validAccount_frame [frame_simps]: "db_of (snd (validAccount i cur c)) = db_of c"
  by (auto simp: validAccount_def split_beta frame_simps split: sum.split)

lemma validAccount_Some:
  "fst (validAccount i cur c) = Some a \<Longrightarrow>
    GetAccount i (db_of c) = Inr a \<and> acc_currency a = cur \<and>
    snd (validAccount i cur c) = snd (store_call (exec_auto (select (GetAccount i))) c)"
  by (auto simp: validAccount_def split_beta frame_simps exec_select_Inr split: sum.splits if_splits)

subsection \<open>Chains\<close>

locale request_keeps = validator_package "lb_validator lib"
  for lib :: libs +
  fixes keeps :: "db \<Rightarrow> db \<Rightarrow> bool"
  assumes keeps_refl: "keeps d d"
    and keeps_trans: "keeps d d1 \<Longrightarrow> keeps d1 d2 \<Longrightarrow> keeps d d2"
    and keeps_CreateAccount: "cap_balance ap = 0 \<Longrightarrow> IsSupportedCurrency (cap_currency ap) \<Longrightarrow>
      keeps d (snd (CreateAccount ap d))"
    and keeps_CreateUser: "list_all is_alnum (cup_username cp) \<Longrightarrow> keeps d (snd (CreateUser cp d))"
    and keeps_UpdateUser: "list_all is_alnum (uup_username wp) \<Longrightarrow> keeps d (snd (UpdateUser wp d))"
    and keeps_UpsertUser: "keeps d (snd (UpsertUser (google_user_params gu) d))"
    and keeps_TransferTx: "0 < ttp_from_amount tp \<Longrightarrow> i64 (ttp_from_amount tp) \<Longrightarrow>
      GetAccount (ttp_from_account_id tp) (pl_db p) = Inr a \<Longrightarrow>
      GetAccount (ttp_to_account_id tp) (pl_db p) = Inr b \<Longrightarrow>
      GetExchangeRate (acc_currency a) (pl_db p) = Inr x \<Longrightarrow>
      GetExchangeRate (acc_currency b) (pl_db p) = Inr y \<Longrightarrow>
      ttp_to_amount tp = exchanged (lb_oob lib) x y (ttp_from_amount tp) \<Longrightarrow>
      keeps (pl_db p) (pl_db (snd (TransferTx tp p)))"
begin

abbreviation keeps_db :: "('r, 'q) ctx \<Rightarrow> ('r, 'q) ctx \<Rightarrow> bool" where
  "keeps_db c c' \<equiv> keeps (db_of c) (db_of c')"

abbreviation action_keeps :: "('r, 'q) action \<Rightarrow> bool" where
  "action_keeps \<equiv> action_in keeps_db"

abbreviation handler_keeps :: "('r, 'q) handler \<Rightarrow> bool" where
  "handler_keeps \<equiv> handler_in keeps_db"

lemmas action_keeps_def = action_in_def

lemma handler_keepsI:
  "(\<And>next c. action_keeps next \<Longrightarrow> keeps (db_of c) (db_of (after (h next c)))) \<Longrightarrow> handler_keeps h"
  by (rule handler_inI)

lemma keeps_next:
  "action_keeps next \<Longrightarrow> db_of c' = d \<Longrightarrow> keeps d (db_of (after (next c')))"
  using action_inD by metis

lemmas plain_keeps = plain_in [of keeps_db]

lemma chain_keeps: "chain_rel keeps_db"
  by unfold_locales (auto intro: keeps_refl keeps_trans)

lemma serve_keeps: "\<forall>h\<in>set hs. handler_keeps h \<Longrightarrow> keeps (db_of c) (db_of (serve hs c))"
  by (rule chain_rel.serve_in [OF chain_keeps])

lemma exec_keeps:
  assumes "pl_db p = d" and "keeps d (snd (st d))"
  shows "keeps d (pl_db (snd (exec_auto st p)))"
  using assms exec_auto_keeps [of st p _ _ "keeps d"] keeps_refl
  by (cases "exec_auto st p") auto

subsection \<open>Middleware\<close>

lemma auth_keeps: "handler_keeps (authMiddleware maker :: ('r, 'q) handler)"
proof (rule handler_keepsI)
  fix "next" :: "('r, 'q) action" and c
  assume n: "action_keeps next"
  show "keeps (db_of c) (db_of (after (authMiddleware maker next c)))"
  proof (cases "presented c")
    case None
    then show ?thesis
      using auth_not_presented [of c maker "next"] by (auto simp: refused_def keeps_refl)
  next
    case (Some t)
    then show ?thesis using n
      by (auto simp: auth_presented auth_verify_cases AbortWithStatusJSON_def with_payload_def keeps_refl
          split: prod.split sum.split intro!: keeps_next)
  qed
qed

lemma csrf_keeps: "handler_keeps (csrfVerifyMiddleware csrf)" "action_keeps csrfTokenMiddleware"
  by (auto simp: csrfVerifyMiddleware_def csrfTokenMiddleware_def action_keeps_def keeps_refl
      split: sum.split intro!: handler_keepsI keeps_next)

lemma otp_keeps: "handler_keeps (verifyOTPMiddleware g kv d :: ('r, 'q) handler)"
proof (rule handler_keepsI)
  fix "next" :: "('r, 'q) action" and c
  assume n: "action_keeps next"
  have ran: "keeps e (db_of (after (case next c' of Panicked c3 \<Rightarrow> Panicked c3
      | Done c3 \<Rightarrow> Done (snd (kv_call f c3)))))" if "db_of c' = e" for e c' and f :: "'r \<Rightarrow> kv_error option \<times> 'r"
    using keeps_next [OF n that] by (auto simp: frame_simps split: outcome.split)
  show "keeps (db_of c) (db_of (after (verifyOTPMiddleware g kv d next c)))"
    by (auto simp: verifyOTPMiddleware_def MustGet_def Let_def split_beta frame_simps keeps_refl
        split: option.split sum.split intro!: ran)
qed

lemma rate_limit_keeps: "handler_keeps (rateLimitMiddleware rfc api kv m w)"
  by (rule handler_keepsI)
    (auto simp: rateLimitMiddleware_def MustGet_def Let_def split_beta frame_simps keeps_refl
      rate_headers_def split: option.split sum.split intro!: keeps_next)

end

subsection \<open>From call to call\<close>

text \<open>
  A predicate on contexts through a handler that goes from call to call: one rule for each
  kind of call, its premises the context the call leaves and the two ways to go on.
\<close>

lemma store_then:
  assumes "P (snd (store_call st c))" and "\<And>err c'. P c' \<Longrightarrow> P (after (f err c'))"
    and "\<And>x c'. P c' \<Longrightarrow> P (after (g x c'))"
  shows "P (after (case store_call st c of (Inl err, c') \<Rightarrow> f err c' | (Inr x, c') \<Rightarrow> g x c'))"
  using assms by (cases "store_call st c") (auto split: sum.split)

lemma bind_then:
  assumes "P (c\<lparr>c_body := NoBody\<rparr>)" and "\<And>err c'. P c' \<Longrightarrow> P (after (f err c'))"
    and "\<And>x c'. P c' \<Longrightarrow> P (after (g x c'))"
  shows "P (after (case ShouldBindJSON d b c of (Inl err, c') \<Rightarrow> f err c' | (Inr x, c') \<Rightarrow> g x c'))"
  using assms bind_frame(1) [of d b c] by (cases "ShouldBindJSON d b c") (auto split: sum.split)

lemma valid_then:
  assumes "P (snd (validAccount i cur c))" and "\<And>a c'. P c' \<Longrightarrow> P (after (g a c'))"
  shows "P (after (case validAccount i cur c of (None, c') \<Rightarrow> Done c' | (Some a, c') \<Rightarrow> g a c'))"
  using assms by (cases "validAccount i cur c") (auto split: option.split)

lemma exchange_then:
  assumes "P (after (snd (currencyExchange oob f t n c)))" and "\<And>m c'. P c' \<Longrightarrow> P (after (g m c'))"
  shows "P (after (case currencyExchange oob f t n c of (None, out) \<Rightarrow> out
    | (Some m, Panicked c') \<Rightarrow> Panicked c' | (Some m, Done c') \<Rightarrow> g m c'))"
  using assms by (cases "currencyExchange oob f t n c") (auto split: option.split outcome.split)

subsection \<open>Handlers\<close>

lemma currencyExchange_frame [frame_simps]:
  "db_of (after (snd (currencyExchange oob f t n c))) = db_of c"
  by (auto simp: currencyExchange_def split_beta frame_simps split: sum.split)

lemma currencyExchange_Some:
  assumes "currencyExchange oob f t n c = (Some m, out)"
  shows "\<exists>x y c'. GetExchangeRate f (db_of c) = Inr x \<and> GetExchangeRate t (db_of c) = Inr y \<and>
    m = exchanged oob x y n \<and> out = Done c' \<and> db_of c' = db_of c \<and> c_payload c' = c_payload c \<and>
    pl_faults (c_pool c') = pl_faults (c_pool c)"
  using assms
  by (auto simp: currencyExchange_def split_beta frame_simps dest!: exec_select_Inr
      split: sum.splits if_splits)

lemma transferRequest_i64:
  "transferRequest_fields fs = Some req \<Longrightarrow> i64 (trq_Amount req)"
  using int64_field_fits [of "''amount''" 0 fs]
  by (auto simp: transferRequest_fields_def bind_eq_Some_conv i64_iff)

text \<open>
  What \<open>createTransfer\<close> does to the database: nothing, or one \<open>TransferTx\<close> out of an account
  of the caller, in its currency, with the exchanged amount.
\<close>

definition transfer_of :: "libs \<Rightarrow> ('r, 'q) ctx \<Rightarrow> TransferTxParams \<Rightarrow> bool" where
  "transfer_of lib c arg \<longleftrightarrow> (\<exists>fs req payload a b x y.
     Decode (c_body c) = Some fs \<and> transferRequest_fields fs = Some req \<and>
     transferRequest_binding (lb_validator lib) req \<and>
     c_payload c = Some payload \<and>
     GetAccount (trq_FromAccountID req) (db_of c) = Inr a \<and> acc_owner a = pay_Username payload \<and>
     acc_currency a = trq_Currency req \<and>
     GetAccount (trq_ToAccountID req) (db_of c) = Inr b \<and>
     GetExchangeRate (acc_currency a) (db_of c) = Inr x \<and>
     GetExchangeRate (acc_currency b) (db_of c) = Inr y \<and>
     arg = \<lparr>ttp_from_account_id = trq_FromAccountID req, ttp_to_account_id = trq_ToAccountID req,
            ttp_from_amount = trq_Amount req,
            ttp_to_amount = exchanged (lb_oob lib) x y (trq_Amount req)\<rparr>)"

definition answered :: "('r, 'q) ctx \<Rightarrow> ('r, 'q) ctx \<Rightarrow> int \<Rightarrow> reply \<Rightarrow> bool" where
  "answered c c' code r \<longleftrightarrow> c_writes c' = c_writes c @ [(code, r)]"

definition refusal :: "('r, 'q) ctx \<Rightarrow> ('r, 'q) ctx outcome \<Rightarrow> bool" where
  "refusal c out \<longleftrightarrow> db_of (after out) = db_of c \<and>
     (\<forall>c'. out = Done c' \<longrightarrow> (\<exists>code e. code \<noteq> 200 \<and> answered c c' code (Error e)))"

lemma refusal_JSON:
  "db_of c' = db_of c \<Longrightarrow> c_writes c' = c_writes c \<Longrightarrow> code \<noteq> 200 \<Longrightarrow>
    refusal c (Done (JSON code (errorResponse e) c'))"
  by (simp add: refusal_def answered_def errorResponse_def)

lemma validAccount_None:
  "validAccount i cur c = (None, c') \<Longrightarrow> refusal c (Done c')"
  by (auto simp: validAccount_def split_beta frame_simps split: sum.splits if_splits intro!: refusal_JSON)

lemma currencyExchange_None:
  "currencyExchange oob f t n c = (None, out) \<Longrightarrow> refusal c out"
  by (auto simp: currencyExchange_def split_beta frame_simps split: sum.splits if_splits
      intro!: refusal_JSON) (simp add: refusal_def frame_simps)

lemma currencyExchange_writes:
  "currencyExchange oob f t n c = (Some m, Done c') \<Longrightarrow> c_writes c' = c_writes c"
  by (auto simp: currencyExchange_def split_beta frame_simps split: sum.splits if_splits)

lemma transfer_answer:
  assumes "TransferTx arg (c_pool c4) = (r, q)" and "c_writes c4 = c_writes c"
  shows "\<exists>c5. (case store_call (TransferTx arg) c4 of
       (Inl err, c5) \<Rightarrow>
         if err = ErrInsufficientBalance then Done (JSON 400 (errorResponse (DbErr err)) c5)
         else Done (JSON 500 (errorResponse (DbErr err)) c5)
     | (Inr res, c5) \<Rightarrow> Done (JSON 200 (TransferReply res) c5)) = Done c5 \<and> c_pool c5 = q \<and>
    (case r of
       Inl e \<Rightarrow> answered c c5 (if e = ErrInsufficientBalance then 400 else 500) (Error (DbErr e))
     | Inr res \<Rightarrow> answered c c5 200 (TransferReply res))"
proof -
  have "store_call (TransferTx arg) c4 = (r, c4\<lparr>c_pool := q\<rparr>)" using assms(1) by (simp add: store_call_def)
  with assms(2) show ?thesis by (cases r) (auto simp: answered_def errorResponse_def)
qed

text \<open>The handler up to its two accounts, and from there on.\<close>

definition transfer_rest ::
    "libs \<Rightarrow> transferRequest \<Rightarrow> account \<Rightarrow> account \<Rightarrow> ('r, 'q) ctx \<Rightarrow> ('r, 'q) ctx outcome" where
  "transfer_rest lib rq a b c =
     (case currencyExchange (lb_oob lib) (acc_currency a) (acc_currency b) (trq_Amount rq) c of
        (None, out) \<Rightarrow> out
      | (Some m, Panicked c4) \<Rightarrow> Panicked c4
      | (Some m, Done c4) \<Rightarrow>
          (case store_call (TransferTx \<lparr>ttp_from_account_id = trq_FromAccountID rq,
              ttp_to_account_id = trq_ToAccountID rq, ttp_from_amount = trq_Amount rq,
              ttp_to_amount = m\<rparr>) c4 of
             (Inl err, c5) \<Rightarrow>
               if err = ErrInsufficientBalance then Done (JSON 400 (errorResponse (DbErr err)) c5)
               else Done (JSON 500 (errorResponse (DbErr err)) c5)
           | (Inr res, c5) \<Rightarrow> Done (JSON 200 (TransferReply res) c5)))"

text \<open>The same rows, writes and faults to come.\<close>

definition unchanged :: "('r, 'q) ctx \<Rightarrow> ('r, 'q) ctx \<Rightarrow> bool" where
  "unchanged c c' \<longleftrightarrow> db_of c' = db_of c \<and> c_writes c' = c_writes c \<and>
     pl_faults (c_pool c') = pl_faults (c_pool c)"

lemma refusal_unchanged: "unchanged c c' \<Longrightarrow> refusal c' out \<Longrightarrow> refusal c out"
  by (auto simp: unchanged_def refusal_def answered_def)

definition transfer_run :: "libs \<Rightarrow> ('r, 'q) ctx \<Rightarrow> ('r, 'q) ctx outcome \<Rightarrow> bool" where
  "transfer_run lib c out \<longleftrightarrow> (\<exists>arg p r q c'. transfer_of lib c arg \<and> pl_db p = db_of c \<and>
     pl_faults p = pl_faults (c_pool c) \<and> TransferTx arg p = (r, q) \<and> out = Done c' \<and> c_pool c' = q \<and>
     (case r of
        Inl e \<Rightarrow> answered c c' (if e = ErrInsufficientBalance then 400 else 500) (Error (DbErr e))
      | Inr res \<Rightarrow> answered c c' 200 (TransferReply res)))"

lemma createTransfer_start:
  fixes server :: "('r, 'q) Server"
  shows "refusal c (createTransfer server c) \<or>
    (\<exists>fs rq p a b c3. Decode (c_body c) = Some fs \<and> transferRequest_fields fs = Some rq \<and>
      transferRequest_binding (lb_validator (sv_libs server)) rq \<and> c_payload c = Some p \<and>
      GetAccount (trq_FromAccountID rq) (db_of c) = Inr a \<and> acc_owner a = pay_Username p \<and>
      acc_currency a = trq_Currency rq \<and> GetAccount (trq_ToAccountID rq) (db_of c) = Inr b \<and>
      unchanged c c3 \<and> createTransfer server c = transfer_rest (sv_libs server) rq a b c3)"
    (is "?refused \<or> ?started")
proof -
  let ?bind = "ShouldBindJSON transferRequest_fields (transferRequest_binding (lb_validator (sv_libs server))) c"
  note run = createTransfer_def split_beta frame_simps
  consider (unbound) e where "fst ?bind = Inl e" | (bound) rq where "fst ?bind = Inr rq" by (cases "fst ?bind")
  then show ?thesis
  proof cases
    case unbound
    then have ?refused by (auto simp: run intro!: refusal_JSON)
    then show ?thesis ..
  next
    case (bound rq)
    let ?v = "validAccount (trq_FromAccountID rq) (trq_Currency rq) (c\<lparr>c_body := NoBody\<rparr>)"
    let ?t = "store_call (exec_auto (select (GetAccount (trq_ToAccountID rq)))) (snd ?v)"
    have v: "unchanged c (snd ?v)" "c_payload (snd ?v) = c_payload c" if "fst ?v = Some a" for a
      using validAccount_Some [OF that] by (simp_all add: unchanged_def frame_simps)
    consider (invalid) "fst ?v = None" | (no_payload) a where "fst ?v = Some a" "c_payload c = None"
      | (other) a p where "fst ?v = Some a" "c_payload c = Some p" "acc_owner a \<noteq> pay_Username p"
      | (no_target) a p e where "fst ?v = Some a" "c_payload c = Some p" "acc_owner a = pay_Username p" "fst ?t = Inl e"
      | (target) a p b where "fst ?v = Some a" "c_payload c = Some p" "acc_owner a = pay_Username p" "fst ?t = Inr b"
      by (cases "fst ?v"; cases "c_payload c"; cases "fst ?t") metis+
    then show ?thesis
    proof cases
      case invalid
      then have "refusal (c\<lparr>c_body := NoBody\<rparr>) (Done (snd ?v))" by (intro validAccount_None) (simp add: prod_eq_iff)
      with bound invalid have ?refused by (simp add: run refusal_def answered_def)
      then show ?thesis ..
    next
      case target
      have "GetAccount (trq_ToAccountID rq) (db_of c) = Inr b"
        using target(4) exec_select_Inr v(1) [OF target(1)] by (fastforce simp: frame_simps unchanged_def)
      moreover have "unchanged c (snd ?t)" using v(1) [OF target(1)] by (simp add: unchanged_def frame_simps)
      moreover have "createTransfer server c = transfer_rest (sv_libs server) rq a b (snd ?t)"
        using bound target v(2) [OF target(1)] by (simp add: run MustGet_def transfer_rest_def)
      ultimately have ?started
        using ShouldBindJSON_Inr [OF bound] validAccount_Some [OF target(1)] target(2,3) by auto
      then show ?thesis ..
    qed (use bound v in \<open>auto simp: run MustGet_def unchanged_def refusal_def answered_def errorResponse_def\<close>)
  qed
qed

lemma transfer_rest_cases:
  assumes "Decode (c_body c) = Some fs" and "transferRequest_fields fs = Some rq"
    and "transferRequest_binding (lb_validator lib) rq" and "c_payload c = Some p"
    and "GetAccount (trq_FromAccountID rq) (db_of c) = Inr a" and "acc_owner a = pay_Username p"
    and "acc_currency a = trq_Currency rq" and "GetAccount (trq_ToAccountID rq) (db_of c) = Inr b"
    and "unchanged c c3"
  shows "refusal c (transfer_rest lib rq a b c3) \<or> transfer_run lib c (transfer_rest lib rq a b c3)"
proof -
  let ?x = "currencyExchange (lb_oob lib) (acc_currency a) (acc_currency b) (trq_Amount rq) c3"
  show ?thesis
  proof (cases "fst ?x")
    case None
    then have "refusal c3 (snd ?x)" by (intro currencyExchange_None) (simp add: prod_eq_iff)
    with None refusal_unchanged [OF assms(9)] show ?thesis by (simp add: transfer_rest_def split_beta)
  next
    case (Some m)
    then have x: "?x = (Some m, snd ?x)" by (simp add: prod_eq_iff)
    from currencyExchange_Some [OF x] assms(9) obtain fr tr c4 where
      rates: "GetExchangeRate (acc_currency a) (db_of c) = Inr fr" "GetExchangeRate (acc_currency b) (db_of c) = Inr tr"
        "m = exchanged (lb_oob lib) fr tr (trq_Amount rq)"
      and c4: "snd ?x = Done c4" "db_of c4 = db_of c" "pl_faults (c_pool c4) = pl_faults (c_pool c)"
      by (auto simp: unchanged_def)
    let ?arg = "\<lparr>ttp_from_account_id = trq_FromAccountID rq, ttp_to_account_id = trq_ToAccountID rq,
      ttp_from_amount = trq_Amount rq, ttp_to_amount = m\<rparr>"
    have arg: "transfer_of lib c ?arg"
      unfolding transfer_of_def using assms(1-8) rates
      by (intro exI [of _ fs] exI [of _ rq] exI [of _ p] exI [of _ a] exI [of _ b] exI [of _ fr] exI [of _ tr]) simp
    have w: "c_writes c4 = c_writes c"
      using currencyExchange_writes x c4(1) assms(9) unfolding unchanged_def by metis
    obtain r q where tx: "TransferTx ?arg (c_pool c4) = (r, q)" by fastforce
    have "\<exists>c5. transfer_rest lib rq a b c3 = Done c5 \<and> c_pool c5 = q \<and> (case r of
         Inl e \<Rightarrow> answered c c5 (if e = ErrInsufficientBalance then 400 else 500) (Error (DbErr e))
       | Inr res \<Rightarrow> answered c c5 200 (TransferReply res))"
      using transfer_answer [OF tx w] x c4(1) by (simp add: transfer_rest_def)
    with arg tx c4(2,3) show ?thesis unfolding transfer_run_def by blast
  qed
qed

lemma createTransfer_cases:
  fixes server :: "('r, 'q) Server"
  shows "refusal c (createTransfer server c)
    \<or> (\<exists>arg p r q c'. transfer_of (sv_libs server) c arg \<and> pl_db p = db_of c \<and>
        pl_faults p = pl_faults (c_pool c) \<and> TransferTx arg p = (r, q) \<and> createTransfer server c = Done c' \<and> c_pool c' = q \<and>
        (case r of
           Inl e \<Rightarrow> answered c c' (if e = ErrInsufficientBalance then 400 else 500) (Error (DbErr e))
         | Inr res \<Rightarrow> answered c c' 200 (TransferReply res)))"
  using createTransfer_start [of c server]
proof (elim disjE exE conjE)
  fix fs rq p a b c3
  assume run: "createTransfer server c = transfer_rest (sv_libs server) rq a b c3"
    and facts: "Decode (c_body c) = Some fs" "transferRequest_fields fs = Some rq"
      "transferRequest_binding (lb_validator (sv_libs server)) rq" "c_payload c = Some p"
      "GetAccount (trq_FromAccountID rq) (db_of c) = Inr a" "acc_owner a = pay_Username p"
      "acc_currency a = trq_Currency rq" "GetAccount (trq_ToAccountID rq) (db_of c) = Inr b" "unchanged c c3"
  show ?thesis using transfer_rest_cases [OF facts] unfolding transfer_run_def run by blast
qed blast

context request_keeps
begin

lemma createAccount_keeps:
  assumes "sv_libs server = lib"
  shows "action_keeps (createAccount server)"
  unfolding action_keeps_def createAccount_def
  using keeps_CreateAccount
  by (auto simp: MustGet_def Let_def split_beta frame_simps keeps_refl assms
      createAccountRequest_binding_def validCurrency_def
      split: sum.split option.split intro!: exec_keeps dest!: ShouldBindJSON_Inr)

lemma getAccount_keeps: "action_keeps (getAccount server)"
  by (auto simp: action_keeps_def getAccount_def MustGet_def split_beta frame_simps keeps_refl
      split: sum.split option.split)

lemma listAccounts_keeps: "action_keeps (listAccounts server)"
  by (auto simp: action_keeps_def listAccounts_def MustGet_def split_beta frame_simps keeps_refl
      split: sum.split option.split)

lemma sendOTP_keeps: "action_keeps (sendOTP server)"
  by (auto simp: action_keeps_def sendOTP_def MustGet_def Let_def split_beta frame_simps keeps_refl
      split: option.split)

lemma createUser_keeps:
  assumes "sv_libs server = lib"
  shows "action_keeps (createUser server)"
  unfolding action_keeps_def createUser_def
  by (auto simp: split_beta frame_simps keeps_refl assms createUserRequest_binding_def alphanum
      split: sum.split intro!: exec_keeps keeps_CreateUser dest!: ShouldBindJSON_Inr)

lemma getUser_keeps: "action_keeps (getUser server)"
  by (auto simp: action_keeps_def getUser_def MustGet_def split_beta frame_simps keeps_refl
      split: sum.split option.split)

lemma loginUser_keeps: "action_keeps (loginUser server)"
  by (auto simp: action_keeps_def loginUser_def split_beta frame_simps keeps_refl
      split: sum.split option.split bool.split)

lemma logoutUser_keeps: "action_keeps (logoutUser server)"
  by (auto simp: action_keeps_def logoutUser_def Let_def split_beta frame_simps keeps_refl
      split: option.split bool.split)

lemma renewAccessToken_keeps: "action_keeps (renewAccessToken server)"
  by (auto simp: action_keeps_def renewAccessToken_def Let_def split_beta frame_simps keeps_refl
      split: sum.split option.split bool.split)

lemma new_password_frame: "db_of (snd (new_password server req c)) = db_of c"
  by (auto simp: new_password_def split_beta frame_simps split: sum.split)

lemma updateUser_keeps:
  assumes "sv_libs server = lib"
  shows "action_keeps (updateUser server)"
  by (auto simp: action_keeps_def updateUser_def MustGet_def Let_def split_beta frame_simps
      new_password_frame keeps_refl UpdateUserRequest_binding_def GetUsername_def alphanum assms
      split: sum.split option.split intro!: exec_keeps keeps_UpdateUser dest!: ShouldBindJSON_Inr)

lemma googleOAuth_keeps: "action_keeps (googleOAuth server)"
  by (auto simp: action_keeps_def googleOAuth_def Let_def split_beta frame_simps keeps_refl Redirect_def
      split: attempt.split sum.split list.split bool.split intro!: exec_keeps keeps_UpsertUser)

lemma testGoogleOAuth_keeps: "action_keeps (testGoogleOAuth server)"
  by (simp add: action_keeps_def testGoogleOAuth_def Let_def Redirect_def keeps_refl)

lemma createTransfer_keeps:
  assumes lib: "sv_libs server = lib"
  shows "action_keeps (createTransfer server)"
  unfolding action_keeps_def
proof
  fix c
  show "keeps (db_of c) (db_of (after (createTransfer server c)))"
    using createTransfer_cases [of c server]
  proof (elim disjE exE conjE)
    assume "refusal c (createTransfer server c)"
    then show ?thesis by (simp add: refusal_def keeps_refl)
  next
    fix arg p r q c'
    assume t: "transfer_of (sv_libs server) c arg" and p: "pl_db p = db_of c"
      and tx: "TransferTx arg p = (r, q)" and run: "createTransfer server c = Done c'" "c_pool c' = q"
    from t lib obtain rq fs a b x y where f: "transferRequest_fields fs = Some rq"
      "transferRequest_binding (lb_validator lib) rq"
      "GetAccount (trq_FromAccountID rq) (db_of c) = Inr a"
      "GetAccount (trq_ToAccountID rq) (db_of c) = Inr b"
      "GetExchangeRate (acc_currency a) (db_of c) = Inr x"
      "GetExchangeRate (acc_currency b) (db_of c) = Inr y"
      and arg: "arg = \<lparr>ttp_from_account_id = trq_FromAccountID rq, ttp_to_account_id = trq_ToAccountID rq,
            ttp_from_amount = trq_Amount rq,
            ttp_to_amount = exchanged (lb_oob lib) x y (trq_Amount rq)\<rparr>"
      by (auto simp: transfer_of_def)
    have "keeps (pl_db p) (pl_db (snd (TransferTx arg p)))"
      by (rule keeps_TransferTx [of arg p a b x y])
        (use f arg p transferRequest_i64 [OF f(1)] in \<open>simp_all add: transferRequest_binding_def gt_int\<close>)
    with tx run p show ?thesis by simp
  qed
qed

subsection \<open>Every request\<close>

definition route_keeps :: "('r, 'q) route \<Rightarrow> bool" where
  "route_keeps rt \<longleftrightarrow> list_all handler_keeps (rt_handlers rt)"

lemma route_keeps_simps:
  "route_keeps (api_route meth path hs) \<longleftrightarrow> list_all handler_keeps hs"
  "route_keeps (auth_route server meth path hs) \<longleftrightarrow> list_all handler_keeps hs"
  by (simp_all add: route_keeps_def auth_route_def api_route_def auth_chain_def auth_keeps
      csrf_keeps plain_keeps)

lemma fetch_csrf_keeps: "action_keeps fetch_csrf"
  by (simp add: action_keeps_def fetch_csrf_def keeps_refl)

lemma set_test_payload_keeps: "handler_keeps set_test_payload"
  by (rule handler_keepsI) (simp add: set_test_payload_def keeps_next)

lemmas all_keep = fetch_csrf_keeps set_test_payload_keeps otp_keeps rate_limit_keeps
  createAccount_keeps getAccount_keeps listAccounts_keeps sendOTP_keeps createUser_keeps
  getUser_keeps loginUser_keeps logoutUser_keeps renewAccessToken_keeps updateUser_keeps
  googleOAuth_keeps testGoogleOAuth_keeps createTransfer_keeps

lemma routes_keep:
  assumes "sv_libs server = lib"
  shows "list_all route_keeps (routes server)"
  by (simp add: routes_def Let_def rate_limit_def route_keeps_simps plain_keeps all_keep assms)

lemma handle_keeps:
  assumes "sv_libs server = lib"
  shows "keeps (pl_db (sr_pool s)) (db_of (handle server meth path req s))"
proof (cases "find_route (routes server) meth path")
  case None
  then show ?thesis by (simp add: handle_def new_ctx_def keeps_refl)
next
  case (Some rt)
  then have "route_keeps rt"
    using find_route_Some [OF Some] routes_keep [OF assms] by (auto simp: list_all_iff)
  then have "keeps (db_of c) (db_of (serve (rt_handlers rt) c))" for c
    by (intro serve_keeps) (simp add: route_keeps_def list_all_iff)
  from this [of "new_ctx (bind_params (rt_path rt) path req) s"] Some show ?thesis
    by (simp add: handle_def new_ctx_def)
qed

end

end
