(* ===== verification/Exchange.thy ===== *)
theory Exchange
  imports Api_Transfer
begin

section \<open>The arithmetic of an exchange\<close>

text \<open>
  Facts about \<open>exchanged\<close>, the \<open>float64\<close> computation of \<open>currencyExchange\<close>: the sign of
  the result, the identity between accounts of one currency, and the error of the two
  roundings and the truncation.
\<close>

subsection \<open>Signs\<close>

fun f64_nonneg :: "f64 \<Rightarrow> bool" where
  "f64_nonneg NaN = False"
| "f64_nonneg (Inf s) = (\<not> s)"
| "f64_nonneg (Zero s) = (\<not> s)"
| "f64_nonneg (Num v) = (0 \<le> v)"

lemma rne_nonneg: "0 \<le> x \<Longrightarrow> 0 \<le> rne x"
  using rne_mono [of 0 x] rne_of_int [of 0] by simp

lemma round_to_grid_nonneg: "0 \<le> x \<Longrightarrow> 0 \<le> round_to_grid x"
  by (simp add: round_to_grid_def rne_nonneg)

lemma f64_round_nonneg: "0 \<le> x \<Longrightarrow> f64_nonneg (f64_round x)"
  using round_to_grid_nonneg [of x] by (simp add: f64_round_def Let_def)

lemma f64_of_int_pos:
  assumes "0 < n" and "i64 n"
  shows "\<exists>v. f64_of_int n = Num v \<and> 0 < v"
proof -
  let ?x = "of_int n :: rat"
  have x: "1 \<le> ?x" "?x < 2 ^ 63" using assms by (simp_all add: i64_iff)
  have one: "round_to_grid 1 = 1" using round_to_grid_exact [of 1 1 0]
    by (simp add: ulp_expo_def expo_unique [of 0 1])
  have "\<bar>round_to_grid ?x - ?x\<bar> \<le> \<bar>?x\<bar> / 2 ^ 53"
    by (rule round_to_grid_relative) (use x powi_le [of "- 1022" 0] in simp)
  also have "\<dots> \<le> ?x / 2" using x(1) by simp
  finally have "\<bar>round_to_grid ?x - ?x\<bar> \<le> ?x / 2" .
  from abs_le_D1 [OF this] abs_le_D2 [OF this] x
  have "0 < round_to_grid ?x" "round_to_grid ?x < 2 ^ 64" by simp_all
  then show ?thesis by (simp add: f64_of_int_def f64_round_def Let_def)
qed

lemma f64_div_nonneg: "0 < a \<Longrightarrow> 0 < b \<Longrightarrow> f64_nonneg (f64_div (Num a) (Num b))"
  by (simp add: f64_round_nonneg)

lemma f64_mul_nonneg: "0 < a \<Longrightarrow> f64_nonneg y \<Longrightarrow> f64_nonneg (f64_mul (Num a) y)"
  by (cases y) (simp_all add: f64_round_nonneg)

lemma f64_to_int_nonneg:
  "f64_nonneg x \<Longrightarrow> (\<And>y. f64_nonneg y \<Longrightarrow> 0 \<le> oob y) \<Longrightarrow> 0 \<le> f64_to_int oob x"
  by (cases x) (auto simp: trunc_nonneg)

text \<open>
  With positive rates the credited amount is not negative, when the conversion of a value
  out of range is not (it saturates on some machines; on others it is the least integer).
\<close>

lemma exchanged_nonneg:
  assumes "0 < n" and "i64 n" and "0 < a" and "0 < b" and "\<And>y. f64_nonneg y \<Longrightarrow> 0 \<le> oob y"
  shows "0 \<le> exchanged oob (Num a) (Num b) n"
proof -
  obtain v where "f64_of_int n = Num v" "0 < v" using f64_of_int_pos assms(1,2) by blast
  then have "f64_nonneg (f64_mul (f64_of_int n) (f64_div (Num a) (Num b)))"
    using f64_mul_nonneg f64_div_nonneg assms(3,4) by simp
  then show ?thesis using f64_to_int_nonneg assms(5) by (simp add: exchanged_def)
qed

subsection \<open>One currency\<close>

lemma exchanged_same:
  assumes "v \<noteq> 0" and "\<bar>n\<bar> \<le> 2 ^ 53"
  shows "exchanged oob (Num v) (Num v) n = n"
proof (cases "n = 0")
  case True
  then show ?thesis using assms(1) by (simp add: exchanged_def f64_of_int_zero f64_round_one)
next
  case False
  with assms f64_of_int_exact [of n] have n: "f64_of_int n = Num (of_int n)" by simp
  then have "f64_ok (Num (of_int n))" using n by (simp add: f64_of_int_def)
  then have "f64_mul (Num (of_int n)) (Num 1) = Num (of_int n)" by simp
  moreover have "i64 n" using assms(2) by (simp add: i64_iff abs_le_iff)
  ultimately show ?thesis using n assms(1) by (simp add: exchanged_def f64_round_one)
qed

subsection \<open>The error\<close>

lemma round_relative:
  assumes "2 powi (- 1022) \<le> x" and "f64_round x = Num v"
  shows "x * (1 - 1 / 2 ^ 53) \<le> v \<and> v \<le> x * (1 + 1 / 2 ^ 53)"
proof -
  have "0 < x" using assms(1) powi_pos [of "- 1022"] by linarith
  then have "\<bar>v - x\<bar> \<le> x / 2 ^ 53"
    using round_to_grid_relative [of x] f64_round_NumD [OF assms(2)] assms(1) by simp
  from abs_le_D1 [OF this] abs_le_D2 [OF this] show ?thesis
    by (simp add: right_diff_distrib distrib_left)
qed

lemma exchanged_error:
  assumes n: "0 < n" "n \<le> 2 ^ 53" and rates: "0 < a" "0 < b"
    and q: "f64_round (a / b) = Num q" "2 powi (- 1022) \<le> a / b"
    and m: "f64_round (of_int n * q) = Num m" "2 powi (- 1022) \<le> of_int n * q"
    and fits: "i64 (trunc m)"
  shows "of_int n * (a / b) * (1 - 1 / 2 ^ 53) ^ 2 - 1 < of_int (exchanged oob (Num a) (Num b) n) \<and>
    of_int (exchanged oob (Num a) (Num b) n) \<le> of_int n * (a / b) * (1 + 1 / 2 ^ 53) ^ 2"
proof -
  let ?n = "of_int n :: rat"
  let ?lo = "1 - 1 / 2 ^ 53 :: rat" and ?hi = "1 + 1 / 2 ^ 53 :: rat"
  have e: "exchanged oob (Num a) (Num b) n = trunc m"
    using f64_of_int_exact [of n] n q(1) m(1) fits by (simp add: exchanged_def)
  have n0: "0 < ?n" using n by simp
  have bounds: "a / b * ?lo \<le> q" "q \<le> a / b * ?hi" "?n * q * ?lo \<le> m" "m \<le> ?n * q * ?hi"
    using round_relative [OF q(2,1)] round_relative [OF m(2,1)] by simp_all
  have "?n * (a / b) * ?lo ^ 2 = (?n * (a / b * ?lo)) * ?lo" by (simp add: power2_eq_square)
  also have "\<dots> \<le> (?n * q) * ?lo"
    by (intro mult_right_mono mult_left_mono) (use bounds n0 in simp_all)
  finally have lower: "?n * (a / b) * ?lo ^ 2 \<le> m" using bounds(3) by linarith
  have "m \<le> (?n * q) * ?hi" using bounds(4) by simp
  also have "\<dots> \<le> (?n * (a / b * ?hi)) * ?hi"
    by (intro mult_right_mono mult_left_mono) (use bounds n0 in simp_all)
  also have "\<dots> = ?n * (a / b) * ?hi ^ 2" by (simp add: power2_eq_square)
  finally have upper: "m \<le> ?n * (a / b) * ?hi ^ 2" .
  have "0 \<le> ?n * (a / b) * ?lo ^ 2" using n0 rates by simp
  with lower have "0 \<le> m" by linarith
  from trunc_le [OF this] lower upper e show ?thesis by linarith
qed

text \<open>Away from the ends of the exponent range, rounding neither underflows nor overflows.\<close>

lemma f64_round_Num:
  assumes "2 powi (- 1022) \<le> x" and "x \<le> 2 ^ 1000"
  shows "\<exists>v. f64_round x = Num v \<and> x / 2 \<le> v \<and> v \<le> 2 * x"
proof -
  have x: "0 < x" using assms(1) powi_pos [of "- 1022"] by linarith
  have "\<bar>round_to_grid x - x\<bar> \<le> x / 2 ^ 53"
    using round_to_grid_relative [of x] assms(1) x by simp
  also have "\<dots> \<le> x / 2" using x by (simp add: field_simps)
  finally have r: "\<bar>round_to_grid x - x\<bar> \<le> x / 2" .
  from abs_le_D1 [OF r] abs_le_D2 [OF r] have v: "x / 2 \<le> round_to_grid x" "round_to_grid x \<le> 2 * x"
    using x by linarith+
  have "2 * x < 2 ^ 1024" using assms(2) by (rule order.strict_trans1 [OF mult_left_mono]) simp_all
  with v x have "\<bar>round_to_grid x\<bar> < 2 ^ 1024" "round_to_grid x \<noteq> 0" by linarith+
  with v show ?thesis by (simp add: f64_round_def Let_def)
qed

text \<open>
  The amount credited for rates of a sane size: within one unit, for the truncation, and
  one part in 2\<open>^\<close>51 of the exact product, for the two roundings.
\<close>

lemma tiny_normal: "(1 / 2 ^ 300 :: rat) \<le> x \<Longrightarrow> 2 powi (- 1022) \<le> x"
proof -
  have "2 powi (- 1022) \<le> (2 powi (- 300) :: rat)" by (rule powi_le) simp
  also have "\<dots> = 1 / 2 ^ 300"
    by (simp only: power_int_minus power_int_numeral divide_inverse mult_1_left)
  finally show "(1 / 2 ^ 300 :: rat) \<le> x \<Longrightarrow> ?thesis" by (rule order_trans)
qed

text \<open>The quotient of two such rates is a normal number, and so is its rounding.\<close>

lemma rate_quotient:
  assumes a: "1 / 2 ^ 100 \<le> a" "a \<le> 2 ^ 100" and b: "1 / 2 ^ 100 \<le> b" "b \<le> 2 ^ 100"
  obtains q where "2 powi (- 1022) \<le> a / b" "f64_round (a / b) = Num q" "0 < q"
    "1 / 2 ^ 300 \<le> q" "q \<le> 2 * (a / b)"
proof -
  have pos: "0 < a" "0 < b" using a b by (auto intro: less_le_trans [of _ "1 / 2 ^ 100"])
  have lo: "1 / 2 ^ 200 \<le> a / b"
    using frac_le [of a "1 / 2 ^ 100" b "2 ^ 100"] a b pos by (simp add: field_simps)
  have "a / b \<le> 2 ^ 200"
    using frac_le [of "2 ^ 100" a "1 / 2 ^ 100" b] a b pos by (simp add: field_simps)
  also have "(2::rat) ^ 200 \<le> 2 ^ 1000" by (rule power_increasing) simp_all
  finally have hi: "a / b \<le> 2 ^ 1000" .
  have "(1 / 2 ^ 300 :: rat) \<le> 1 / 2 ^ 200" by (intro divide_left_mono power_increasing) simp_all
  then have normal: "2 powi (- 1022) \<le> a / b" using lo by (intro tiny_normal) (rule order_trans)
  obtain q where q: "f64_round (a / b) = Num q" "a / b / 2 \<le> q" "q \<le> 2 * (a / b)"
    using f64_round_Num [OF normal hi] by blast
  have "(1 / 2 ^ 300 :: rat) \<le> 1 / 2 ^ 200 / 2" by simp
  also have "\<dots> \<le> a / b / 2" using lo by (rule divide_right_mono) simp
  also have "\<dots> \<le> q" by (rule q(2))
  finally have low: "1 / 2 ^ 300 \<le> q" .
  have "0 < q" using q(2) pos by (meson divide_pos_pos less_le_trans zero_less_numeral)
  with normal q(1,3) low show ?thesis by (intro that)
qed

text \<open>The truncated product fits 64 bits as soon as it is far enough from the bound.\<close>

lemma trunc_fits:
  assumes "0 \<le> m" and "m \<le> 2 ^ 62"
  shows "i64 (trunc m)"
proof -
  from assms(2) trunc_le [OF assms(1)] have "of_int (trunc m) \<le> (of_int (2 ^ 62) :: rat)" by simp
  then have "trunc m \<le> 2 ^ 62" by linarith
  with trunc_nonneg [OF assms(1)] show ?thesis by (simp add: i64_iff)
qed

lemma exchanged_near:
  assumes n: "0 < n" "n \<le> 2 ^ 53"
    and a: "1 / 2 ^ 100 \<le> a" "a \<le> 2 ^ 100" and b: "1 / 2 ^ 100 \<le> b" "b \<le> 2 ^ 100"
    and small: "of_int n * (a / b) \<le> 2 ^ 60"
  shows "\<bar>of_int (exchanged oob (Num a) (Num b) n) - of_int n * (a / b)\<bar> \<le> 1 + of_int n * (a / b) / 2 ^ 51"
proof -
  let ?n = "of_int n :: rat" and ?x = "of_int n * (a / b) :: rat"
  have pos: "0 < a" "0 < b" using a b by (auto intro: less_le_trans [of _ "1 / 2 ^ 100"])
  have n1: "1 \<le> ?n" using n(1) by simp
  obtain q where q: "2 powi (- 1022) \<le> a / b" "f64_round (a / b) = Num q" "0 < q"
    "1 / 2 ^ 300 \<le> q" "q \<le> 2 * (a / b)" by (rule rate_quotient [OF a b])
  have "?n * q \<le> ?n * (2 * (a / b))" using q(5) n1 by (intro mult_left_mono) simp_all
  also have "\<dots> = 2 * ?x" by simp
  also have "\<dots> \<le> 2 * 2 ^ 60" using small by (rule mult_left_mono) simp
  finally have m_hi: "?n * q \<le> 2 ^ 61" by simp
  have "q \<le> ?n * q" using mult_right_mono [OF n1, of q] q(3) by simp
  with q(4) have m_lo: "2 powi (- 1022) \<le> ?n * q" by (intro tiny_normal) (rule order_trans)
  have big: "(2::rat) ^ 61 \<le> 2 ^ 1000" by (rule power_increasing) simp_all
  obtain m where m: "f64_round (?n * q) = Num m" "?n * q / 2 \<le> m" "m \<le> 2 * (?n * q)"
    using f64_round_Num [OF m_lo order_trans [OF m_hi big]] by blast
  have "0 < ?n * q" using n1 q(3) by simp
  then have "0 \<le> m" "m \<le> 2 ^ 62" using m(2,3) m_hi by simp_all
  note e = exchanged_error [OF n pos q(2) q(1) m(1) m_lo trunc_fits [OF this], of oob]
  have x0: "0 \<le> ?x" using n1 pos by simp
  have "?x * (1 - 1 / 2 ^ 53) ^ 2 \<ge> ?x - ?x / 2 ^ 51"
    using x0 by (simp add: power2_eq_square field_simps)
  moreover have "?x * (1 + 1 / 2 ^ 53) ^ 2 \<le> ?x + ?x / 2 ^ 51"
    using x0 by (simp add: power2_eq_square field_simps)
  ultimately show ?thesis using e by (intro abs_leI) linarith+
qed

text \<open>The first integer that does not fit the significand loses its last unit.\<close>

lemma f64_of_int_first_inexact: "f64_of_int (2 ^ 53 + 1) = Num (2 ^ 53)"
proof -
  let ?x = "of_int (2 ^ 53 + 1) :: rat"
  have "expo ?x = 53" by (rule expo_unique) simp_all
  then have "ulp_expo ?x = 1" by (simp add: ulp_expo_def)
  then have "round_to_grid ?x = of_int (rne (?x / 2)) * 2" by (simp add: round_to_grid_def)
  moreover have "\<lfloor>?x / 2\<rfloor> = 2 ^ 52" by (rule floor_unique) simp_all
  then have "rne (?x / 2) = 2 ^ 52" by (simp add: rne_def Let_def)
  ultimately show ?thesis by (simp add: f64_of_int_def f64_round_def Let_def)
qed

lemma exchanged_first_inexact:
  assumes "v \<noteq> 0"
  shows "exchanged oob (Num v) (Num v) (2 ^ 53 + 1) = 2 ^ 53"
proof -
  have "f64_of_int (2 ^ 53) = Num (of_int (2 ^ 53))" by (rule f64_of_int_exact) simp_all
  then have "f64_round (2 ^ 53) = Num (2 ^ 53)" by (simp add: f64_of_int_def)
  moreover have "trunc (2 ^ 53) = 2 ^ 53" using trunc_of_int [of "2 ^ 53"] by simp
  ultimately show ?thesis
    unfolding exchanged_def f64_of_int_first_inexact using assms
    by (simp add: f64_round_one i64_iff)
qed

end
