(* ===== verification/Bank.thy ===== *)
theory Bank
  imports Api_Frame Exchange
begin

section \<open>The invariants of the bank\<close>

text \<open>
  What every request and every background task keeps, whatever it answers and whatever
  fails: the integrity of the schema and the books, the log of entries and transfers, the
  identity of accounts and users, and the separation of local and Google users. Each is an
  instance of \<open>request_keeps\<close>; together they hold in every reachable state of the system.
\<close>

subsection \<open>The relations\<close>

definition bank_ok :: "db \<Rightarrow> bool" where
  "bank_ok d \<longleftrightarrow> wf_db d \<and> books_balance d"

text \<open>Entries and transfers are only ever appended.\<close>

definition append_only :: "db \<Rightarrow> db \<Rightarrow> bool" where
  "append_only d d' \<longleftrightarrow> (\<exists>es. entries d' = entries d @ es) \<and> (\<exists>ts. transfers d' = transfers d @ ts)"

text \<open>Accounts keep their number, owner and currency, users their name, role and provider.\<close>

definition account_key :: "account \<Rightarrow> int \<times> string \<times> string" where
  "account_key a = (acc_id a, acc_owner a, acc_currency a)"

definition user_key :: "user \<Rightarrow> string \<times> string \<times> string" where
  "user_key u = (usr_username u, usr_role u, usr_provider u)"

definition same_people :: "db \<Rightarrow> db \<Rightarrow> bool" where
  "same_people d d' \<longleftrightarrow>
     (\<exists>as. map account_key (accounts d') = map account_key (accounts d) @ as \<and>
        (\<forall>(i, owner, cur)\<in>set as. IsSupportedCurrency cur)) \<and>
     (\<exists>us. map user_key (users d') = map user_key (users d) @ us \<and>
        (\<forall>(n, role, prov)\<in>set us. role = DepositorRole))"

text \<open>
  A local user has a name of letters and digits; a user of Google has a hyphen in its name
  and no password.
\<close>

definition providers_ok :: "db \<Rightarrow> bool" where
  "providers_ok d \<longleftrightarrow> (\<forall>u\<in>set (users d).
     (usr_provider u = ''local'' \<and> list_all is_alnum (usr_username u)) \<or>
     (usr_provider u = ''Google'' \<and> CHR ''-'' \<in> set (usr_username u) \<and> usr_hashed_password u = []))"

text \<open>No account is overdrawn, and the rates are positive numbers.\<close>

definition solvent :: "db \<Rightarrow> bool" where
  "solvent d \<longleftrightarrow> wf_db d \<and> no_overdraft d \<and>
     (\<forall>r\<in>set (currencies d). \<exists>v. cur_rate r = Num v \<and> 0 < v)"

subsection \<open>Statements\<close>

lemma entry_sum_new:
  "\<forall>e\<in>set (entries d). ent_account_id e \<noteq> i \<Longrightarrow> entry_sum i d = 0"
  unfolding entry_sum_def by (metis (mono_tags, lifting) filter_False list.map(1) sum_list.Nil)

lemma books_CreateAccount:
  assumes "wf_db d" and "books_balance d" and "cap_balance p = 0"
  shows "books_balance (snd (CreateAccount p d))"
proof -
  let ?i = "account_seq d + 1"
  from assms(1) have "\<forall>e\<in>set (entries d). ent_account_id e \<noteq> ?i"
    by (fastforce simp: wf_defs)
  with assms show ?thesis
    using entry_sum_new [of d ?i]
    by (auto simp: CreateAccount_def Let_def books_balance_def entry_sum_def)
qed

lemma bank_ok_frame:
  assumes "wf_db d'" and "accounts d' = accounts d" and "entries d' = entries d" and "bank_ok d"
  shows "bank_ok d'"
  using assms by (simp add: bank_ok_def books_balance_def entry_sum_def)

lemma user_statements_frame:
  "accounts (snd (CreateUser cp d)) = accounts d" "entries (snd (CreateUser cp d)) = entries d"
  "transfers (snd (CreateUser cp d)) = transfers d" "currencies (snd (CreateUser cp d)) = currencies d"
  "accounts (snd (UpdateUser wp d)) = accounts d" "entries (snd (UpdateUser wp d)) = entries d"
  "transfers (snd (UpdateUser wp d)) = transfers d" "currencies (snd (UpdateUser wp d)) = currencies d"
  "accounts (snd (UpsertUser up d)) = accounts d" "entries (snd (UpsertUser up d)) = entries d"
  "transfers (snd (UpsertUser up d)) = transfers d" "currencies (snd (UpsertUser up d)) = currencies d"
  by (auto simp: CreateUser_def UpdateUser_def UpsertUser_def Let_def split: option.split)

lemma CreateAccount_frame:
  "users (snd (CreateAccount ap d)) = users d" "entries (snd (CreateAccount ap d)) = entries d"
  "transfers (snd (CreateAccount ap d)) = transfers d" "currencies (snd (CreateAccount ap d)) = currencies d"
  by (auto simp: CreateAccount_def Let_def)

lemmas wf_statements = wf_CreateAccount [OF _ _ prod.collapse [symmetric]]
  wf_CreateUser [OF _ prod.collapse [symmetric]] wf_UpdateUser [OF _ prod.collapse [symmetric]]
  wf_UpsertUser [OF _ prod.collapse [symmetric]]

lemma TransferTx_snd:
  "same_rows (pl_db p) (pl_db (snd (TransferTx arg p))) \<or>
   transfer_ready arg (pl_db p) \<and> pl_db (snd (TransferTx arg p)) = transferred arg (pl_db p)"
  by (rule TransferTx_rows_cases) (rule prod.collapse [symmetric])

lemma transferred_frame:
  "users (transferred arg d) = users d" "currencies (transferred arg d) = currencies d"
  "map account_key (accounts (transferred arg d)) = map account_key (accounts d)"
  "\<exists>es. entries (transferred arg d) = entries d @ es"
  "\<exists>ts. transfers (transferred arg d) = transfers d @ ts"
  by (simp_all add: transferred_def moved_accounts_def map_upd_rows account_key_def add_balance_def)

lemma append_only_frame:
  "entries d' = entries d \<Longrightarrow> transfers d' = transfers d \<Longrightarrow> append_only d d'"
  by (simp add: append_only_def)

lemma append_only_trans:
  assumes "append_only a b" and "append_only b c"
  shows "append_only a c"
proof -
  from assms obtain es es' ts ts' where
    "entries b = entries a @ es" "entries c = entries b @ es'"
    "transfers b = transfers a @ ts" "transfers c = transfers b @ ts'"
    by (auto simp: append_only_def)
  then show ?thesis by (simp add: append_only_def)
qed

lemma same_people_frame:
  "map account_key (accounts d') = map account_key (accounts d) \<Longrightarrow>
    map user_key (users d') = map user_key (users d) \<Longrightarrow> same_people d d'"
  by (simp add: same_people_def)

lemma same_people_refl: "same_people d d"
  by (simp add: same_people_def)

lemma same_people_trans:
  assumes "same_people a b" and "same_people b c"
  shows "same_people a c"
proof -
  from assms obtain as as' us us' where
    "map account_key (accounts b) = map account_key (accounts a) @ as"
    "map account_key (accounts c) = map account_key (accounts b) @ as'"
    "map user_key (users b) = map user_key (users a) @ us"
    "map user_key (users c) = map user_key (users b) @ us'"
    "\<forall>(i, owner, cur)\<in>set (as @ as'). IsSupportedCurrency cur"
    "\<forall>(n, role, prov)\<in>set (us @ us'). role = DepositorRole"
    unfolding same_people_def by (force simp: ball_Un)
  then show ?thesis unfolding same_people_def by auto
qed

lemma people_CreateAccount:
  assumes "IsSupportedCurrency (cap_currency p)"
  shows "same_people d (snd (CreateAccount p d))"
  using assms by (auto simp: CreateAccount_def Let_def same_people_def account_key_def)

lemma people_CreateUser: "same_people d (snd (CreateUser p d))"
  by (auto simp: CreateUser_def Let_def same_people_def user_key_def DepositorRole_def)

lemma people_UpdateUser: "same_people d (snd (UpdateUser p d))"
  by (auto simp: UpdateUser_def user_key_def update_row_def map_upd_rows split: option.split
      intro!: same_people_frame)

lemma people_UpsertUser: "same_people d (snd (UpsertUser p d))"
proof -
  have "same_people d (d\<lparr>users := users d @ [new_user p d]\<rparr>)"
    by (auto simp: same_people_def user_key_def new_user_def DepositorRole_def)
  moreover have "same_people d (d\<lparr>users := upd_rows usr_username (up_username p) (excluded_row p) (users d)\<rparr>)"
    by (rule same_people_frame) (auto simp: user_key_def excluded_row_def map_upd_rows)
  ultimately show ?thesis
    by (auto simp: UpsertUser_def same_people_frame split: option.split)
qed

subsection \<open>Providers\<close>

abbreviation provider_ok :: "user \<Rightarrow> bool" where
  "provider_ok u \<equiv>
     (usr_provider u = ''local'' \<and> list_all is_alnum (usr_username u)) \<or>
     (usr_provider u = ''Google'' \<and> CHR ''-'' \<in> set (usr_username u) \<and> usr_hashed_password u = [])"

lemma hyphen_no_alnum: "list_all is_alnum s \<Longrightarrow> CHR ''-'' \<notin> set s"
  by (auto simp: list_all_iff is_alnum_def is_digit_def is_upper_def is_lower_def)

lemma providers_upd:
  assumes "providers_ok d" and "\<And>u. u \<in> set (users d) \<Longrightarrow> usr_username u = k \<Longrightarrow> provider_ok (f u)"
  shows "providers_ok (d\<lparr>users := upd_rows usr_username k f (users d)\<rparr>)"
  using assms unfolding providers_ok_def by (auto dest!: set_upd_rowsD)

lemma providers_CreateAccount: "providers_ok d \<Longrightarrow> providers_ok (snd (CreateAccount p d))"
  by (simp only: providers_ok_def CreateAccount_frame)

lemma providers_CreateUser:
  "providers_ok d \<Longrightarrow> list_all is_alnum (cup_username p) \<Longrightarrow> providers_ok (snd (CreateUser p d))"
  by (auto simp: CreateUser_def Let_def providers_ok_def)

lemma providers_UpdateUser:
  assumes "providers_ok d" and "list_all is_alnum (uup_username p)"
  shows "providers_ok (snd (UpdateUser p d))"
proof -
  have "providers_ok (d\<lparr>users := upd_rows usr_username (uup_username p) (update_row p) (users d)\<rparr>)"
    by (rule providers_upd [OF assms(1)])
      (use assms hyphen_no_alnum in \<open>auto simp: providers_ok_def update_row_def\<close>)
  with assms(1) show ?thesis by (auto simp: UpdateUser_def split: option.split)
qed

lemma providers_UpsertUser:
  assumes "providers_ok d"
  shows "providers_ok (snd (UpsertUser (google_user_params gu) d))"
proof -
  let ?p = "google_user_params gu"
  have hyphen: "CHR ''-'' \<in> set (up_username ?p)" by (simp add: google_user_params_def)
  have "providers_ok (d\<lparr>users := upd_rows usr_username (up_username ?p) (excluded_row ?p) (users d)\<rparr>)"
    by (rule providers_upd [OF assms])
      (use assms hyphen hyphen_no_alnum in \<open>auto simp: providers_ok_def excluded_row_def google_user_params_def\<close>)
  moreover have "provider_ok (new_user ?p d)"
    using hyphen by (simp add: new_user_def google_user_params_def)
  ultimately show ?thesis using assms
    by (auto simp: UpsertUser_def providers_ok_def split: option.split)
qed

subsection \<open>The relations are kept by every request\<close>

lemma bank_ok_user_statements:
  assumes "bank_ok d"
  shows "bank_ok (snd (CreateUser cp d))" "bank_ok (snd (UpdateUser wp d))"
    "bank_ok (snd (UpsertUser up d))"
  using assms wf_statements(2-4) [of d]
  by (auto simp: user_statements_frame bank_ok_def books_balance_def entry_sum_def)

lemma solvent_user_statements:
  assumes "solvent d"
  shows "solvent (snd (CreateUser cp d))" "solvent (snd (UpdateUser wp d))"
    "solvent (snd (UpsertUser up d))"
  using assms wf_statements(2-4) [of d]
  by (auto simp: user_statements_frame solvent_def no_overdraft_def)

text \<open>
  \<open>bank_libs\<close>: the packages behind a server; \<open>saturating_libs\<close>: moreover the conversion of
  floating point values saturates.
\<close>

locale bank_libs = validator_package "lb_validator lib" for lib :: libs

locale saturating_libs = bank_libs +
  assumes saturates: "f64_nonneg y \<Longrightarrow> 0 \<le> lb_oob lib y"

sublocale bank_libs \<subseteq> ledger: request_keeps lib "\<lambda>d d'. bank_ok d \<longrightarrow> bank_ok d'"
proof unfold_locales
  fix ap :: CreateAccountParams and d
  assume "cap_balance ap = 0" "IsSupportedCurrency (cap_currency ap)"
  then show "bank_ok d \<longrightarrow> bank_ok (snd (CreateAccount ap d))"
    using books_CreateAccount wf_statements(1) [of d ap] by (simp add: bank_ok_def i64_iff)
next
  fix tp :: TransferTxParams and p :: pool
  show "bank_ok (pl_db p) \<longrightarrow> bank_ok (pl_db (snd (TransferTx tp p)))"
    using TransferTx_snd [of p tp] books_transferred same_rows_invariants(1)
      TransferTx_wf [OF prod.collapse [symmetric]] by (metis bank_ok_def)
qed (simp_all add: bank_ok_user_statements)

sublocale bank_libs \<subseteq> log: request_keeps lib append_only
proof unfold_locales
  fix tp :: TransferTxParams and p :: pool
  show "append_only (pl_db p) (pl_db (snd (TransferTx tp p)))"
    using TransferTx_snd [of p tp] transferred_frame(4,5) [of tp "pl_db p"]
    by (auto simp: append_only_def same_rows_def)
qed (erule (1) append_only_trans
  | simp add: append_only_frame user_statements_frame CreateAccount_frame)+

sublocale bank_libs \<subseteq> people: request_keeps lib same_people
proof unfold_locales
  fix tp :: TransferTxParams and p :: pool
  show "same_people (pl_db p) (pl_db (snd (TransferTx tp p)))"
    using TransferTx_snd [of p tp] transferred_frame(1,3) [of tp "pl_db p"]
    by (auto simp: same_rows_def intro!: same_people_frame)
qed (erule (1) same_people_trans
  | rule same_people_refl people_CreateUser people_UpdateUser people_UpsertUser
  | rule people_CreateAccount, assumption)+

sublocale bank_libs \<subseteq> providers: request_keeps lib "\<lambda>d d'. providers_ok d \<longrightarrow> providers_ok d'"
proof unfold_locales
  fix tp :: TransferTxParams and p :: pool
  show "providers_ok (pl_db p) \<longrightarrow> providers_ok (pl_db (snd (TransferTx tp p)))"
    using TransferTx_snd [of p tp] transferred_frame(1) [of tp "pl_db p"]
    by (auto simp: same_rows_def providers_ok_def)
qed (simp_all add: providers_CreateUser providers_UpdateUser providers_UpsertUser
  providers_CreateAccount)

lemma solvent_frame:
  "wf_db d' \<Longrightarrow> accounts d' = accounts d \<Longrightarrow> currencies d' = currencies d \<Longrightarrow> solvent d \<Longrightarrow> solvent d'"
  by (simp add: solvent_def no_overdraft_def)

lemma rate_positive:
  "solvent d \<Longrightarrow> GetExchangeRate cur d = Inr x \<Longrightarrow> \<exists>v. x = Num v \<and> 0 < v"
  unfolding solvent_def GetExchangeRate_def by (auto split: option.splits dest!: row_of_SomeD)

lemma solvent_CreateAccount:
  assumes "solvent d" and "cap_balance p = 0"
  shows "solvent (snd (CreateAccount p d))"
proof -
  have "wf_db (snd (CreateAccount p d))"
    using assms wf_statements(1) [of d p] by (simp add: solvent_def i64_iff)
  with assms show ?thesis
    by (auto simp: solvent_def no_overdraft_def CreateAccount_def Let_def)
qed

sublocale saturating_libs \<subseteq> solvency: request_keeps lib "\<lambda>d d'. solvent d \<longrightarrow> solvent d'"
proof unfold_locales
  fix tp :: TransferTxParams and p :: pool and a b :: account and x y
  assume tp: "0 < ttp_from_amount tp" "i64 (ttp_from_amount tp)"
    and x: "GetExchangeRate (acc_currency a) (pl_db p) = Inr x"
    and y: "GetExchangeRate (acc_currency b) (pl_db p) = Inr y"
    and m: "ttp_to_amount tp = exchanged (lb_oob lib) x y (ttp_from_amount tp)"
  show "solvent (pl_db p) \<longrightarrow> solvent (pl_db (snd (TransferTx tp p)))"
  proof
    assume s: "solvent (pl_db p)"
    have "0 \<le> ttp_to_amount tp"
      using exchanged_nonneg [OF tp] saturates rate_positive [OF s x] rate_positive [OF s y] m by auto
    then have "no_overdraft (pl_db (snd (TransferTx tp p)))"
      using TransferTx_snd [of p tp] s tp no_overdraft_transferred same_rows_invariants(2)
      by (metis less_imp_le solvent_def)
    moreover have "wf_db (pl_db (snd (TransferTx tp p)))"
      using TransferTx_wf [OF prod.collapse [symmetric]] s by (simp add: solvent_def)
    moreover have "currencies (pl_db (snd (TransferTx tp p))) = currencies (pl_db p)"
      using TransferTx_snd [of p tp] transferred_frame(2) by (auto simp: same_rows_def)
    ultimately show "solvent (pl_db (snd (TransferTx tp p)))" using s by (simp add: solvent_def)
  qed
qed (simp_all add: solvent_CreateAccount solvent_user_statements)

context bank_libs
begin

lemmas handle_ledger = ledger.handle_keeps and handle_log = log.handle_keeps
  and handle_people = people.handle_keeps and handle_providers = providers.handle_keeps

end

context saturating_libs
begin

lemmas handle_solvency = solvency.handle_keeps

end

end
