(* ===== verification/System.thy ===== *)
theory System
  imports Bank
begin

section \<open>The system and its reachable states\<close>

text \<open>
  A state of the whole program: the services behind the server and the mail system. A step
  is a request to the server, a task run by the worker, new exchange rates (the crawler
  writes them), or anything that happens outside the database. Requests and tasks are
  steps of their own here; how transfers interleave is another theory.
\<close>

record ('r, 'q, 'm) system =
  sy_services :: "('r, 'q) services"
  sy_mail :: 'm

definition services_of :: "('r, 'q) ctx \<Rightarrow> ('r, 'q) services" where
  "services_of c = \<lparr>sr_pool = c_pool c, sr_kv = c_kv c, sr_queue = c_queue c, sr_env = c_env c\<rparr>"

text \<open>The processor that runs beside a server shares its settings and its key-value store.\<close>

definition worker_beside ::
    "('r, 'q) Server \<Rightarrow> RedisClientOpt \<Rightarrow> 'm mailer \<Rightarrow> ('r, 'm) TaskProcessor" where
  "worker_beside server redisOpt mail =
     NewRedisTaskProcessor (lb_gotp (sv_libs server)) (sv_config server) redisOpt (sv_kvStore server) mail"

definition worker_of :: "('r, 'q, 'm) system \<Rightarrow> ('r, 'm) worker_state" where
  "worker_of w = \<lparr>ws_pool = sr_pool (sy_services w), ws_kv = sr_kv (sy_services w),
     ws_mail = sy_mail w, ws_env = sr_env (sy_services w)\<rparr>"

definition with_worker :: "('r, 'q, 'm) system \<Rightarrow> ('r, 'm) worker_state \<Rightarrow> ('r, 'q, 'm) system" where
  "with_worker w ws = \<lparr>sy_services = \<lparr>sr_pool = ws_pool ws, sr_kv = ws_kv ws,
     sr_queue = sr_queue (sy_services w), sr_env = ws_env ws\<rparr>, sy_mail = ws_mail ws\<rparr>"

definition positive_rates :: "currency_row list \<Rightarrow> bool" where
  "positive_rates cs \<longleftrightarrow> distinct (map cur_currency cs) \<and>
     (\<forall>r\<in>set cs. \<exists>v. cur_rate r = Num v \<and> 0 < v)"

abbreviation system_db :: "('r, 'q, 'm) system \<Rightarrow> db" where
  "system_db w \<equiv> pl_db (sr_pool (sy_services w))"

inductive system_step ::
    "('r, 'q) Server \<Rightarrow> 'm mailer \<Rightarrow> ('r, 'q, 'm) system \<Rightarrow> ('r, 'q, 'm) system \<Rightarrow> bool"
  for server mail where
  request: "system_step server mail w
     (w\<lparr>sy_services := services_of (handle server meth path req (sy_services w))\<rparr>)"
| task: "run_task (worker_beside server redisOpt mail) t (worker_of w) = (r, ws) \<Longrightarrow>
     system_step server mail w (with_worker w ws)"
| rates: "positive_rates cs \<Longrightarrow> sy_services w' = (sy_services w)\<lparr>sr_pool := (sr_pool (sy_services w))\<lparr>
       pl_db := (system_db w)\<lparr>currencies := cs, db_now := t\<rparr>\<rparr>\<rparr> \<Longrightarrow>
     system_step server mail w w'"
| outside: "system_db w' = system_db w \<Longrightarrow> system_step server mail w w'"

inductive_cases system_stepE: "system_step server mail w w'"

abbreviation system_steps ::
    "('r, 'q) Server \<Rightarrow> 'm mailer \<Rightarrow> ('r, 'q, 'm) system \<Rightarrow> ('r, 'q, 'm) system \<Rightarrow> bool" where
  "system_steps server mail \<equiv> (system_step server mail)\<^sup>*\<^sup>*"

lemma run_task_db:
  assumes "run_task processor t ws = (r, ws')"
  shows "pl_db (ws_pool ws') = pl_db (ws_pool ws)"
proof -
  have "pl_db (ws_pool (snd (run_task processor t ws))) = pl_db (ws_pool ws)"
    by (auto simp: run_task_def ProcessTaskSendVerifyEmail_def Let_def split_beta frame_simps
        split: option.split sum.split)
  with assms show ?thesis by simp
qed

text \<open>A relation that requests and new rates keep is kept by every run.\<close>

lemma steps_keep:
  assumes run: "system_steps server mail w w'"
    and refl: "\<And>d. R d d" and trans: "\<And>d1 d2 d3. R d1 d2 \<Longrightarrow> R d2 d3 \<Longrightarrow> R d1 d3"
    and handle: "\<And>meth path req s. R (pl_db (sr_pool s)) (db_of (handle server meth path req s))"
    and rates: "\<And>d cs t. positive_rates cs \<Longrightarrow> R d (d\<lparr>currencies := cs, db_now := t\<rparr>)"
  shows "R (system_db w) (system_db w')"
  using run
proof (induction rule: rtranclp_induct)
  case base
  show ?case by (rule refl)
next
  case (step w1 w2)
  from step.hyps(2) have "R (system_db w1) (system_db w2)"
  proof cases
    case (request meth path req)
    then show ?thesis using handle [of "sy_services w1"] by (simp add: services_of_def)
  next
    case (task redisOpt t r ws)
    then show ?thesis using run_task_db refl
      by (fastforce simp: with_worker_def worker_of_def dest: run_task_db)
  next
    case (rates cs t)
    then show ?thesis using assms(5) by simp
  next
    case outside
    then show ?thesis by (simp add: refl)
  qed
  with step.IH show ?case by (rule trans)
qed

lemma wf_rates: "wf_db d \<Longrightarrow> positive_rates cs \<Longrightarrow> wf_db (d\<lparr>currencies := cs, db_now := t\<rparr>)"
  by (simp add: positive_rates_def wf_defs)

lemma rates_keep:
  "bank_ok d \<Longrightarrow> positive_rates cs \<Longrightarrow> bank_ok (d\<lparr>currencies := cs, db_now := t\<rparr>)"
  "append_only d (d\<lparr>currencies := cs, db_now := t\<rparr>)"
  "same_people d (d\<lparr>currencies := cs, db_now := t\<rparr>)"
  "providers_ok d \<Longrightarrow> providers_ok (d\<lparr>currencies := cs, db_now := t\<rparr>)"
  "solvent d \<Longrightarrow> positive_rates cs \<Longrightarrow> solvent (d\<lparr>currencies := cs, db_now := t\<rparr>)"
  by (simp_all add: bank_ok_def wf_rates append_only_def same_people_def solvent_def)
    (simp_all add: books_balance_def entry_sum_def providers_ok_def no_overdraft_def positive_rates_def)

text \<open>The database as the migrations leave it.\<close>

lemma empty_db_ok: "bank_ok empty_db" "solvent empty_db" "providers_ok empty_db"
  by (simp_all add: bank_ok_def solvent_def providers_ok_def wf_empty_db)
    (simp_all add: empty_db_def books_balance_def no_overdraft_def)

end
