(* ===== verification/Api_Samples.thy ===== *)
theory Api_Samples
  imports System Samples
begin

section \<open>A sample server\<close>

text \<open>
  The parameters of the server filled in with the models of the packages, the settings of
  app.env, and requests of alice and bob to it, for the witnesses.
\<close>

definition sample_libs :: libs where
  "sample_libs = \<lparr>lb_validator = plain_validator, lb_bcrypt = plain_bcrypt, lb_gotp = step_gotp,
     lb_csrf = (\<lambda>req. Inr ''csrf''), lb_ParseAddress = (\<lambda>s. CHR ''@'' \<in> set s),
     lb_RFC3339 = show_int, lb_http = (\<lambda>_ _ _ _ _. NoResponse),
     lb_query = (\<lambda>kvs. concat (map (\<lambda>(k, v). k @ ''='' @ v @ ''&'') kvs)),
     lb_oob = (\<lambda>_. int_max 64)\<rparr>"

definition sample_config :: Config where
  "sample_config = \<lparr>DBSource = ''db'', AllowedOrigins = [''http://localhost:8080''],
     HTTPServerAddress = ''0.0.0.0:8080'', TokenSymmetricKey = ''bc05920a321d1e018d3c3de228c0b544'',
     AccessTokenDuration = 900 * 1000000000, RefreshTokenDuration = 86400 * 1000000000,
     RedisURL = ''redis'', MigrationURL = ''file'', EmailSenderName = ''Go2Bank'',
     EmailSenderAddress = ''bank@mail.com'', EmailSenderPassword = [], APILimitBound = 100,
     APILimitDuration = 300 * 1000000000, GoogleClientID = [], GoogleClientSecret = [],
     GoogleOAuthRedirectUrl = []\<rparr>"

definition sample_asynq :: "task list asynq_client" where
  "sample_asynq = \<lparr>aq_Enqueue = (\<lambda>t q. (True, q @ [t]))\<rparr>"

definition sample_maker :: PasetoMaker where
  "sample_maker = \<lparr>pm_paseto = sealed_paseto, pm_symmetricKey = TokenSymmetricKey sample_config\<rparr>"

definition sample_server :: "(mem_redis, task list) Server" where
  "sample_server = \<lparr>sv_config = sample_config, sv_tokenMaker = sample_maker,
     sv_kvStore = NewRedisStore mem_redis_client, sv_asynq = sample_asynq, sv_libs = sample_libs\<rparr>"

lemma sample_NewServer:
  "NewServer sample_libs sealed_paseto sample_config (NewRedisStore mem_redis_client) sample_asynq =
    Inr sample_server"
  by (simp add: NewServer_def NewPasetoMaker_def sample_config_def KeySize_def sample_server_def
      sample_maker_def)

text \<open>One reading of the clock a second, and a counter for the random source.\<close>

definition sample_env :: env where
  "sample_env = \<lparr>e_clock = (\<lambda>n. (1000 + int n) * 1000000000), e_ticks = 0, e_draw = (\<lambda>n. n), e_drawn = 0\<rparr>"

definition sample_kv :: mem_redis where
  "sample_kv = \<lparr>mr_vals = Map.empty, mr_zsets = Map.empty, mr_now = 0, mr_plan = []\<rparr>"

definition sample_services :: "(mem_redis, task list) services" where
  "sample_services = \<lparr>sr_pool = sample_pool, sr_kv = sample_kv, sr_queue = [], sr_env = sample_env\<rparr>"

definition sample_mail :: "string list mailer" where
  "sample_mail = (\<lambda>subject content to files m. (None, m @ [content]))"

definition sample_system :: "(mem_redis, task list, string list) system" where
  "sample_system = \<lparr>sy_services = sample_services, sy_mail = []\<rparr>"

lemmas server_sample_defs = sample_libs_def sample_config_def sample_asynq_def sample_maker_def
  sample_server_def sample_env_def sample_kv_def sample_services_def

text \<open>A request with a JSON body and, possibly, an access token.\<close>

definition sample_request :: "(string \<times> json) list \<Rightarrow> string option \<Rightarrow> request" where
  "sample_request fs token = \<lparr>rq_headers = (\<lambda>_. []),
     rq_cookies = (\<lambda>n. if n = ''access_token'' then token else None), rq_params = (\<lambda>_. []),
     rq_query = (\<lambda>_. None), rq_ip = ''10.0.0.1'', rq_body = JsonBody (JObject fs)\<rparr>"

lemma sample_saturates: "f64_nonneg y \<Longrightarrow> 0 \<le> lb_oob sample_libs y"
  by (simp add: sample_libs_def int_max_def)

lemma sample_validator: "validator_package (lb_validator sample_libs)"
  by (simp add: sample_libs_def plain_tags.validator_package_axioms)

lemma sample_server_libs [simp]: "sv_libs sample_server = sample_libs"
  by (simp add: sample_server_def)

interpretation sample: saturating_libs sample_libs
  by (intro saturating_libs.intro bank_libs.intro saturating_libs_axioms.intro)
    (rule sample_validator, rule sample_saturates)

lemma sample_db_ok: "bank_ok sample_db" "solvent sample_db" "providers_ok sample_db"
proof -
  have "books_balance sample_db" by (simp add: books_balance_def entry_sum_def sample_defs)
  then show "bank_ok sample_db" by (simp add: bank_ok_def)
  have "no_overdraft sample_db" by (simp add: no_overdraft_def sample_defs)
  moreover have "\<forall>r\<in>set (currencies sample_db). \<exists>v. cur_rate r = Num v \<and> 0 < v"
    by (simp add: sample_defs)
  ultimately show "solvent sample_db" by (simp add: solvent_def)
  have "list_all is_alnum ''alice''" "list_all is_alnum ''bob''" by code_simp+
  then show "providers_ok sample_db" by (simp add: providers_ok_def sample_defs)
qed

text \<open>The sample server's tokens are of the sealed kind.\<close>

lemma sample_sealed: "sealed.mk (TokenSymmetricKey sample_config) = sample_maker"
  by (simp add: sealed.mk_def sample_maker_def)

definition alice_token :: string where
  "alice_token = box (TokenSymmetricKey sample_config)
     \<lparr>pay_ID = ''7'', pay_Username = ''alice'', pay_Role = ''depositor'', pay_IssuedAt = 0,
      pay_ExpiredAt = 2000 * 1000000000\<rparr>"

definition alice_payload :: Payload where
  "alice_payload = \<lparr>pay_ID = ''7'', pay_Username = ''alice'', pay_Role = ''depositor'', pay_IssuedAt = 0,
      pay_ExpiredAt = 2000 * 1000000000\<rparr>"

lemma alice_token_verifies:
  assumes "fst (time_now e) \<le> 2000 * 1000000000"
  shows "VerifyToken sample_maker alice_token e = (Inr alice_payload, snd (time_now e))"
  using assms
  by (simp add: VerifyToken_def sample_maker_def sealed_paseto_def alice_token_def alice_payload_def
      unbox_box Valid_def split_beta)

lemma new_ctx_simps [simp]:
  "c_pool (new_ctx req s) = sr_pool s" "c_kv (new_ctx req s) = sr_kv s"
  "c_queue (new_ctx req s) = sr_queue s" "c_env (new_ctx req s) = sr_env s"
  "c_writes (new_ctx req s) = []" "\<not> c_aborted (new_ctx req s)" "\<not> c_finished (new_ctx req s)"
  "c_request (new_ctx req s) = req" "c_payload (new_ctx req s) = None" "c_body (new_ctx req s) = rq_body req"
  "c_cookies (new_ctx req s) = []"
  by (simp_all add: new_ctx_def)

text \<open>The context of a request of alice that passed the middleware.\<close>

definition alice_ctx :: "(string \<times> json) list \<Rightarrow> (mem_redis, task list) ctx" where
  "alice_ctx fs = (new_ctx (sample_request fs None) sample_services)\<lparr>c_payload := Some alice_payload\<rparr>"

lemma alice_ctx_simps [simp]:
  "c_pool (alice_ctx fs) = sample_pool" "c_payload (alice_ctx fs) = Some alice_payload"
  "c_body (alice_ctx fs) = JsonBody (JObject fs)" "c_writes (alice_ctx fs) = []"
  "c_kv (alice_ctx fs) = sample_kv" "c_queue (alice_ctx fs) = []" "c_env (alice_ctx fs) = sample_env"
  by (simp_all add: alice_ctx_def new_ctx_def sample_request_def sample_services_def)

definition transfer_body :: "int \<Rightarrow> int \<Rightarrow> int \<Rightarrow> string \<Rightarrow> (string \<times> json) list" where
  "transfer_body f g n cur = [(''from_account_id'', JInt f), (''to_account_id'', JInt g),
     (''amount'', JInt n), (''currency'', JString cur), (''otp'', JString ''000003'')]"

text \<open>Which handlers a request meets.\<close>

lemmas route_defs = find_route_def routes_def matches_def literal_def api_route_def
  auth_route_def auth_chain_def Let_def

lemma handle_createUser:
  "handle server ''POST'' [''api'', ''users''] req s = serve [plain (createUser server)]
    (new_ctx (bind_params [Lit ''api'', Lit ''users''] [''api'', ''users''] req) s)"
  by (simp add: handle_def route_defs)

lemma handle_createTransfer:
  "handle server ''POST'' [''api'', ''auth'', ''transfers''] req s =
    serve (auth_chain server @ [rate_limit server ''verifyOTP'' (APILimitBound (sv_config server))
        (APILimitDuration (sv_config server)),
      verifyOTPMiddleware (lb_gotp (sv_libs server)) (sv_kvStore server)
        (APILimitDuration (sv_config server)), plain (createTransfer server)])
    (new_ctx (bind_params [Lit ''api'', Lit ''auth'', Lit ''transfers''] [''api'', ''auth'', ''transfers''] req) s)"
  by (simp add: handle_def route_defs)

text \<open>What the simplifier unfolds to serve a request on concrete data.\<close>

lemmas call_defs = bind_params_def new_ctx_def serve_def plain_def Let_def
  store_call_def env_call_def kv_call_def queue_call_def exec_auto_def fault_of_def
  called_def select_def ShouldBindJSON_def Decode_def object_of_def names_def MustGet_def
  errorResponse_def status_def JSON_def

lemmas tag_defs = plain_validator_def validCurrency_def rune_count_def is_alnum_def is_digit_def
  is_lower_def is_upper_def

text \<open>carol registers.\<close>

definition carol_registers :: request where
  "carol_registers = sample_request [(''username'', JString ''carol''), (''full_name'', JString ''Carol''),
     (''email'', JString ''carol@mail.com''), (''password'', JString ''secret'')] None"

definition registered :: "(mem_redis, task list) ctx" where
  "registered = handle sample_server ''POST'' [''api'', ''users''] carol_registers sample_services"

lemma registered_run:
  "status registered = 201 \<and> map usr_username (users (db_of registered)) = [''alice'', ''bob'', ''carol'']"
  by (simp add: registered_def handle_createUser carol_registers_def sample_request_def server_sample_defs
    call_defs createUser_def createUserRequest_fields_def createUserRequest_binding_def tag_defs
    HashPassword_def draw_def plain_bcrypt_def query_defs sample_defs sample_pool_def
    newUserResponse_def lower_char_def)

end
