(* ===== verification/System_Claims.thy ===== *)
theory System_Claims
  imports Api_Samples
begin

section \<open>What holds in every reachable state\<close>

text \<open>
  The invariants of the bank along any run of the system, with a witness each: the run in
  which carol registers.
\<close>

definition carol_system :: "(mem_redis, task list, string list) system" where
  "carol_system = sample_system\<lparr>sy_services := services_of registered\<rparr>"

lemma carol_run: "system_steps sample_server sample_mail sample_system carol_system"
  using system_step.request [of sample_server sample_mail sample_system "''POST''" "[''api'', ''users'']"
      carol_registers]
  by (simp add: carol_system_def registered_def sample_system_def r_into_rtranclp)

lemma carol_db: "system_db carol_system = db_of registered"
  by (simp add: carol_system_def services_of_def)

lemma sample_system_db [simp]: "system_db sample_system = sample_db"
  by (simp add: sample_system_def sample_services_def sample_pool_def)

lemma bank_libs_server: "validator_package (lb_validator lib) \<Longrightarrow> bank_libs lib"
  by (rule bank_libs.intro)

text \<open>
  C6. The books always balance: from a database with an intact schema in which every
  account holds the sum of its entries, no sequence of requests (to any route, with any
  content and tokens), background tasks, new exchange rates and events outside the
  database, with any losses on the database connection, leads to one that is not so.
\<close>

theorem system_keeps_books:
  assumes "validator_package (lb_validator (sv_libs server))"
    and "system_steps server mail w w'" and "bank_ok (system_db w)"
  shows "bank_ok (system_db w')"
  using steps_keep [OF assms(2), of "\<lambda>d d'. bank_ok d \<longrightarrow> bank_ok d'"] rates_keep(1) assms(3)
    bank_libs.handle_ledger [OF bank_libs_server [OF assms(1)] refl] by blast

theorem system_keeps_books_witness:
  "bank_ok (system_db carol_system) \<and> length (users (system_db carol_system)) = 3"
proof -
  have "bank_ok (system_db carol_system)"
    by (rule system_keeps_books [OF _ carol_run]) (simp_all add: sample_validator sample_db_ok)
  moreover have "length (users (system_db carol_system)) = 3"
    using registered_run by (metis carol_db length_map length_Cons list.size(3) numeral_3_eq_3)
  ultimately show ?thesis ..
qed

text \<open>
  C7. The log is append-only: entries and transfers that were ever written stay, unchanged
  and in order, in every later state.
\<close>

theorem system_log_append_only:
  assumes "validator_package (lb_validator (sv_libs server))" and "system_steps server mail w w'"
  shows "append_only (system_db w) (system_db w')"
  using steps_keep [OF assms(2), of append_only] rates_keep(2) append_only_trans append_only_frame
    bank_libs.handle_log [OF bank_libs_server [OF assms(1)] refl] by blast

theorem system_log_append_only_witness:
  "\<exists>es. map ent_amount (entries (system_db carol_system)) = [100, 50, 40] @ es"
proof -
  have "append_only sample_db (system_db carol_system)"
    using system_log_append_only [OF _ carol_run] by (simp add: sample_validator)
  then obtain es where "entries (system_db carol_system) = entries sample_db @ es"
    by (auto simp: append_only_def)
  then show ?thesis by (simp add: sample_defs)
qed

text \<open>
  C8. Identities are fixed: an account never changes its number, owner or currency and is
  never removed, a user never changes its name, role or provider and is never removed; new
  accounts are in a supported currency and new users are depositors, so no request makes
  a banker.
\<close>

theorem system_identities:
  assumes "validator_package (lb_validator (sv_libs server))" and "system_steps server mail w w'"
  shows "same_people (system_db w) (system_db w')"
  using steps_keep [OF assms(2), of same_people] rates_keep(3) same_people_trans same_people_refl
    bank_libs.handle_people [OF bank_libs_server [OF assms(1)] refl] by blast

theorem system_identities_witness:
  "list_all (\<lambda>u. usr_role u = DepositorRole) (users (system_db carol_system))"
proof -
  have "same_people sample_db (system_db carol_system)"
    using system_identities [OF _ carol_run] by (simp add: sample_validator)
  then obtain us where us: "map user_key (users (system_db carol_system)) = map user_key (users sample_db) @ us"
    "\<forall>(n, role, prov)\<in>set us. role = DepositorRole" by (auto simp: same_people_def)
  have "\<forall>(n, role, prov)\<in>set (map user_key (users (system_db carol_system))). role = DepositorRole"
    unfolding us(1) using us(2) by (auto simp: user_key_def sample_defs DepositorRole_def)
  then show ?thesis by (auto simp: user_key_def list_all_iff)
qed

text \<open>
  C9. Local and Google users never mix: a local user has a name of letters and digits, a
  user of Google has a hyphen in its name and no password hash. So a login with Google
  never takes over a local account and never leaves a password behind.
\<close>

theorem system_providers:
  assumes "validator_package (lb_validator (sv_libs server))"
    and "system_steps server mail w w'" and "providers_ok (system_db w)"
  shows "providers_ok (system_db w')"
  using steps_keep [OF assms(2), of "\<lambda>d d'. providers_ok d \<longrightarrow> providers_ok d'"] rates_keep(4) assms(3)
    bank_libs.handle_providers [OF bank_libs_server [OF assms(1)] refl] by blast

theorem system_providers_witness: "providers_ok (system_db carol_system)"
  by (rule system_providers [OF _ carol_run]) (simp_all add: sample_validator sample_db_ok)

text \<open>
  C10. When requests run one after another, rates are positive and the conversion of a
  value out of range saturates, no account is ever overdrawn.
\<close>

theorem system_solvent:
  assumes "validator_package (lb_validator (sv_libs server))"
    and "\<And>y. f64_nonneg y \<Longrightarrow> 0 \<le> lb_oob (sv_libs server) y"
    and "system_steps server mail w w'" and "solvent (system_db w)"
  shows "\<forall>a\<in>set (accounts (system_db w')). 0 \<le> acc_balance a"
proof -
  have lib: "saturating_libs (sv_libs server)"
    using assms(1,2) by (intro saturating_libs.intro bank_libs.intro saturating_libs_axioms.intro)
  have "solvent (system_db w')"
    using steps_keep [OF assms(3), of "\<lambda>d d'. solvent d \<longrightarrow> solvent d'"] rates_keep(5) assms(4)
      saturating_libs.handle_solvency [OF lib refl] by blast
  then show ?thesis by (simp add: solvent_def no_overdraft_def)
qed

theorem system_solvent_witness:
  "list_all (\<lambda>a. 0 \<le> acc_balance a) (accounts (system_db carol_system))"
  unfolding list_all_iff
  by (rule system_solvent [OF _ _ carol_run]) (simp_all add: sample_validator sample_saturates sample_db_ok)

end
