(* ===== verification/Auth_Claims.thy ===== *)
theory Auth_Claims
  imports Api_Samples
begin

section \<open>Authentication in front of the protected routes\<close>

text \<open>
  What the group \<open>/api/auth\<close> of routes lets through: how the chain of a protected route
  runs, what a request without a valid token can do (nothing), how long a token is good
  for, and the one header on which the middleware panics.
\<close>

subsection \<open>The chain of a protected route\<close>

lemma run_chain_ends: "run_chain hs c = Done c' \<Longrightarrow> c_finished c' \<or> c_aborted c'"
  by (induction hs c rule: run_chain.induct) (auto split: outcome.splits if_splits)

lemma chain_through:
  assumes "\<not> c_aborted c" and "hs \<noteq> []" and "h (run_chain hs) c = run_chain hs c1"
  shows "run_chain (h # hs) c = run_chain hs c1"
proof (cases "run_chain hs c1")
  case (Done c')
  with run_chain_ends [OF Done] assms show ?thesis by (auto simp: run_chain_aborted)
qed (use assms in simp)

definition with_csrf :: "string \<Rightarrow> ('r, 'q) ctx \<Rightarrow> ('r, 'q) ctx" where
  "with_csrf token c = Header ''X-CSRF-Token'' token (c\<lparr>c_csrf := token\<rparr>)"

lemma csrf_chain:
  assumes "\<not> c_aborted c" and "\<not> c_finished c" and "lb_csrf (sv_libs server) (c_request c) = Inr token"
  shows "run_chain (auth_chain server @ hs) c =
    run_chain (authMiddleware (sv_tokenMaker server) # hs) (with_csrf token c)"
proof -
  let ?hs = "plain csrfTokenMiddleware # authMiddleware (sv_tokenMaker server) # hs"
  have "run_chain (csrfVerifyMiddleware (lb_csrf (sv_libs server)) # ?hs) c =
      run_chain ?hs (c\<lparr>c_csrf := token\<rparr>)"
    by (rule chain_through) (use assms in \<open>simp_all add: csrfVerifyMiddleware_def\<close>)
  also have "\<dots> = run_chain (authMiddleware (sv_tokenMaker server) # hs) (with_csrf token c)"
    using assms by (simp add: plain_def csrfTokenMiddleware_def with_csrf_def)
  finally show ?thesis by (simp add: auth_chain_def)
qed

lemma auth_route_paths:
  "list_all (\<lambda>rt. match_path (rt_path rt) (''api'' # ''auth'' # path) \<noteq> None \<longrightarrow>
     (\<exists>hs. hs \<noteq> [] \<and> rt_handlers rt = auth_chain server @ hs)) (routes server)"
  by (simp add: routes_def Let_def api_route_def auth_route_def)

lemma find_auth_route:
  assumes "find_route (routes server) meth (''api'' # ''auth'' # path) = Some rt"
  obtains hs where "hs \<noteq> []" "rt_handlers rt = auth_chain server @ hs"
  using find_route_Some [OF assms] auth_route_paths [of path server]
  by (auto simp: list_all_iff matches_def)

subsection \<open>Requests without a valid token\<close>

text \<open>The payload a request is let through with, if any.\<close>

definition authenticates :: "('r, 'q) Server \<Rightarrow> ('r, 'q) ctx \<Rightarrow> (Payload \<times> env) option" where
  "authenticates server c = (case presented c of
       None \<Rightarrow> None
     | Some t \<Rightarrow> (case VerifyToken (sv_tokenMaker server) t (c_env c) of
         (Inr p, e) \<Rightarrow> Some (p, e) | (Inl _, _) \<Rightarrow> None))"

lemma with_csrf_simps [simp]:
  "c_request (with_csrf t c) = c_request c" "c_env (with_csrf t c) = c_env c"
  "c_pool (with_csrf t c) = c_pool c" "c_kv (with_csrf t c) = c_kv c" "c_queue (with_csrf t c) = c_queue c"
  "c_writes (with_csrf t c) = c_writes c" "c_aborted (with_csrf t c) = c_aborted c"
  "c_finished (with_csrf t c) = c_finished c" "c_payload (with_csrf t c) = c_payload c"
  "c_body (with_csrf t c) = c_body c"
  by (simp_all add: with_csrf_def)

lemma authenticates_cong:
  assumes "rq_headers (c_request c) = rq_headers (c_request c')"
    and "rq_cookies (c_request c) = rq_cookies (c_request c')" and "c_env c = c_env c'"
  shows "authenticates server c = authenticates server c'"
  unfolding authenticates_def presented_def Cookie_def GetHeader_def assms ..

lemma authenticates_with_csrf [simp]: "authenticates server (with_csrf token c) = authenticates server c"
  by (rule authenticates_cong) simp_all

lemma auth_refuses:
  assumes "authenticates server c = None"
  shows "\<exists>c'. refused c c' \<and> c_writes c' \<noteq> c_writes c \<and>
    (authMiddleware (sv_tokenMaker server) next c = Done c' \<and> c_aborted c' \<or>
     authMiddleware (sv_tokenMaker server) next c = Panicked c')"
proof (cases "presented c")
  case None
  then show ?thesis by (rule auth_not_presented)
next
  case (Some t)
  with assms obtain err e where "VerifyToken (sv_tokenMaker server) t (c_env c) = (Inl err, e)"
    by (auto simp: authenticates_def split: prod.splits sum.splits)
  with Some show ?thesis
    by (simp add: auth_presented auth_verify_cases refused_def AbortWithStatusJSON_def)
qed

lemma auth_lets_through:
  assumes "authenticates server c = Some (p, e)"
  shows "authMiddleware (sv_tokenMaker server) next c = next (with_payload p e c)"
  using assms
  by (auto simp: authenticates_def auth_presented auth_verify_cases split: option.splits prod.splits sum.splits)

lemma auth_chain_refuses:
  assumes "authenticates server c = None" and "\<not> c_aborted c"
  shows "\<exists>c' ws. serve (authMiddleware (sv_tokenMaker server) # hs) c = c' \<and>
    c_pool c' = c_pool c \<and> c_kv c' = c_kv c \<and> c_queue c' = c_queue c \<and>
    c_writes c' = c_writes c @ ws \<and> ws \<noteq> [] \<and> fst (hd ws) = 401 \<and> fst ` set ws \<subseteq> {401, 500}"
proof -
  obtain c' where r: "refused c c'" "c_writes c' \<noteq> c_writes c"
    and run: "authMiddleware (sv_tokenMaker server) (run_chain hs) c = Done c' \<and> c_aborted c' \<or>
      authMiddleware (sv_tokenMaker server) (run_chain hs) c = Panicked c'"
    using auth_refuses [OF assms(1)] by blast
  from r obtain ws where ws: "c_writes c' = c_writes c @ ws" "ws \<noteq> []" "fst ` set ws \<subseteq> {401}"
    by (force simp: refused_def)
  then have hd: "fst (hd ws) = 401" by (cases ws) auto
  have same: "c_pool c' = c_pool c" "c_kv c' = c_kv c" "c_queue c' = c_queue c"
    using r(1) by (simp_all add: refused_def)
  from run show ?thesis
  proof
    assume d: "authMiddleware (sv_tokenMaker server) (run_chain hs) c = Done c' \<and> c_aborted c'"
    then have "serve (authMiddleware (sv_tokenMaker server) # hs) c \<in> {c', c'\<lparr>c_finished := True\<rparr>}"
      using assms(2) by (cases hs) (auto simp: serve_def)
    with same ws hd show ?thesis by (intro exI [of _ "serve (authMiddleware (sv_tokenMaker server) # hs) c"] exI [of _ ws]) auto
  next
    assume p: "authMiddleware (sv_tokenMaker server) (run_chain hs) c = Panicked c'"
    then have "serve (authMiddleware (sv_tokenMaker server) # hs) c = JSON 500 Empty (Abort c')"
      using assms(2) by (simp add: serve_def)
    with same ws hd show ?thesis by (intro exI [of _ "serve (authMiddleware (sv_tokenMaker server) # hs) c"] exI [of _ "ws @ [(500, Empty)]"]) auto
  qed
qed

lemma authenticates_bind [simp]:
  "authenticates server (new_ctx (bind_params ps path req) s) = authenticates server (new_ctx req s)"
  by (rule authenticates_cong) (simp_all add: bind_params_def split: option.split)

lemma csrf_refuses:
  assumes "\<not> c_aborted c" and "\<not> c_finished c" and "lb_csrf (sv_libs server) (c_request c) = Inl (code, r)"
  shows "serve (auth_chain server @ hs) c = Abort (JSON code r c)"
  using assms by (simp add: auth_chain_def serve_def csrfVerifyMiddleware_def)

subsection \<open>Claims\<close>

text \<open>
  C11. No route under \<open>/api/auth\<close> does anything for a request without a valid token,
  whatever method, path, headers and body it has: database, key-value store and task queue
  are as before, and every write is an error; the first is a 401, unless the CSRF check
  or the router refused the request already.
\<close>

theorem auth_required:
  assumes "authenticates server (new_ctx req s) = None"
    and "\<And>r code err. lb_csrf (sv_libs server) r = Inl (code, err) \<Longrightarrow> 400 \<le> code"
  shows "let c = handle server meth (''api'' # ''auth'' # path) req s in
    c_pool c = sr_pool s \<and> c_kv c = sr_kv s \<and> c_queue c = sr_queue s \<and>
    c_writes c \<noteq> [] \<and> (\<forall>(code, r)\<in>set (c_writes c). 400 \<le> code)"
proof (cases "find_route (routes server) meth (''api'' # ''auth'' # path)")
  case None
  then show ?thesis by (simp add: handle_def)
next
  case (Some rt)
  obtain hs where hs: "rt_handlers rt = auth_chain server @ hs" using find_auth_route [OF Some] by blast
  let ?c = "new_ctx (bind_params (rt_path rt) (''api'' # ''auth'' # path) req) s"
  have run: "handle server meth (''api'' # ''auth'' # path) req s = serve (auth_chain server @ hs) ?c"
    using Some hs by (simp add: handle_def)
  show ?thesis
  proof (cases "lb_csrf (sv_libs server) (c_request ?c)")
    case (Inl a)
    obtain code r where "a = (code, r)" by (cases a)
    with Inl csrf_refuses [of ?c server code r hs] assms(2) run show ?thesis by simp
  next
    case (Inr token)
    then have "handle server meth (''api'' # ''auth'' # path) req s =
        serve (authMiddleware (sv_tokenMaker server) # hs) (with_csrf token ?c)"
      using csrf_chain [of ?c server token hs] run by (simp add: serve_def)
    moreover obtain ws where "ws \<noteq> []" "fst ` set ws \<subseteq> {401, 500}"
      "c_writes (serve (authMiddleware (sv_tokenMaker server) # hs) (with_csrf token ?c)) = ws"
      "c_pool (serve (authMiddleware (sv_tokenMaker server) # hs) (with_csrf token ?c)) = sr_pool s"
      "c_kv (serve (authMiddleware (sv_tokenMaker server) # hs) (with_csrf token ?c)) = sr_kv s"
      "c_queue (serve (authMiddleware (sv_tokenMaker server) # hs) (with_csrf token ?c)) = sr_queue s"
      using auth_chain_refuses [of server "with_csrf token ?c" hs] assms(1) by auto
    ultimately show ?thesis by (force simp: Let_def)
  qed
qed

text \<open>alice's token after its expiry.\<close>

definition late_services :: "(mem_redis, task list) services" where
  "late_services = sample_services\<lparr>sr_env := sample_env\<lparr>e_clock := (\<lambda>_. 3000 * 1000000000)\<rparr>\<rparr>"

theorem auth_required_witness:
  "let c = handle sample_server ''POST'' [''api'', ''auth'', ''transfers'']
      (sample_request [] (Some alice_token)) late_services
   in c_pool c = sample_pool \<and> c_writes c \<noteq> [] \<and> list_all (\<lambda>(code, r). 400 \<le> code) (c_writes c)"
proof -
  have "fst (VerifyToken sample_maker alice_token (sr_env late_services)) = Inl ErrExpiredToken"
    by (simp add: VerifyToken_def sample_maker_def sealed_paseto_def alice_token_def unbox_box Valid_def
        split_beta time_now_def late_services_def)
  then have "authenticates sample_server (new_ctx (sample_request [] (Some alice_token)) late_services) = None"
    by (auto simp: authenticates_def presented_def Cookie_def sample_request_def sample_server_def
        split: prod.split sum.split)
  from auth_required [OF this, of "''POST''" "[''transfers'']"] show ?thesis
    by (simp add: Let_def sample_libs_def late_services_def sample_services_def list_all_iff)
qed

text \<open>
  C12. Tokens round trip: a token that \<open>CreateToken\<close> makes verifies to the payload it was
  made with, with the user and the role given, until the duration has passed since the
  moment it was made, and is reported as expired from then on.
\<close>

theorem token_roundtrip:
  assumes "paseto_package lib key"
    and "CreateToken \<lparr>pm_paseto = lib, pm_symmetricKey = key\<rparr> u r d e = (Inr (t, p), e')"
  shows "pay_Username p = u \<and> pay_Role p = r \<and>
    (\<forall>f. fst (VerifyToken \<lparr>pm_paseto = lib, pm_symmetricKey = key\<rparr> t f) =
      (if fst (time_now f) \<le> e_clock e (Suc (e_ticks e)) + d then Inr p else Inl ErrExpiredToken))"
  using paseto_package.token_life [OF assms(1), unfolded paseto_package.mk_def [OF assms(1)], OF assms(2)]
  by blast

theorem token_roundtrip_witness:
  "\<exists>t p e'. CreateToken \<lparr>pm_paseto = sealed_paseto, pm_symmetricKey = ''k''\<rparr> ''alice'' ''depositor'' 60
      sample_env = (Inr (t, p), e') \<and>
    fst (VerifyToken \<lparr>pm_paseto = sealed_paseto, pm_symmetricKey = ''k''\<rparr> t sample_env) = Inr p"
proof -
  obtain t p e' where c: "CreateToken \<lparr>pm_paseto = sealed_paseto, pm_symmetricKey = ''k''\<rparr> ''alice''
      ''depositor'' 60 sample_env = (Inr (t, p), e')"
    by (simp add: CreateToken_def NewPayload_def sealed_paseto_def draw_def time_now_def)
  from token_roundtrip [OF sealed.paseto_package_axioms c]
  have "fst (VerifyToken \<lparr>pm_paseto = sealed_paseto, pm_symmetricKey = ''k''\<rparr> t sample_env) = Inr p"
    by (simp add: sample_env_def time_now_def)
  with c show ?thesis by blast
qed


lemma alice_authenticates:
  "authenticates sample_server (new_ctx (sample_request fs (Some alice_token)) sample_services) =
    Some (alice_payload, snd (time_now sample_env))"
proof -
  have "fst (time_now sample_env) \<le> 2000 * 1000000000" by (simp add: time_now_def sample_env_def)
  from alice_token_verifies [OF this] show ?thesis
    by (simp add: authenticates_def presented_def Cookie_def sample_request_def sample_server_def
        sample_services_def)
qed


text \<open>
  C14. The middleware panics on a short header: an authorization header of one word writes
  the 401 for an invalid header and goes on; the word \<open>bearer\<close> alone (and a header of
  blanks) then panics out of range, another word gets a second 401. The source lacks a
  \<open>return\<close> after the first answer.
\<close>

theorem auth_short_header:
  assumes "Cookie c ''access_token'' = None" and "GetHeader c authorizationHeaderKey \<noteq> []"
    and "length (Fields (GetHeader c authorizationHeaderKey)) < 2"
  shows "let c1 = AbortWithStatusJSON 401 (Error (Msg ''invalid authorization header'')) c in
    authMiddleware maker next c =
      (case Fields (GetHeader c authorizationHeaderKey) of
         [] \<Rightarrow> Panicked c1
       | w # _ \<Rightarrow> if ToLower w = authorizationTypeBearer then Panicked c1
           else Done (AbortWithStatusJSON 401
             (Error (Msg (''unsupported authorization type '' @ ToLower w))) c1))"
  using assms by (auto simp: authMiddleware_def Let_def errorResponse_def split: list.split)

definition bearer_request :: request where
  "bearer_request = (sample_request [] None)\<lparr>rq_headers :=
     (\<lambda>h. if h = ''authorization'' then ''Bearer'' else [])\<rparr>"

theorem auth_short_header_witness:
  "\<exists>c1. authMiddleware sample_maker Done (new_ctx bearer_request sample_services) = Panicked c1 \<and>
    c_writes c1 = [(401, Error (Msg ''invalid authorization header''))]"
proof -
  let ?c = "new_ctx bearer_request sample_services"
  have h: "GetHeader ?c authorizationHeaderKey = ''Bearer''"
    by (simp add: GetHeader_def bearer_request_def authorizationHeaderKey_def) code_simp
  have "Fields ''Bearer'' = [''Bearer'']" "ToLower ''Bearer'' = authorizationTypeBearer" by code_simp+
  with auth_short_header [of ?c sample_maker Done] h show ?thesis
    by (simp add: Let_def Cookie_def bearer_request_def sample_request_def AbortWithStatusJSON_def)
qed

end
