(* ===== verification/Transfer_Claims.thy ===== *)
theory Transfer_Claims
  imports Api_Samples
begin

section \<open>What POST /transfers does\<close>

text \<open>
  The contract of \<open>createTransfer\<close>: what it may do to the database, when it succeeds, and
  how its amounts relate, with the corners where the arithmetic or an error path of
  \<open>currencyExchange\<close> goes wrong.
\<close>

lemma transfer_of_facts:
  assumes "validator_package (lb_validator lib)" and "transfer_of lib c arg"
  shows "\<exists>payload a. c_payload c = Some payload \<and>
    account_row (ttp_from_account_id arg) (db_of c) = Some a \<and> acc_owner a = pay_Username payload \<and>
    0 < ttp_from_amount arg \<and> i64 (ttp_from_amount arg)"
proof -
  from assms(2) obtain fs rq payload a where t: "transferRequest_fields fs = Some rq"
    "transferRequest_binding (lb_validator lib) rq" "c_payload c = Some payload"
    "GetAccount (trq_FromAccountID rq) (db_of c) = Inr a" "acc_owner a = pay_Username payload"
    "ttp_from_account_id arg = trq_FromAccountID rq" "ttp_from_amount arg = trq_Amount rq"
    by (auto simp: transfer_of_def)
  have "0 < trq_Amount rq"
    using t(2) validator_package.gt_int [OF assms(1)] by (simp add: transferRequest_binding_def)
  moreover have "account_row (trq_FromAccountID rq) (db_of c) = Some a"
    using t(4) by (simp add: GetAccount_def split: option.splits)
  ultimately show ?thesis using t transferRequest_i64 [OF t(1)] by simp
qed

text \<open>alice asks for 30 USD from her account 1 to bob's account 2.\<close>

lemma alice_pays_from:
  assumes "c_payload c = Some alice_payload" and "c_body c = JsonBody (JObject (transfer_body 1 2 30 ''USD''))"
    and "GetAccount 1 (db_of c) = Inr a" and "acc_owner a = ''alice''" and "acc_currency a = ''USD''"
    and "GetAccount 2 (db_of c) = Inr b" and "acc_currency b = ''USD''"
    and "GetExchangeRate ''USD'' (db_of c) = Inr (Num 32)"
  shows "transfer_of sample_libs c (sample_transfer 1 2 30)"
proof -
  let ?req = "\<lparr>trq_FromAccountID = 1, trq_ToAccountID = 2, trq_Amount = 30, trq_Currency = ''USD'',
      trq_OTP = ''000003''\<rparr>"
  have "transferRequest_fields (transfer_body 1 2 30 ''USD'') = Some ?req"
    by (simp add: transferRequest_fields_def transfer_body_def names_def i64_iff)
  moreover have "transferRequest_binding (lb_validator sample_libs) ?req"
    by (simp add: transferRequest_binding_def sample_libs_def tag_defs IsSupportedCurrency_def USD_def)
  moreover have "exchanged (lb_oob sample_libs) (Num 32) (Num 32) 30 = 30"
    by (rule exchanged_same) simp_all
  ultimately show ?thesis
    unfolding transfer_of_def
    by (intro exI [of _ "transfer_body 1 2 30 ''USD''"] exI [of _ ?req] exI [of _ alice_payload]
        exI [of _ a] exI [of _ b] exI [of _ "Num 32"])
      (simp add: assms Decode_def object_of_def alice_payload_def sample_transfer_def)
qed

lemma alice_pays:
  "transfer_of sample_libs (alice_ctx (transfer_body 1 2 30 ''USD'')) (sample_transfer 1 2 30)"
  by (rule alice_pays_from [of _ "sample_account 1 ''alice'' 100 ''USD''" "sample_account 2 ''bob'' 50 ''USD''"])
    (simp_all add: GetAccount_def GetExchangeRate_def sample_defs)

text \<open>A read on a connection without faults.\<close>

lemma exec_select_ok [simp]:
  "healthy p \<Longrightarrow> exec_auto (select g) p = (g (pl_db p), called p)"
  by (simp add: healthy_def exec_auto_def fault_of_def select_def)

lemma exec_select_reached:
  "fault_of p = NoFault \<Longrightarrow> exec_auto (select g) p = (g (pl_db p), called p)"
  "fault_of p \<noteq> NoFault \<Longrightarrow> exec_auto (select g) p = (Inl ConnError, called p)"
  by (simp_all add: exec_auto_def select_def split: fault.split)

text \<open>A valid request gets to the transaction, after four reads.\<close>

lemma createTransfer_transaction:
  assumes "healthy (c_pool c)" and "transfer_of (sv_libs server) c arg"
    and "TransferTx arg (called (called (called (called (c_pool c))))) = (Inr r, q)"
  shows "\<exists>c'. createTransfer server c = Done c' \<and> answered c c' 200 (TransferReply r) \<and> c_pool c' = q"
proof -
  from assms(2) obtain fs req payload a b x y where t: "Decode (c_body c) = Some fs"
    "transferRequest_fields fs = Some req" "transferRequest_binding (lb_validator (sv_libs server)) req"
    "c_payload c = Some payload" "GetAccount (trq_FromAccountID req) (db_of c) = Inr a"
    "acc_owner a = pay_Username payload" "acc_currency a = trq_Currency req"
    "GetAccount (trq_ToAccountID req) (db_of c) = Inr b"
    "GetExchangeRate (acc_currency a) (db_of c) = Inr x" "GetExchangeRate (acc_currency b) (db_of c) = Inr y"
    "arg = \<lparr>ttp_from_account_id = trq_FromAccountID req, ttp_to_account_id = trq_ToAccountID req,
       ttp_from_amount = trq_Amount req,
       ttp_to_amount = exchanged (lb_oob (sv_libs server)) x y (trq_Amount req)\<rparr>"
    unfolding transfer_of_def by blast
  with assms(1,3) show ?thesis
    by (simp add: createTransfer_def ShouldBindJSON_def validAccount_def currencyExchange_def
        MustGet_def store_call_def answered_def)
qed

lemma alice_tx:
  "\<exists>r q. TransferTx (sample_transfer 1 2 30) (called (called (called (called sample_pool)))) = (Inr r, q) \<and>
    map acc_balance (accounts (pl_db q)) = [70, 80, 40]"
proof -
  let ?p = "called (called (called (called sample_pool)))"
  obtain r q where tx: "TransferTx (sample_transfer 1 2 30) ?p = (Inr r, q)"
    using TransferTx_healthy [of ?p "sample_transfer 1 2 30"] sample_ready by auto
  from TransferTx_InrD [OF tx] have "pl_db q = transferred (sample_transfer 1 2 30) sample_db" by simp
  with tx show ?thesis
    by (simp add: transferred_def moved_accounts_def from_entry_def to_entry_def debit_of_def
        sample_defs wrap_def)
qed

lemma alice_pays_run:
  "\<exists>c'. createTransfer sample_server (alice_ctx (transfer_body 1 2 30 ''USD'')) = Done c'"
  using alice_tx createTransfer_transaction [of "alice_ctx (transfer_body 1 2 30 ''USD'')" sample_server]
    alice_pays by fastforce

text \<open>
  C15. A transfer is authorised and covered: whatever the request, the stored data and the
  faults, \<open>createTransfer\<close> changes no row, or it carries out exactly one transfer, of a
  positive amount out of an account that belongs to the authenticated user and holds the
  amount.
\<close>

theorem create_transfer_authorised:
  assumes "validator_package (lb_validator (sv_libs server))"
  shows "same_rows (db_of c) (db_of (after (createTransfer server c))) \<or>
    (\<exists>arg payload a. c_payload c = Some payload \<and>
       account_row (ttp_from_account_id arg) (db_of c) = Some a \<and> acc_owner a = pay_Username payload \<and>
       0 < ttp_from_amount arg \<and> ttp_from_amount arg \<le> acc_balance a \<and>
       db_of (after (createTransfer server c)) = transferred arg (db_of c))"
  using createTransfer_cases [of c server]
proof (elim disjE exE conjE)
  assume "refusal c (createTransfer server c)"
  then show ?thesis by (simp add: refusal_def)
next
  fix arg p r q c'
  assume t: "transfer_of (sv_libs server) c arg" and p: "pl_db p = db_of c"
    and tx: "TransferTx arg p = (r, q)" and run: "createTransfer server c = Done c'" "c_pool c' = q"
  from TransferTx_rows_cases [OF tx] show ?thesis
  proof
    assume "same_rows (pl_db p) (pl_db q)"
    with run p show ?thesis by simp
  next
    assume r: "transfer_ready arg (pl_db p) \<and> pl_db q = transferred arg (pl_db p)"
    obtain payload a where a: "c_payload c = Some payload"
      "account_row (ttp_from_account_id arg) (db_of c) = Some a" "acc_owner a = pay_Username payload"
      "0 < ttp_from_amount arg" using transfer_of_facts [OF assms t] by blast
    moreover have "ttp_from_amount arg \<le> acc_balance a"
      using r p a(2) by (simp add: transfer_ready_def balance_in_def)
    ultimately show ?thesis using r run p by auto
  qed
qed

theorem create_transfer_authorised_witness:
  "\<exists>d. db_of (after (createTransfer sample_server (alice_ctx (transfer_body 1 2 30 ''USD'')))) = d \<and>
    (same_rows sample_db d \<or> (\<exists>arg. 0 < ttp_from_amount arg \<and> d = transferred arg sample_db))"
  using create_transfer_authorised [of sample_server "alice_ctx (transfer_body 1 2 30 ''USD'')"]
  by (auto simp: sample_validator)

text \<open>
  C16. What a client is told is what happened, on a connection without faults: an answer
  200 carries the rows of a transfer that was carried out in full, and an error answer
  means that no row has changed.
\<close>

theorem create_transfer_truthful:
  assumes "healthy (c_pool c)" and "createTransfer server c = Done c'"
  shows "(\<exists>arg. answered c c' 200 (TransferReply (transfer_result arg (db_of c))) \<and>
       transfer_ready arg (db_of c) \<and> db_of c' = transferred arg (db_of c)) \<or>
    (\<exists>code e. code \<noteq> 200 \<and> answered c c' code (Error e) \<and> same_rows (db_of c) (db_of c'))"
  using createTransfer_cases [of c server]
proof (elim disjE exE conjE)
  assume "refusal c (createTransfer server c)"
  with assms(2) show ?thesis by (auto simp: refusal_def same_rows_def)
next
  fix arg p r q c1
  assume p: "pl_db p = db_of c" "pl_faults p = pl_faults (c_pool c)"
    and tx: "TransferTx arg p = (r, q)" and run: "createTransfer server c = Done c1" "c_pool c1 = q"
    and reply: "case r of
       Inl e \<Rightarrow> answered c c1 (if e = ErrInsufficientBalance then 400 else 500) (Error (DbErr e))
     | Inr res \<Rightarrow> answered c c1 200 (TransferReply res)"
  from run assms(2) have c': "c1 = c'" "db_of c' = pl_db q" by simp_all
  show ?thesis
  proof (cases r)
    case (Inl e)
    have "pl_faults p n \<noteq> LostReply" for n using assms(1) p(2) by (simp add: healthy_def)
    with TransferTx_InlD [of arg p e q] tx Inl p c' have "same_rows (db_of c) (db_of c')" by auto
    with reply Inl c' have "answered c c' (if e = ErrInsufficientBalance then 400 else 500) (Error (DbErr e))"
      "(if e = ErrInsufficientBalance then 400 else 500) \<noteq> (200 :: int)" by simp_all
    with \<open>same_rows (db_of c) (db_of c')\<close> show ?thesis by blast
  next
    case (Inr res)
    with TransferTx_InrD [of arg p res q] tx p c' reply show ?thesis by auto
  qed
qed

theorem create_transfer_truthful_witness:
  "\<exists>c'. createTransfer sample_server (alice_ctx (transfer_body 1 2 30 ''USD'')) = Done c' \<and>
    ((\<exists>r. c_writes c' = [(200, TransferReply r)]) \<or> same_rows sample_db (db_of c'))"
proof -
  obtain c' where run: "createTransfer sample_server (alice_ctx (transfer_body 1 2 30 ''USD'')) = Done c'"
    using alice_pays_run by blast
  from create_transfer_truthful [OF _ run] have
    "(\<exists>r. c_writes c' = [(200, TransferReply r)]) \<or> same_rows sample_db (db_of c')"
    by (auto simp: answered_def)
  with run show ?thesis by blast
qed

text \<open>
  C17. Liveness: an authorised, valid request whose amounts fit is carried out. If the
  connection has no faults, the body is a valid transfer out of an account of the
  authenticated user, both currencies have rates, and the store is ready for the exchanged
  amount, then the answer is 200 and the money has moved.
\<close>

theorem create_transfer_succeeds:
  assumes "healthy (c_pool c)" and "wf_db (db_of c)"
    and "transfer_of (sv_libs server) c arg" and "transfer_ready arg (db_of c)"
  shows "\<exists>c'. createTransfer server c = Done c' \<and>
    answered c c' 200 (TransferReply (transfer_result arg (db_of c))) \<and>
    db_of c' = transferred arg (db_of c)"
proof -
  let ?p = "called (called (called (called (c_pool c))))"
  have h: "healthy ?p" and db: "pl_db ?p = db_of c" using assms(1) by simp_all
  with TransferTx_healthy [of ?p arg] assms(2,4) obtain r q where tx: "TransferTx arg ?p = (Inr r, q)"
    by auto
  from TransferTx_InrD [OF this] have "r = transfer_result arg (db_of c)"
    "pl_db q = transferred arg (db_of c)" using db by simp_all
  with createTransfer_transaction [OF assms(1,3) tx] show ?thesis by metis
qed

theorem create_transfer_succeeds_witness:
  "\<exists>c' r. createTransfer sample_server (alice_ctx (transfer_body 1 2 30 ''USD'')) = Done c' \<and>
    c_writes c' = [(200, TransferReply r)] \<and> map acc_balance (accounts (db_of c')) = [70, 80, 40]"
proof -
  have "map acc_balance (accounts (transferred (sample_transfer 1 2 30) sample_db)) = [70, 80, 40]"
    by (simp add: transferred_def moved_accounts_def from_entry_def to_entry_def debit_of_def
        sample_defs wrap_def)
  then show ?thesis
    using create_transfer_succeeds [of "alice_ctx (transfer_body 1 2 30 ''USD'')" sample_server
        "sample_transfer 1 2 30"] alice_pays sample_ready
    by (auto simp: answered_def)
qed

text \<open>
  C18. Between accounts of one currency an exchange is exact for amounts up to 2\<open>^\<close>53, and the
  bound is sharp: the next amount is credited with one unit less than is debited.
\<close>

theorem exchange_same_currency:
  assumes "healthy (c_pool c)" and "GetExchangeRate cur (db_of c) = Inr (Num v)" and "v \<noteq> 0"
  shows "(\<bar>n\<bar> \<le> 2 ^ 53 \<longrightarrow> fst (currencyExchange oob cur cur n c) = Some n) \<and>
    fst (currencyExchange oob cur cur (2 ^ 53 + 1) c) = Some (2 ^ 53)"
  using assms exchanged_same [of v n oob] exchanged_first_inexact [of v oob]
  by (simp add: currencyExchange_def store_call_def)

theorem exchange_same_currency_witness:
  "fst (currencyExchange (lb_oob sample_libs) ''USD'' ''USD'' 30 (alice_ctx [])) = Some 30"
  using exchange_same_currency [of "alice_ctx []" "''USD''" 32 30 "lb_oob sample_libs"]
  by (simp add: GetExchangeRate_def sample_defs)

text \<open>
  C19. Between currencies the credited amount is the amount times the quotient of the rates,
  up to one unit, for the truncation, and one part in 2\<open>^\<close>51, for the roundings, when the
  amount has at most 53 bits and rates and product are of a sane size.
\<close>

theorem exchange_error_bound:
  assumes "healthy (c_pool c)"
    and "GetExchangeRate f (db_of c) = Inr (Num a)" and "1 / 2 ^ 100 \<le> a" and "a \<le> 2 ^ 100"
    and "GetExchangeRate t (db_of c) = Inr (Num b)" and "1 / 2 ^ 100 \<le> b" and "b \<le> 2 ^ 100"
    and "0 < n" and "n \<le> 2 ^ 53" and "of_int n * (a / b) \<le> 2 ^ 60"
  shows "\<exists>m. fst (currencyExchange oob f t n c) = Some m \<and>
    \<bar>of_int m - of_int n * (a / b)\<bar> \<le> 1 + of_int n * (a / b) / 2 ^ 51"
  using exchanged_near [OF assms(8,9) assms(3,4,6,7,10)] assms(1,2,5)
  by (auto simp: currencyExchange_def store_call_def)

theorem exchange_error_bound_witness:
  "\<exists>m. fst (currencyExchange (lb_oob sample_libs) ''EUR'' ''CAD'' 11 (alice_ctx [])) = Some m \<and>
    \<bar>of_int m - 33 / 2\<bar> \<le> (2 :: rat)"
proof -
  have "\<exists>m. fst (currencyExchange (lb_oob sample_libs) ''EUR'' ''CAD'' 11 (alice_ctx [])) = Some m \<and>
      \<bar>of_int m - of_int 11 * (36 / 24 :: rat)\<bar> \<le> 1 + of_int 11 * (36 / 24) / 2 ^ 51"
    by (rule exchange_error_bound) (simp_all add: GetExchangeRate_def sample_defs)
  moreover have "1 + of_int 11 * (36 / 24) / 2 ^ 51 \<le> (2 :: rat)" by simp
  ultimately show ?thesis by (auto intro: order_trans)
qed

text \<open>
  When the read of the second rate fails for another reason than a missing row, the
  handler panics instead of answering (it reports the error of the first read, which is
  nil); no row has changed and nothing has been written to the response.
\<close>

theorem exchange_second_failure_panics:
  assumes "fault_of (c_pool c) = NoFault" and "GetExchangeRate f (db_of c) = Inr x"
    and "fault_of (called (c_pool c)) \<noteq> NoFault"
  shows "\<exists>c'. currencyExchange oob f t n c = (None, Panicked c') \<and> db_of c' = db_of c \<and>
    c_writes c' = c_writes c"
  using assms by (simp add: currencyExchange_def store_call_def exec_select_reached ErrRecordNotFound_def)

text \<open>alice's context with the reply to one of the reads lost.\<close>

definition lossy_ctx :: "nat \<Rightarrow> (string \<times> json) list \<Rightarrow> (mem_redis, task list) ctx" where
  "lossy_ctx k fs = (alice_ctx fs)\<lparr>c_pool := lossy_pool k\<rparr>"

theorem exchange_second_failure_panics_witness:
  "\<exists>c'. currencyExchange (lb_oob sample_libs) ''USD'' ''EUR'' 30 (lossy_ctx 1 []) = (None, Panicked c') \<and>
    db_of c' = sample_db"
proof -
  have "fault_of (c_pool (lossy_ctx 1 [])) = NoFault" "fault_of (called (c_pool (lossy_ctx 1 []))) \<noteq> NoFault"
    by (simp_all add: lossy_ctx_def fault_of_def lossy_pool_def sample_pool_def)
  moreover have "GetExchangeRate ''USD'' (db_of (lossy_ctx 1 [])) = Inr (Num 32)"
    by (simp add: lossy_ctx_def GetExchangeRate_def sample_defs)
  ultimately show ?thesis
    using exchange_second_failure_panics [of "lossy_ctx 1 []" "''USD''" "Num 32" "lb_oob sample_libs" "''EUR''" 30]
    by (auto simp: lossy_ctx_def)
qed

text \<open>
  A server on a machine whose conversion of a value out of range gives the least integer,
  as on amd64, and a bank in which alice holds 2\<open>^\<close>62 in USD and bob 5 in EUR, at two to one.
\<close>

definition wide_libs :: libs where
  "wide_libs = sample_libs\<lparr>lb_oob := (\<lambda>_. int_min 64)\<rparr>"

definition wide_server :: "(mem_redis, task list) Server" where
  "wide_server = sample_server\<lparr>sv_libs := wide_libs\<rparr>"

definition wide_db :: db where
  "wide_db = sample_db\<lparr>
     accounts := [sample_account 1 ''alice'' (2 ^ 62) ''USD'', sample_account 2 ''bob'' 5 ''EUR''],
     entries := [sample_entry 1 1 (2 ^ 62), sample_entry 2 2 5],
     currencies := [sample_rate ''USD'' 2, sample_rate ''EUR'' 1]\<rparr>"

definition wide_ctx :: "(mem_redis, task list) ctx" where
  "wide_ctx = (alice_ctx (transfer_body 1 2 (2 ^ 62) ''USD''))\<lparr>c_pool := sample_pool\<lparr>pl_db := wide_db\<rparr>\<rparr>"

definition wide_arg :: TransferTxParams where
  "wide_arg = \<lparr>ttp_from_account_id = 1, ttp_to_account_id = 2, ttp_from_amount = 2 ^ 62,
     ttp_to_amount = int_min 64\<rparr>"

lemma f64_round_power:
  assumes "k < 1000"
  shows "f64_round (2 ^ k) = Num (2 ^ k)"
proof -
  have "expo (2 powi int k) = int k"
    by (rule expo_unique) (rule order_refl, rule powi_less_iff [THEN iffD2], simp)
  then have "ulp_expo (2 ^ k) \<le> int k" by (simp add: ulp_expo_def)
  then have "round_to_grid (2 ^ k) = 2 ^ k"
    using round_to_grid_exact [of "2 ^ k" 1 "int k"] by simp
  moreover have "(2::rat) ^ k < 2 ^ 1024" using assms by (intro power_strict_increasing) simp_all
  ultimately show ?thesis by (simp add: f64_round_def)
qed

lemma wide_exchanged: "exchanged (lb_oob wide_libs) (Num 2) (Num 1) (2 ^ 62) = int_min 64"
proof -
  have r: "f64_of_int (2 ^ 62) = Num (2 ^ 62)" "f64_round 2 = Num 2" "f64_round (2 ^ 62 * 2) = Num (2 ^ 63)"
    using f64_round_power [of 62] f64_round_power [of 1] f64_round_power [of 63]
    by (simp_all add: f64_of_int_def)
  have "trunc (2 ^ 63) = 2 ^ 63" using trunc_of_int [of "2 ^ 63"] by simp
  then have "\<not> i64 (trunc (2 ^ 63))" by (simp add: i64_iff)
  then show ?thesis unfolding exchanged_def r(1) f64_div.simps div_by_1 r(2) f64_mul.simps r(3)
    by (simp add: wide_libs_def)
qed

lemma wide_transfer: "transfer_of wide_libs wide_ctx wide_arg"
proof -
  let ?req = "\<lparr>trq_FromAccountID = 1, trq_ToAccountID = 2, trq_Amount = 2 ^ 62, trq_Currency = ''USD'',
      trq_OTP = ''000003''\<rparr>"
  have "transferRequest_fields (transfer_body 1 2 (2 ^ 62) ''USD'') = Some ?req"
    by (simp add: transferRequest_fields_def transfer_body_def names_def i64_iff)
  moreover have "transferRequest_binding (lb_validator wide_libs) ?req"
    by (simp add: transferRequest_binding_def wide_libs_def sample_libs_def tag_defs
        IsSupportedCurrency_def USD_def)
  ultimately show ?thesis
    unfolding transfer_of_def using wide_exchanged
    by (intro exI [of _ "transfer_body 1 2 (2 ^ 62) ''USD''"] exI [of _ ?req] exI [of _ alice_payload]
        exI [of _ "sample_account 1 ''alice'' (2 ^ 62) ''USD''"] exI [of _ "sample_account 2 ''bob'' 5 ''EUR''"]
        exI [of _ "Num 2"] exI [of _ "Num 1"]) (simp add: Decode_def object_of_def GetAccount_def GetExchangeRate_def
        alice_payload_def wide_arg_def wide_ctx_def wide_db_def sample_defs)
qed

lemma wide_ready: "wf_db wide_db" "transfer_ready wide_arg wide_db"
  "map acc_balance (accounts (transferred wide_arg wide_db)) = [0, 5 - 2 ^ 63]"
  by (simp_all add: wf_defs transfer_ready_def balances_fit_def balance_in_def debit_of_def wide_arg_def
      wide_db_def sample_defs seq_max_def wrap_def fits_def int_min_def int_max_def transferred_def
      moved_accounts_def from_entry_def to_entry_def)

text \<open>
  C20. The conversion back to int64 is not guarded: on a machine where an amount out of range
  becomes the least integer, a transfer that is answered with 200 takes 2\<open>^\<close>63 from the
  receiver, whose balance is negative afterwards.
\<close>

theorem exchange_overflow_debits_receiver:
  "\<exists>c' r. createTransfer wide_server wide_ctx = Done c' \<and> c_writes c' = [(200, TransferReply r)] \<and>
    map acc_balance (accounts (db_of wide_ctx)) = [2 ^ 62, 5] \<and>
    map acc_balance (accounts (db_of c')) = [0, 5 - 2 ^ 63]"
proof -
  let ?p = "called (called (called (called (c_pool wide_ctx))))"
  have h: "healthy (c_pool wide_ctx)" by (simp add: healthy_def wide_ctx_def sample_pool_def)
  have d: "db_of wide_ctx = wide_db" by (simp add: wide_ctx_def)
  have "healthy ?p" "wf_db (pl_db ?p)" "transfer_ready wide_arg (pl_db ?p)"
    using h d wide_ready by simp_all
  then obtain r q where tx: "TransferTx wide_arg ?p = (Inr r, q)"
    using TransferTx_healthy [of ?p wide_arg] by blast
  from TransferTx_InrD [OF tx] d have "pl_db q = transferred wide_arg wide_db" by simp
  moreover have "sv_libs wide_server = wide_libs" "c_writes wide_ctx = []"
    by (simp_all add: wide_server_def wide_ctx_def)
  moreover have "map acc_balance (accounts wide_db) = [2 ^ 62, 5]" by (simp add: wide_db_def sample_defs)
  ultimately show ?thesis
    using createTransfer_transaction [OF h, of wide_server wide_arg, OF _ tx] wide_transfer wide_ready(3) d
    by (auto simp: answered_def)
qed

end
