(* ===== verification/Concurrent.thy ===== *)
theory Concurrent
  imports Store_Props Samples
begin

section \<open>Interleaved transfers\<close>

text \<open>
  \<open>TransferTx\<close> as PostgreSQL runs it beside others, at the isolation level READ COMMITTED
  that \<open>execTx\<close> gets from the pool: a transaction is the list of its statements; a
  statement reads the committed rows and the transaction's own writes, an update of a
  balance waits for the row's lock and keeps it until the end, and a commit publishes the
  writes. (The foreign keys of an insert take a lock that does not conflict with the
  update of a balance.) Time, the sequences and the rows' other columns are left out.
\<close>

subsection \<open>Transactions\<close>

datatype sql =
  CheckBalance int int
| InsertTransfer int int
| InsertEntry int int
| AddBalance int int
| CommitTx

text \<open>The two updates of \<open>update_balances\<close>, the smaller account number first.\<close>

definition balance_updates :: "TransferTxParams \<Rightarrow> (int \<times> int) list" where
  "balance_updates arg =
     (let f = ttp_from_account_id arg; g = ttp_to_account_id arg;
          debit = wrap64 (- ttp_from_amount arg); credit = ttp_to_amount arg
      in if f < g then [(f, debit), (g, credit)] else [(g, credit), (f, debit)])"

definition transfer_program :: "TransferTxParams \<Rightarrow> sql list" where
  "transfer_program arg =
     [CheckBalance (ttp_from_account_id arg) (ttp_from_amount arg),
      InsertTransfer (ttp_from_account_id arg) (ttp_to_account_id arg),
      InsertEntry (ttp_from_account_id arg) (wrap64 (- ttp_from_amount arg)),
      InsertEntry (ttp_to_account_id arg) (ttp_to_amount arg)]
     @ map (\<lambda>(i, n). AddBalance i n) (balance_updates arg) @ [CommitTx]"

datatype txn_status = Running | Committed | RolledBack db_error

record txn =
  tn_todo :: "sql list"
  tn_adds :: "(int \<times> int) list"
  tn_entries :: "(int \<times> int) list"
  tn_status :: txn_status

text \<open>The committed balances and entries, the row locks and the transactions.\<close>

record shared =
  sh_rows :: ledger
  sh_log :: "(int \<times> int) list"
  sh_locks :: "int \<rightharpoonup> nat"
  sh_txns :: "txn list"

definition begun :: "TransferTxParams \<Rightarrow> txn" where
  "begun arg = \<lparr>tn_todo = transfer_program arg, tn_adds = [], tn_entries = [], tn_status = Running\<rparr>"

definition started :: "ledger \<Rightarrow> TransferTxParams list \<Rightarrow> shared" where
  "started l args = \<lparr>sh_rows = l, sh_log = [], sh_locks = Map.empty, sh_txns = map begun args\<rparr>"

subsection \<open>Steps\<close>

text \<open>What a list of postings adds to an account.\<close>

fun added :: "int \<Rightarrow> (int \<times> int) list \<Rightarrow> int" where
  "added i [] = 0"
| "added i ((j, n) # xs) = (if j = i then n else 0) + added i xs"

definition seen :: "shared \<Rightarrow> txn \<Rightarrow> ledger" where
  "seen b t i = map_option (\<lambda>v. v + added i (tn_adds t)) (sh_rows b i)"

definition released :: "nat \<Rightarrow> (int \<rightharpoonup> nat) \<Rightarrow> int \<rightharpoonup> nat" where
  "released k locks = (\<lambda>i. if locks i = Some k then None else locks i)"

definition goes_on :: "nat \<Rightarrow> txn \<Rightarrow> shared \<Rightarrow> shared" where
  "goes_on k t b = b\<lparr>sh_txns := (sh_txns b)[k := t]\<rparr>"

definition rolled_back :: "nat \<Rightarrow> db_error \<Rightarrow> shared \<Rightarrow> shared" where
  "rolled_back k e b = b\<lparr>sh_locks := released k (sh_locks b),
     sh_txns := (sh_txns b)[k := (sh_txns b ! k)\<lparr>tn_todo := [], tn_status := RolledBack e\<rparr>]\<rparr>"

definition committed :: "nat \<Rightarrow> shared \<Rightarrow> shared" where
  "committed k b = (let t = sh_txns b ! k in
     b\<lparr>sh_rows := seen b t, sh_log := sh_log b @ tn_entries t, sh_locks := released k (sh_locks b),
       sh_txns := (sh_txns b)[k := t\<lparr>tn_todo := [], tn_status := Committed\<rparr>]\<rparr>)"

text \<open>One statement of transaction \<open>k\<close>; \<open>None\<close> when it has ended or waits for a lock.\<close>

definition txn_step :: "nat \<Rightarrow> shared \<Rightarrow> shared option" where
  "txn_step k b =
     (if length (sh_txns b) \<le> k then None
      else let t = sh_txns b ! k in case tn_todo t of
        [] \<Rightarrow> None
      | CheckBalance i n # qs \<Rightarrow>
          Some (if (case seen b t i of None \<Rightarrow> 0 | Some v \<Rightarrow> v) < n then rolled_back k ErrInsufficientBalance b
                else goes_on k (t\<lparr>tn_todo := qs\<rparr>) b)
      | InsertTransfer i j # qs \<Rightarrow>
          Some (if sh_rows b i = None \<or> sh_rows b j = None then rolled_back k (PgError ForeignKeyViolation) b
                else goes_on k (t\<lparr>tn_todo := qs\<rparr>) b)
      | InsertEntry i n # qs \<Rightarrow>
          Some (if sh_rows b i = None then rolled_back k (PgError ForeignKeyViolation) b
                else goes_on k (t\<lparr>tn_todo := qs, tn_entries := tn_entries t @ [(i, n)]\<rparr>) b)
      | AddBalance i n # qs \<Rightarrow>
          (if sh_locks b i \<noteq> None \<and> sh_locks b i \<noteq> Some k then None
           else Some (case seen b t i of
               None \<Rightarrow> rolled_back k ErrNoRows b
             | Some v \<Rightarrow>
                 if \<not> i64 (v + n) then rolled_back k NumericOutOfRange b
                 else (goes_on k (t\<lparr>tn_todo := qs, tn_adds := tn_adds t @ [(i, n)]\<rparr>) b)
                        \<lparr>sh_locks := (sh_locks b)(i \<mapsto> k)\<rparr>))
      | CommitTx # qs \<Rightarrow> Some (committed k b))"

inductive shared_step :: "shared \<Rightarrow> shared \<Rightarrow> bool" where
  statement: "txn_step k b = Some b' \<Longrightarrow> shared_step b b'"
| lost: "k < length (sh_txns b) \<Longrightarrow> tn_todo (sh_txns b ! k) \<noteq> [] \<Longrightarrow>
    shared_step b (rolled_back k ConnError b)"

inductive_cases shared_stepE: "shared_step b b'"

abbreviation shared_steps :: "shared \<Rightarrow> shared \<Rightarrow> bool" where
  "shared_steps \<equiv> shared_step\<^sup>*\<^sup>*"

text \<open>A schedule names the transaction of each step; one that cannot step is passed over.\<close>

fun run_schedule :: "nat list \<Rightarrow> shared \<Rightarrow> shared" where
  "run_schedule [] b = b"
| "run_schedule (k # ks) b = run_schedule ks (case txn_step k b of None \<Rightarrow> b | Some b' \<Rightarrow> b')"

lemma run_schedule_steps: "shared_steps b (run_schedule ks b)"
  by (induction ks b rule: run_schedule.induct)
    (auto split: option.splits intro: statement converse_rtranclp_into_rtranclp)

text \<open>The statements of \<open>update_balances\<close> are those of the program.\<close>

lemma update_balances_program:
  assumes "balance_updates arg = [(i, n), (j, m)]"
  shows "snd (update_balances arg t) = snd (addMoney i n j m t)"
    and "(\<exists>x. fst (update_balances arg t) = Inr x) \<longleftrightarrow> (\<exists>x. fst (addMoney i n j m t) = Inr x)"
  using assms
  by (auto simp: update_balances_def balance_updates_def Let_def split: if_splits prod.splits sum.splits)

subsection \<open>Postings\<close>

lemma added_append [simp]: "added i (xs @ ys) = added i xs + added i ys"
  by (induction i xs rule: added.induct) simp_all

fun adds_of :: "sql list \<Rightarrow> (int \<times> int) list" where
  "adds_of [] = []"
| "adds_of (AddBalance i n # qs) = (i, n) # adds_of qs"
| "adds_of (_ # qs) = adds_of qs"

fun entries_of :: "sql list \<Rightarrow> (int \<times> int) list" where
  "entries_of [] = []"
| "entries_of (InsertEntry i n # qs) = (i, n) # entries_of qs"
| "entries_of (_ # qs) = entries_of qs"

lemma postings_append [simp]:
  "adds_of (ps @ qs) = adds_of ps @ adds_of qs"
  "entries_of (ps @ qs) = entries_of ps @ entries_of qs"
  by (induction ps rule: adds_of.induct) simp_all

lemma program_postings:
  "adds_of (transfer_program arg) = balance_updates arg"
  "added i (entries_of (transfer_program arg)) = added i (adds_of (transfer_program arg))"
  by (simp_all add: transfer_program_def balance_updates_def Let_def)

text \<open>The locks are taken in the order of the account numbers.\<close>

lemma program_sorted: "sorted (map fst (adds_of (transfer_program arg)))"
  by (simp add: program_postings(1) balance_updates_def Let_def)

lemma program_ends:
  "transfer_program arg = ps @ CommitTx # qs \<Longrightarrow> qs = [] \<and> adds_of ps = adds_of (transfer_program arg)
    \<and> entries_of ps = entries_of (transfer_program arg)"
  by (auto simp: transfer_program_def balance_updates_def Let_def append_eq_Cons_conv Cons_eq_append_conv)

subsection \<open>The invariant of every interleaving\<close>

definition txn_ok :: "TransferTxParams \<Rightarrow> txn \<Rightarrow> bool" where
  "txn_ok arg t \<longleftrightarrow> (if tn_status t = Running
     then tn_todo t \<noteq> [] \<and> (\<exists>ps. transfer_program arg = ps @ tn_todo t \<and>
       tn_adds t = adds_of ps \<and> tn_entries t = entries_of ps)
     else tn_todo t = [])"

text \<open>What a transaction has added to an account for good.\<close>

definition posted :: "TransferTxParams \<Rightarrow> txn \<Rightarrow> int \<Rightarrow> int" where
  "posted arg t i =
     (if tn_status t = Committed then added i (entries_of (transfer_program arg)) else 0)"

definition locks_ok :: "shared \<Rightarrow> bool" where
  "locks_ok b \<longleftrightarrow> (\<forall>i k. sh_locks b i = Some k \<longleftrightarrow> k < length (sh_txns b) \<and>
     tn_status (sh_txns b ! k) = Running \<and> i \<in> fst ` set (tn_adds (sh_txns b ! k)))"

definition books_ok :: "ledger \<Rightarrow> TransferTxParams list \<Rightarrow> shared \<Rightarrow> bool" where
  "books_ok l args b \<longleftrightarrow> (\<forall>i. sh_rows b i = map_option (\<lambda>v. v + added i (sh_log b)) (l i) \<and>
     added i (sh_log b) = (\<Sum>k<length args. posted (args ! k) (sh_txns b ! k) i))"

definition shared_ok :: "ledger \<Rightarrow> TransferTxParams list \<Rightarrow> shared \<Rightarrow> bool" where
  "shared_ok l args b \<longleftrightarrow> length (sh_txns b) = length args \<and>
     (\<forall>k<length args. txn_ok (args ! k) (sh_txns b ! k)) \<and> locks_ok b \<and> books_ok l args b"

lemma started_ok: "shared_ok l args (started l args)"
  by (simp add: shared_ok_def started_def begun_def txn_ok_def locks_ok_def books_ok_def posted_def
      transfer_program_def map_option.id [unfolded id_def])

lemma posted_status:
  "tn_status t = Running \<Longrightarrow> posted arg t i = 0"
  "tn_status t = RolledBack e \<Longrightarrow> posted arg t i = 0"
  "tn_status t = Committed \<Longrightarrow> posted arg t i = added i (entries_of (transfer_program arg))"
  by (simp_all add: posted_def)

lemma sum_posted_upd:
  assumes "k < n" and "length ts = n"
  shows "(\<Sum>j<n. posted (args ! j) (ts[k := t] ! j) i) =
    (\<Sum>j<n. posted (args ! j) (ts ! j) i) - posted (args ! k) (ts ! k) i + posted (args ! k) t i"
proof -
  have split: "(\<Sum>j<n. f j) = f k + (\<Sum>j\<in>{..<n} - {k}. f j)" for f :: "nat \<Rightarrow> int"
    using assms(1) by (intro sum.remove) simp_all
  have "(\<Sum>j\<in>{..<n} - {k}. posted (args ! j) (ts[k := t] ! j) i) =
      (\<Sum>j\<in>{..<n} - {k}. posted (args ! j) (ts ! j) i)"
    by (intro sum.cong) simp_all
  then show ?thesis
    using assms split [of "\<lambda>j. posted (args ! j) (ts[k := t] ! j) i"]
      split [of "\<lambda>j. posted (args ! j) (ts ! j) i"] by simp
qed

lemma ok_goes_on:
  assumes "shared_ok l args b" and "k < length args" and "tn_status (sh_txns b ! k) = Running"
    and "txn_ok (args ! k) t" and "tn_status t = Running"
    and "\<And>i. lk i = Some k \<longleftrightarrow> i \<in> fst ` set (tn_adds t)"
    and "\<And>i j. j \<noteq> k \<Longrightarrow> lk i = Some j \<longleftrightarrow> sh_locks b i = Some j"
  shows "shared_ok l args ((goes_on k t b)\<lparr>sh_locks := lk\<rparr>)"
proof -
  have len: "length (sh_txns b) = length args" using assms(1) by (simp add: shared_ok_def)
  have "locks_ok ((goes_on k t b)\<lparr>sh_locks := lk\<rparr>)"
    unfolding locks_ok_def
  proof (intro allI)
    fix i j
    show "sh_locks ((goes_on k t b)\<lparr>sh_locks := lk\<rparr>) i = Some j \<longleftrightarrow>
        j < length (sh_txns ((goes_on k t b)\<lparr>sh_locks := lk\<rparr>)) \<and>
        tn_status (sh_txns ((goes_on k t b)\<lparr>sh_locks := lk\<rparr>) ! j) = Running \<and>
        i \<in> fst ` set (tn_adds (sh_txns ((goes_on k t b)\<lparr>sh_locks := lk\<rparr>) ! j))"
      using assms len by (cases "j = k") (simp_all add: goes_on_def shared_ok_def locks_ok_def)
  qed
  moreover have "books_ok l args ((goes_on k t b)\<lparr>sh_locks := lk\<rparr>)"
    using assms len by (simp add: books_ok_def goes_on_def shared_ok_def sum_posted_upd posted_status)
  ultimately show ?thesis
    using assms len by (auto simp: shared_ok_def goes_on_def nth_list_update)
qed

lemma locks_released:
  assumes "locks_ok b" and "k < length (sh_txns b)" and "tn_status t \<noteq> Running"
    and "sh_locks b' = released k (sh_locks b)" and "sh_txns b' = (sh_txns b)[k := t]"
  shows "locks_ok b'"
  unfolding locks_ok_def
proof (intro allI)
  fix i j
  have "released k (sh_locks b) i = Some j \<longleftrightarrow> sh_locks b i = Some j \<and> j \<noteq> k"
    by (auto simp: released_def)
  then show "sh_locks b' i = Some j \<longleftrightarrow> j < length (sh_txns b') \<and>
      tn_status (sh_txns b' ! j) = Running \<and> i \<in> fst ` set (tn_adds (sh_txns b' ! j))"
    using assms by (cases "j = k") (simp_all add: locks_ok_def)
qed

lemma ok_rolled_back:
  assumes "shared_ok l args b" and "k < length args" and "tn_status (sh_txns b ! k) = Running"
  shows "shared_ok l args (rolled_back k e b)"
proof -
  have len: "length (sh_txns b) = length args" using assms(1) by (simp add: shared_ok_def)
  have "locks_ok (rolled_back k e b)"
    by (rule locks_released [of b k "(sh_txns b ! k)\<lparr>tn_todo := [], tn_status := RolledBack e\<rparr>"])
      (use assms len in \<open>simp_all add: shared_ok_def rolled_back_def\<close>)
  moreover have "books_ok l args (rolled_back k e b)"
    using assms len by (simp add: books_ok_def rolled_back_def shared_ok_def sum_posted_upd posted_status)
  ultimately show ?thesis
    using assms len by (auto simp: shared_ok_def rolled_back_def txn_ok_def nth_list_update)
qed

lemma ok_committed:
  assumes "shared_ok l args b" and "k < length args" and "tn_status (sh_txns b ! k) = Running"
    and "tn_todo (sh_txns b ! k) = CommitTx # qs"
  shows "shared_ok l args (committed k b)"
proof -
  let ?t = "sh_txns b ! k"
  have len: "length (sh_txns b) = length args" using assms(1) by (simp add: shared_ok_def)
  have "txn_ok (args ! k) ?t" using assms(1,2) by (simp add: shared_ok_def)
  then obtain ps where "transfer_program (args ! k) = ps @ CommitTx # qs" "tn_adds ?t = adds_of ps"
    "tn_entries ?t = entries_of ps"
    using assms(3,4) by (auto simp: txn_ok_def)
  with program_ends program_postings(2) have all:
    "added i (tn_adds ?t) = added i (entries_of (transfer_program (args ! k)))"
    "added i (tn_entries ?t) = added i (entries_of (transfer_program (args ! k)))" for i by metis+
  have "locks_ok (committed k b)"
    by (rule locks_released [of b k "?t\<lparr>tn_todo := [], tn_status := Committed\<rparr>"])
      (use assms len in \<open>simp_all add: shared_ok_def committed_def Let_def\<close>)
  moreover have "books_ok l args (committed k b)"
    unfolding books_ok_def
  proof
    fix i
    have "sh_rows b i = map_option (\<lambda>v. v + added i (sh_log b)) (l i) \<and>
        added i (sh_log b) = (\<Sum>k<length args. posted (args ! k) (sh_txns b ! k) i)"
      using assms(1) by (simp add: shared_ok_def books_ok_def)
    then show "sh_rows (committed k b) i = map_option (\<lambda>v. v + added i (sh_log (committed k b))) (l i) \<and>
        added i (sh_log (committed k b)) = (\<Sum>j<length args. posted (args ! j) (sh_txns (committed k b) ! j) i)"
      using assms(2,3) len all [of i]
      by (cases "l i") (simp_all add: committed_def Let_def seen_def sum_posted_upd posted_status)
  qed
  ultimately show ?thesis
    using assms len by (auto simp: shared_ok_def committed_def Let_def txn_ok_def nth_list_update)
qed

lemma running_split:
  assumes "shared_ok l args b" and "k < length args" and "tn_todo (sh_txns b ! k) = q # qs"
  shows "tn_status (sh_txns b ! k) = Running \<and> (\<exists>ps. transfer_program (args ! k) = ps @ q # qs \<and>
    tn_adds (sh_txns b ! k) = adds_of ps \<and> tn_entries (sh_txns b ! k) = entries_of ps)"
  using assms by (auto simp: shared_ok_def txn_ok_def split: if_splits)

lemma ok_next:
  assumes "shared_ok l args b" and "k < length args" and "tn_todo (sh_txns b ! k) = q # qs" and "qs \<noteq> []"
    and "tn_todo t = qs" and "tn_status t = Running"
    and "tn_adds t = tn_adds (sh_txns b ! k) @ adds_of [q]"
    and "tn_entries t = tn_entries (sh_txns b ! k) @ entries_of [q]"
    and "adds_of [q] = []"
  shows "shared_ok l args (goes_on k t b)"
proof -
  obtain ps where ps: "transfer_program (args ! k) = ps @ q # qs"
    "tn_adds (sh_txns b ! k) = adds_of ps" "tn_entries (sh_txns b ! k) = entries_of ps"
    and run: "tn_status (sh_txns b ! k) = Running" using running_split [OF assms(1-3)] by blast
  have "txn_ok (args ! k) t"
    unfolding txn_ok_def using ps assms(4-8) by (auto intro!: exI [of _ "ps @ [q]"])
  moreover have "sh_locks b i = Some k \<longleftrightarrow> i \<in> fst ` set (tn_adds t)" for i
    using assms(1,2,7,9) run by (simp add: shared_ok_def locks_ok_def)
  ultimately have "shared_ok l args ((goes_on k t b)\<lparr>sh_locks := sh_locks b\<rparr>)"
    using assms(1,2,6) run by (intro ok_goes_on) simp_all
  then show ?thesis by (simp add: goes_on_def)
qed

lemma ok_locked:
  assumes "shared_ok l args b" and "k < length args" and "tn_todo (sh_txns b ! k) = AddBalance i n # qs"
    and "qs \<noteq> []" and "sh_locks b i = None \<or> sh_locks b i = Some k"
  shows "shared_ok l args ((goes_on k ((sh_txns b ! k)\<lparr>tn_todo := qs,
    tn_adds := tn_adds (sh_txns b ! k) @ [(i, n)]\<rparr>) b)\<lparr>sh_locks := (sh_locks b)(i \<mapsto> k)\<rparr>)"
proof -
  obtain ps where ps: "transfer_program (args ! k) = ps @ AddBalance i n # qs"
    "tn_adds (sh_txns b ! k) = adds_of ps" "tn_entries (sh_txns b ! k) = entries_of ps"
    and run: "tn_status (sh_txns b ! k) = Running" using running_split [OF assms(1-3)] by blast
  let ?t = "(sh_txns b ! k)\<lparr>tn_todo := qs, tn_adds := tn_adds (sh_txns b ! k) @ [(i, n)]\<rparr>"
  have "txn_ok (args ! k) ?t"
    unfolding txn_ok_def using ps assms(4) run by (auto intro!: exI [of _ "ps @ [AddBalance i n]"])
  moreover have "((sh_locks b)(i \<mapsto> k)) a = Some k \<longleftrightarrow> a \<in> fst ` set (tn_adds ?t)" for a
    using assms(1,2) run by (simp add: shared_ok_def locks_ok_def)
  moreover have "((sh_locks b)(i \<mapsto> k)) a = Some j \<longleftrightarrow> sh_locks b a = Some j" if "j \<noteq> k" for a j
    using assms(5) that by auto
  ultimately show ?thesis using assms(1,2) run by (intro ok_goes_on) simp_all
qed

text \<open>Only the commit ends the program.\<close>

lemma program_goes_on:
  "transfer_program arg = ps @ q # qs \<Longrightarrow> q \<noteq> CommitTx \<Longrightarrow> qs \<noteq> []"
  by (auto simp: transfer_program_def)

lemma statement_ok:
  assumes "shared_ok l args b" and "txn_step k b = Some b'"
  shows "shared_ok l args b'"
proof -
  let ?t = "sh_txns b ! k"
  have k: "k < length args" using assms by (auto simp: txn_step_def shared_ok_def split: if_splits)
  then have k': "\<not> length (sh_txns b) \<le> k" using assms(1) by (simp add: shared_ok_def)
  obtain q qs where q: "tn_todo ?t = q # qs"
    using assms(2) by (cases "tn_todo ?t") (simp_all add: txn_step_def Let_def split: if_splits)
  note run = running_split [OF assms(1) k q]
  then have more: "q \<noteq> CommitTx \<Longrightarrow> qs \<noteq> []" using program_goes_on by blast
  have roll: "shared_ok l args (rolled_back k e b)" for e
    using ok_rolled_back [OF assms(1) k] run by blast
  show ?thesis
  proof (cases q)
    case (AddBalance i n)
    with assms(2) q k' ok_locked [OF assms(1) k, of i n qs] more roll show ?thesis
      by (auto simp: txn_step_def Let_def split: if_splits option.splits)
  next
    case CommitTx
    with assms(2) q k' ok_committed [OF assms(1) k] run show ?thesis
      by (auto simp: txn_step_def Let_def)
  qed (use assms(2) q k' more run roll in
      \<open>auto simp: txn_step_def Let_def split: if_splits intro!: ok_next [OF assms(1) k q]\<close>)
qed

lemma steps_ok:
  assumes "shared_steps (started l args) b"
  shows "shared_ok l args b"
  using assms
proof (induction rule: rtranclp_induct)
  case base
  show ?case by (rule started_ok)
next
  case (step b b')
  from step.hyps(2) show ?case
  proof (cases rule: shared_step.cases)
    case (statement k)
    then show ?thesis using statement_ok [OF step.IH] by simp
  next
    case (lost k)
    with step.IH have "k < length args" "tn_status (sh_txns b ! k) = Running"
      by (auto simp: shared_ok_def txn_ok_def split: if_splits)
    with lost show ?thesis using ok_rolled_back [OF step.IH] by simp
  qed
qed

subsection \<open>Ordered locks\<close>

text \<open>
  A protocol whose participants hold locks while they wait for one: when whoever holds a
  lock wants none that comes before it, somebody can always go on.
\<close>

locale ordered_locks =
  fixes ok :: "'s \<Rightarrow> bool" and parties :: "'s \<Rightarrow> nat" and busy :: "'s \<Rightarrow> nat \<Rightarrow> bool"
    and wants :: "'s \<Rightarrow> nat \<Rightarrow> int option" and owner :: "'s \<Rightarrow> int \<Rightarrow> nat option"
  assumes owner_busy: "ok s \<Longrightarrow> owner s a = Some j \<Longrightarrow> j < parties s \<and> busy s j"
    and ordered: "ok s \<Longrightarrow> owner s a = Some j \<Longrightarrow> wants s j = Some c \<Longrightarrow> a \<le> c"
begin

definition blocked :: "'s \<Rightarrow> nat \<Rightarrow> bool" where
  "blocked s i \<longleftrightarrow> (\<exists>a j. wants s i = Some a \<and> owner s a = Some j \<and> j \<noteq> i)"

lemma blocked_by:
  assumes "ok s" and "blocked s i"
  shows "\<exists>j<parties s. busy s j \<and> (blocked s j \<longrightarrow> the (wants s i) < the (wants s j))"
proof -
  from assms(2) obtain a j where a: "wants s i = Some a" "owner s a = Some j"
    by (auto simp: blocked_def)
  from owner_busy [OF assms(1) a(2)] have "j < parties s" "busy s j" by simp_all
  moreover have "a < c" if c: "wants s j = Some c" "owner s c = Some k" "k \<noteq> j" for c k
    using ordered [OF assms(1) a(2) c(1)] c(2,3) a(2) by (cases "a = c") auto
  ultimately show ?thesis using a(1) by (auto simp: blocked_def)
qed

lemma somebody_goes_on:
  assumes "ok s" and "i < parties s" and "busy s i"
  shows "\<exists>j<parties s. busy s j \<and> \<not> blocked s j"
proof (rule ccontr)
  assume stuck: "\<not> ?thesis"
  let ?W = "{the (wants s j) | j. j < parties s \<and> busy s j}"
  have "finite ?W" by simp
  moreover have "?W \<noteq> {}" using assms by blast
  ultimately have "Max ?W \<in> ?W" by (rule Max_in)
  then obtain j where j: "j < parties s" "busy s j" "the (wants s j) = Max ?W" by auto
  with stuck have "blocked s j" by blast
  from blocked_by [OF assms(1) this] stuck obtain k where
    "k < parties s" "busy s k" "the (wants s j) < the (wants s k)" by blast
  with j(3) Max_ge [OF \<open>finite ?W\<close>, of "the (wants s k)"] show False by fastforce
qed

end

definition txn_wants :: "shared \<Rightarrow> nat \<Rightarrow> int option" where
  "txn_wants b k = (case tn_todo (sh_txns b ! k) of AddBalance i n # qs \<Rightarrow> Some i | _ \<Rightarrow> None)"

definition txn_busy :: "shared \<Rightarrow> nat \<Rightarrow> bool" where
  "txn_busy b k \<longleftrightarrow> tn_todo (sh_txns b ! k) \<noteq> []"

definition reached :: "shared \<Rightarrow> bool" where
  "reached b \<longleftrightarrow> (\<exists>l args. shared_ok l args b)"

lemma txn_order:
  assumes "shared_ok l args b" and "sh_locks b a = Some j" and "txn_wants b j = Some c"
  shows "a \<le> c"
proof -
  have j: "j < length args" "a \<in> fst ` set (tn_adds (sh_txns b ! j))"
    using assms(1,2) by (simp_all add: shared_ok_def locks_ok_def)
  obtain n qs where q: "tn_todo (sh_txns b ! j) = AddBalance c n # qs"
    using assms(3) by (auto simp: txn_wants_def split: list.splits sql.splits)
  from running_split [OF assms(1) j(1) q] obtain ps where
    ps: "transfer_program (args ! j) = ps @ AddBalance c n # qs" "tn_adds (sh_txns b ! j) = adds_of ps"
    by blast
  from program_sorted [of "args ! j"] have "sorted (map fst (adds_of ps) @ c # map fst (adds_of qs))"
    unfolding ps(1) by simp
  with j(2) ps(2) show ?thesis by (force simp: sorted_append)
qed

interpretation row_locks: ordered_locks reached "\<lambda>b. length (sh_txns b)" txn_busy txn_wants sh_locks
proof
  fix b a j
  assume "reached b" "sh_locks b a = Some j"
  then show "j < length (sh_txns b) \<and> txn_busy b j"
    by (auto simp: reached_def shared_ok_def locks_ok_def txn_ok_def txn_busy_def)
next
  fix b a j c
  assume "reached b" "sh_locks b a = Some j" "txn_wants b j = Some c"
  then show "a \<le> c" using txn_order by (auto simp: reached_def)
qed

lemma txn_step_enabled:
  assumes "k < length (sh_txns b)"
  shows "txn_step k b \<noteq> None \<longleftrightarrow> txn_busy b k \<and> \<not> row_locks.blocked b k"
  using assms
  by (auto simp: txn_step_def Let_def txn_busy_def row_locks.blocked_def txn_wants_def
      split: list.splits sql.splits)

subsection \<open>Termination\<close>

definition work :: "shared \<Rightarrow> nat" where
  "work b = sum_list (map (\<lambda>t. length (tn_todo t)) (sh_txns b))"

lemma work_upd:
  assumes "k < length ts" and "length (tn_todo t) < length (tn_todo (ts ! k))"
  shows "sum_list (map (\<lambda>t. length (tn_todo t)) (ts[k := t])) < sum_list (map (\<lambda>t. length (tn_todo t)) ts)"
  using assms by (induction ts arbitrary: k) (auto split: nat.splits)

lemma step_works: "shared_step b b' \<Longrightarrow> work b' < work b"
  by (auto elim!: shared_stepE simp: txn_step_def work_def Let_def goes_on_def rolled_back_def committed_def
      split: if_splits list.splits sql.splits option.splits intro!: work_upd)

lemma steps_bounded: "(shared_step ^^ n) b b' \<Longrightarrow> n + work b' \<le> work b"
proof (induction n arbitrary: b')
  case (Suc n)
  then obtain b1 where "(shared_step ^^ n) b b1" "shared_step b1 b'" by auto
  with Suc.IH [of b1] step_works [of b1 b'] show ?case by simp
qed simp

lemma work_started: "work (started l args) = 7 * length args"
  by (induction args) (simp_all add: work_def started_def begun_def transfer_program_def
      balance_updates_def Let_def)

end
