(* ===== verification/Concurrent_Claims.thy ===== *)
theory Concurrent_Claims
  imports Concurrent
begin

section \<open>What interleaved transfers do\<close>

text \<open>
  Termination, the serial schedules as the sequential ledger, and the one thing that
  interleaving breaks: the check of the balance.
\<close>

subsection \<open>Serial schedules\<close>

definition in_turn :: "nat \<Rightarrow> nat list" where
  "in_turn n = concat (map (replicate 7) [0..<n])"

definition ledger_run :: "TransferTxParams \<Rightarrow> ledger \<Rightarrow> ledger" where
  "ledger_run arg l = (case ledger_transfer (ttp_from_account_id arg) (ttp_to_account_id arg)
     (ttp_from_amount arg) (ttp_to_amount arg) l of None \<Rightarrow> l | Some l' \<Rightarrow> l')"

lemma run_schedule_append: "run_schedule (ks @ ls) b = run_schedule ls (run_schedule ks b)"
  by (induction ks b rule: run_schedule.induct) simp_all

text \<open>What one statement does to the transaction that runs it.\<close>

lemma goes_on_simps [simp]:
  "sh_rows (goes_on k t b) = sh_rows b" "sh_log (goes_on k t b) = sh_log b"
  "sh_locks (goes_on k t b) = sh_locks b" "length (sh_txns (goes_on k t b)) = length (sh_txns b)"
  "k < length (sh_txns b) \<Longrightarrow> sh_txns (goes_on k t b) ! k = t"
  "goes_on k t (goes_on k t' b) = goes_on k t b"
  by (simp_all add: goes_on_def)

definition turns :: "nat \<Rightarrow> nat \<Rightarrow> shared \<Rightarrow> shared" where
  "turns n k b = run_schedule (replicate n k) b"

lemma turns_0: "turns 0 k b = b"
  by (simp add: turns_def)

lemma turns_step: "txn_step k b = Some b1 \<Longrightarrow> turns (Suc n) k b = turns n k b1"
  by (simp add: turns_def)

lemma run_ended: "tn_todo (sh_txns b ! k) = [] \<Longrightarrow> turns n k b = b"
  unfolding turns_def by (induction n) (simp_all add: txn_step_def Let_def)

text \<open>The result of running a transaction alone: its rows, no locks, the others untouched.\<close>

definition alone :: "nat \<Rightarrow> shared \<Rightarrow> ledger \<Rightarrow> shared \<Rightarrow> bool" where
  "alone k b l b' \<longleftrightarrow> sh_rows b' = l \<and> sh_locks b' = Map.empty \<and>
     length (sh_txns b') = length (sh_txns b) \<and> (\<forall>j. j \<noteq> k \<longrightarrow> sh_txns b' ! j = sh_txns b ! j)"

lemma alone_rolled_back:
  assumes "k < length (sh_txns b)" and "\<And>i. sh_locks b i = None \<or> sh_locks b i = Some k"
  shows "alone k b (sh_rows b) (turns n k (rolled_back k e b))"
proof -
  have "turns n k (rolled_back k e b) = rolled_back k e b"
    by (rule run_ended) (use assms(1) in \<open>simp add: rolled_back_def\<close>)
  then show ?thesis using assms by (auto simp: alone_def rolled_back_def released_def fun_eq_iff)
qed

lemma alone_goes_on: "alone k (goes_on k t b) l b' \<longleftrightarrow> alone k b l b'"
  by (auto simp: alone_def goes_on_def)

lemma alone_locks: "alone k (b\<lparr>sh_locks := lk\<rparr>) l b' \<longleftrightarrow> alone k b l b'"
  by (simp add: alone_def)

definition lock_free :: "nat \<Rightarrow> shared \<Rightarrow> bool" where
  "lock_free k b \<longleftrightarrow> (\<forall>i. sh_locks b i = None \<or> sh_locks b i = Some k)"

lemma run_add_fails:
  assumes "k < length (sh_txns b)" and "lock_free k b"
    and "tn_todo (sh_txns b ! k) = AddBalance i n # qs"
    and "credit i n (seen b (sh_txns b ! k)) = None"
  shows "alone k b (sh_rows b) (turns (Suc m) k b)"
proof -
  have "\<not> (sh_locks b i \<noteq> None \<and> sh_locks b i \<noteq> Some k)"
    using assms(2) by (auto simp: lock_free_def)
  then obtain e where "txn_step k b = Some (rolled_back k e b)"
    using assms(1,3,4) by (auto simp: txn_step_def Let_def credit_def split: option.splits if_splits)
  from turns_step [OF this] alone_rolled_back assms(1,2) show ?thesis by (simp add: lock_free_def)
qed

lemma run_add:
  assumes "k < length (sh_txns b)" and "lock_free k b"
    and "tn_todo (sh_txns b ! k) = AddBalance i n # qs"
    and "credit i n (seen b (sh_txns b ! k)) = Some l"
  obtains b1 where "\<And>m. turns (Suc m) k b = turns m k b1" "k < length (sh_txns b1)" "lock_free k b1"
    "tn_todo (sh_txns b1 ! k) = qs" "seen b1 (sh_txns b1 ! k) = l"
    "\<And>l b'. alone k b1 l b' \<longleftrightarrow> alone k b l b'" "sh_rows b1 = sh_rows b"
proof
  let ?t = "sh_txns b ! k"
  let ?t1 = "?t\<lparr>tn_todo := qs, tn_adds := tn_adds ?t @ [(i, n)]\<rparr>"
  let ?b1 = "(goes_on k ?t1 b)\<lparr>sh_locks := (sh_locks b)(i \<mapsto> k)\<rparr>"
  have "\<not> (sh_locks b i \<noteq> None \<and> sh_locks b i \<noteq> Some k)"
    using assms(2) by (auto simp: lock_free_def)
  then have "txn_step k b = Some ?b1"
    using assms(1,3,4) by (auto simp: txn_step_def Let_def credit_def split: option.splits if_splits)
  then show "turns (Suc m) k b = turns m k ?b1" for m by (rule turns_step)
  show "seen ?b1 (sh_txns ?b1 ! k) = l"
    using assms(1,4) by (auto simp: credit_def seen_def fun_eq_iff add.assoc split: option.splits if_splits)
  show "lock_free k ?b1" using assms(2) by (simp add: lock_free_def)
  show "alone k ?b1 l b' \<longleftrightarrow> alone k b l b'" for l b' by (simp add: alone_locks alone_goes_on)
qed (use assms(1) in simp_all)

lemma run_commit:
  assumes "k < length (sh_txns b)" and "lock_free k b" and "tn_todo (sh_txns b ! k) = [CommitTx]"
  shows "alone k b (seen b (sh_txns b ! k)) (turns (Suc 0) k b)"
proof -
  have "txn_step k b = Some (committed k b)" using assms(1,3) by (simp add: txn_step_def)
  then have "turns (Suc 0) k b = committed k b" by (simp add: turns_step turns_0)
  with assms show ?thesis
    by (auto simp: committed_def Let_def alone_def lock_free_def released_def fun_eq_iff)
qed

lemma run_updates:
  assumes "k < length (sh_txns b)" and "lock_free k b"
    and "tn_todo (sh_txns b ! k) = [AddBalance i n, AddBalance j m, CommitTx]"
    and "tn_adds (sh_txns b ! k) = []"
  shows "alone k b (case Option.bind (credit i n (sh_rows b)) (credit j m) of
      None \<Rightarrow> sh_rows b | Some l \<Rightarrow> l) (turns (Suc (Suc (Suc 0))) k b)"
proof -
  have s: "seen b (sh_txns b ! k) = sh_rows b"
    using assms(4) by (auto simp: seen_def fun_eq_iff map_option.id [unfolded id_def])
  show ?thesis
  proof (cases "credit i n (sh_rows b)")
    case None
    with run_add_fails [OF assms(1-3)] s show ?thesis by simp
  next
    case first: (Some l1)
    with s have "credit i n (seen b (sh_txns b ! k)) = Some l1" by simp
    from run_add [OF assms(1-3) this] obtain b1 where
      b1: "\<And>r. turns (Suc r) k b = turns r k b1" "k < length (sh_txns b1)" "lock_free k b1"
      "tn_todo (sh_txns b1 ! k) = [AddBalance j m, CommitTx]" "seen b1 (sh_txns b1 ! k) = l1"
      "\<And>l b'. alone k b1 l b' \<longleftrightarrow> alone k b l b'" "sh_rows b1 = sh_rows b" by blast
    show ?thesis
    proof (cases "credit j m l1")
      case None
      with run_add_fails [OF b1(2-4)] b1 first show ?thesis by simp
    next
      case (Some l2)
      with b1(5) have "credit j m (seen b1 (sh_txns b1 ! k)) = Some l2" by simp
      from run_add [OF b1(2-4) this] obtain b2 where
        b2: "\<And>r. turns (Suc r) k b1 = turns r k b2" "k < length (sh_txns b2)" "lock_free k b2"
        "tn_todo (sh_txns b2 ! k) = [CommitTx]" "seen b2 (sh_txns b2 ! k) = l2"
        "\<And>l b'. alone k b2 l b' \<longleftrightarrow> alone k b1 l b'" by blast
      from run_commit [OF b2(2-4)] b1 b2 first Some show ?thesis by simp
    qed
  qed
qed

text \<open>A debit and a credit may be taken in either order.\<close>

lemma credit_commute:
  assumes "i \<noteq> j"
  shows "Option.bind (credit i n l) (credit j m) = Option.bind (credit j m l) (credit i n)"
  using assms by (auto simp: credit_def fun_upd_twist split: option.splits)

lemma updates_ledger:
  assumes "0 \<le> ttp_from_amount arg" and "i64 (ttp_from_amount arg)"
    and "l (ttp_from_account_id arg) = Some v" and "\<not> v < ttp_from_amount arg"
    and "balance_updates arg = [(i, x), (j, y)]"
  shows "ledger_run arg l = (case Option.bind (credit i x l) (credit j y) of None \<Rightarrow> l | Some l \<Rightarrow> l)"
proof -
  let ?f = "ttp_from_account_id arg" and ?g = "ttp_to_account_id arg"
  have d: "wrap64 (- ttp_from_amount arg) = - ttp_from_amount arg"
    using debit_of_nonneg [OF assms(1,2)] by (simp add: debit_of_def)
  have "ledger_run arg l =
      (case Option.bind (credit ?g (ttp_to_amount arg) l) (credit ?f (- ttp_from_amount arg)) of
        None \<Rightarrow> l | Some l \<Rightarrow> l)"
    using assms(3,4) by (simp add: ledger_run_def ledger_transfer_def split: option.split)
  moreover have "Option.bind (credit i x l) (credit j y) =
      Option.bind (credit ?g (ttp_to_amount arg) l) (credit ?f (- ttp_from_amount arg))"
    using assms(5) d credit_commute [of ?f ?g]
    by (cases "?f < ?g") (auto simp: balance_updates_def Let_def)
  ultimately show ?thesis by simp
qed

lemma run_inserts:
  assumes "k < length (sh_txns b)" and "sh_txns b ! k = begun arg"
    and "sh_rows b (ttp_from_account_id arg) = Some v" and "\<not> v < ttp_from_amount arg"
    and "sh_rows b (ttp_to_account_id arg) \<noteq> None"
  obtains t where "\<And>m. turns (Suc (Suc (Suc (Suc m)))) k b = turns m k (goes_on k t b)"
    "tn_todo t = map (\<lambda>(i, n). AddBalance i n) (balance_updates arg) @ [CommitTx]" "tn_adds t = []"
proof -
  let ?f = "ttp_from_account_id arg" and ?g = "ttp_to_account_id arg"
  let ?t = "\<lambda>r. (begun arg)\<lparr>tn_todo := drop r (transfer_program arg)\<rparr>"
  let ?t3 = "(?t 3)\<lparr>tn_entries := [(?f, wrap64 (- ttp_from_amount arg))]\<rparr>"
  let ?t4 = "(?t 4)\<lparr>tn_entries := [(?f, wrap64 (- ttp_from_amount arg)), (?g, ttp_to_amount arg)]\<rparr>"
  have "txn_step k b = Some (goes_on k (?t 1) b)"
    using assms by (simp add: txn_step_def Let_def begun_def transfer_program_def seen_def)
  moreover have "txn_step k (goes_on k (?t 1) b) = Some (goes_on k (?t 2) b)"
    using assms by (auto simp: txn_step_def Let_def begun_def transfer_program_def)
  moreover have "txn_step k (goes_on k (?t 2) b) = Some (goes_on k ?t3 b)"
    using assms by (simp add: txn_step_def Let_def begun_def transfer_program_def)
  moreover have "txn_step k (goes_on k ?t3 b) = Some (goes_on k ?t4 b)"
    using assms by (auto simp: txn_step_def Let_def begun_def transfer_program_def)
  ultimately have "turns (Suc (Suc (Suc (Suc m)))) k b = turns m k (goes_on k ?t4 b)" for m
    by (simp add: turns_step)
  then show ?thesis by (rule that) (simp_all add: begun_def transfer_program_def)
qed

text \<open>The first two statements: the balance check, then the first row of the journal.\<close>

lemma guard_steps:
  fixes b arg defines "l \<equiv> sh_rows b" and "t \<equiv> (begun arg)\<lparr>tn_todo := drop 1 (transfer_program arg)\<rparr>"
  assumes "k < length (sh_txns b)" and "sh_txns b ! k = begun arg"
  shows "txn_step k b = Some (if (case l (ttp_from_account_id arg) of None \<Rightarrow> 0 | Some v \<Rightarrow> v) < ttp_from_amount arg
      then rolled_back k ErrInsufficientBalance b else goes_on k t b)"
    and "l (ttp_from_account_id arg) = None \<or> l (ttp_to_account_id arg) = None \<Longrightarrow>
      txn_step k (goes_on k t b) = Some (rolled_back k (PgError ForeignKeyViolation) (goes_on k t b))"
  using assms(3,4) unfolding l_def t_def
  by (simp add: txn_step_def Let_def begun_def transfer_program_def seen_def map_option.id [unfolded id_def])
    (use assms(3,4) in \<open>auto simp: txn_step_def Let_def begun_def transfer_program_def l_def\<close>)

lemma run_alone:
  assumes "k < length (sh_txns b)" and "sh_txns b ! k = begun arg" and "sh_locks b = Map.empty"
    and "0 \<le> ttp_from_amount arg" and "i64 (ttp_from_amount arg)"
  shows "alone k b (ledger_run arg (sh_rows b)) (turns 7 k b)"
proof -
  let ?f = "ttp_from_account_id arg" and ?g = "ttp_to_account_id arg" and ?n = "ttp_from_amount arg"
  let ?l = "sh_rows b"
  have seven: "7 = Suc (Suc (Suc (Suc (Suc (Suc (Suc 0))))))" by simp
  have free: "lock_free k b" using assms(3) by (simp add: lock_free_def)
  have roll: "alone k b ?l (turns r k (rolled_back k e b))" for r e
    using alone_rolled_back assms(1,3) by simp
  have roll': "alone k b ?l (turns r k (rolled_back k e (goes_on k t b)))" for r e t
    using alone_rolled_back [of k "goes_on k t b"] assms(1,3) by (simp add: alone_goes_on)
  note guards = guard_steps [OF assms(1,2)]
  consider (stopped) "?l ?f = None \<or> ?l ?g = None \<or> the (?l ?f) < ?n"
    | (ready) v where "?l ?f = Some v" "\<not> v < ?n" "?l ?g \<noteq> None"
    by (cases "?l ?f"; cases "?l ?g") auto
  then show ?thesis
  proof cases
    case stopped
    have "ledger_run arg ?l = ?l"
      using stopped by (auto simp: ledger_run_def ledger_transfer_def credit_def split: option.split)
    moreover have "alone k b ?l (turns 7 k b)"
      unfolding seven
      using turns_step [OF guards(1)] turns_step [OF guards(2)] stopped roll roll'
      by (cases "?l ?f") auto
    ultimately show ?thesis by simp
  next
    case ready
    from run_inserts [OF assms(1,2) ready] obtain t where
      t: "\<And>m. turns (Suc (Suc (Suc (Suc m)))) k b = turns m k (goes_on k t b)"
      "tn_todo t = map (\<lambda>(i, n). AddBalance i n) (balance_updates arg) @ [CommitTx]" "tn_adds t = []"
      by blast
    have "\<exists>i x j y. balance_updates arg = [(i, x), (j, y)]" by (simp add: balance_updates_def Let_def)
    then obtain i x j y where u: "balance_updates arg = [(i, x), (j, y)]" by blast
    have "alone k (goes_on k t b) (case Option.bind (credit i x (sh_rows (goes_on k t b))) (credit j y) of
        None \<Rightarrow> sh_rows (goes_on k t b) | Some l \<Rightarrow> l) (turns (Suc (Suc (Suc 0))) k (goes_on k t b))"
      by (rule run_updates) (use t u assms(1) free in \<open>simp_all add: lock_free_def\<close>)
    from this [unfolded goes_on_simps(1) alone_goes_on] show ?thesis
      unfolding seven t(1) updates_ledger [of arg "sh_rows b" v i x j y, OF assms(4,5) ready(1,2) u] .
  qed
qed

lemma in_turn_Suc: "run_schedule (in_turn (Suc n)) b = turns 7 n (run_schedule (in_turn n) b)"
  by (simp add: in_turn_def turns_def run_schedule_append del: replicate.simps(2))

lemma run_in_turn:
  assumes "\<And>arg. arg \<in> set args \<Longrightarrow> 0 \<le> ttp_from_amount arg \<and> i64 (ttp_from_amount arg)"
    and "n \<le> length args"
  shows "let b = run_schedule (in_turn n) (started l args) in
    sh_rows b = fold ledger_run (take n args) l \<and> sh_locks b = Map.empty \<and>
    length (sh_txns b) = length args \<and> (\<forall>j<length args. n \<le> j \<longrightarrow> sh_txns b ! j = begun (args ! j))"
  using assms(2)
proof (induction n)
  case 0
  show ?case by (simp add: in_turn_def started_def)
next
  case (Suc n)
  let ?b = "run_schedule (in_turn n) (started l args)"
  from Suc have b: "sh_rows ?b = fold ledger_run (take n args) l" "sh_locks ?b = Map.empty"
    "length (sh_txns ?b) = length args" "\<forall>j<length args. n \<le> j \<longrightarrow> sh_txns ?b ! j = begun (args ! j)"
    by (simp_all add: Let_def)
  have n: "n < length args" using Suc.prems by simp
  have "0 \<le> ttp_from_amount (args ! n) \<and> i64 (ttp_from_amount (args ! n))"
    using assms(1) n by simp
  with run_alone [of n ?b "args ! n"] b n
  have "alone n ?b (ledger_run (args ! n) (sh_rows ?b)) (turns 7 n ?b)" by simp
  then show ?case
    using b n by (simp add: in_turn_Suc alone_def Let_def take_Suc_conv_app_nth)
qed

subsection \<open>Claims\<close>

text \<open>Two transfers of 80 out of account 1, which holds 100, in lock step.\<close>

definition race_ledger :: ledger where
  "race_ledger = [1 \<mapsto> 100, 2 \<mapsto> 0, 3 \<mapsto> 0]"

definition race_args :: "TransferTxParams list" where
  "race_args = [sample_transfer 1 2 80, sample_transfer 1 3 80]"

definition race_end :: shared where
  "race_end = run_schedule ([0, 1] @ in_turn 2) (started race_ledger race_args)"

lemma race_steps: "shared_steps (started race_ledger race_args) race_end"
  unfolding race_end_def by (rule run_schedule_steps)

lemma race_result:
  "map tn_status (sh_txns race_end) = [Committed, Committed]" "sh_rows race_end 1 = Some (- 60)"
  by code_simp+



text \<open>
  C24. Serial schedules: transfers run one after another, statement by statement, leave
  exactly the balances of the abstract ledger on which each is one step, or no step when it
  is not possible.
\<close>

theorem serial_schedule_is_ledger:
  assumes "\<And>arg. arg \<in> set args \<Longrightarrow> 0 \<le> ttp_from_amount arg \<and> i64 (ttp_from_amount arg)"
  shows "sh_rows (run_schedule (in_turn (length args)) (started l args)) = fold ledger_run args l"
  using run_in_turn [OF assms order_refl] by (simp add: Let_def)

theorem serial_schedule_is_ledger_witness:
  "sh_rows (run_schedule (in_turn 2) (started race_ledger race_args)) =
    race_ledger(1 \<mapsto> 20, 2 \<mapsto> 80)"
proof -
  have "sh_rows (run_schedule (in_turn (length race_args)) (started race_ledger race_args)) =
      fold ledger_run race_args race_ledger"
    by (rule serial_schedule_is_ledger) (auto simp: race_args_def i64_iff)
  moreover have "fold ledger_run race_args race_ledger = race_ledger(1 \<mapsto> 20, 2 \<mapsto> 80)"
    by (simp add: race_args_def race_ledger_def ledger_run_def ledger_transfer_def credit_def i64_iff
        fun_upd_twist)
  moreover have "length race_args = 2" by (simp add: race_args_def)
  ultimately show ?thesis by (simp only:)
qed

text \<open>
  C25. The balance check does not hold up against interleaving: it reads without a lock, so
  two transfers of 80 out of an account that holds 100 can both pass it, both commit and
  leave the account at -60; one after the other, the second is refused.
\<close>

theorem concurrent_overdraft:
  "\<exists>b. shared_steps (started race_ledger race_args) b \<and>
    map tn_status (sh_txns b) = [Committed, Committed] \<and> sh_rows b 1 = Some (- 60) \<and>
    map tn_status (sh_txns (run_schedule (in_turn 2) (started race_ledger race_args))) =
      [Committed, RolledBack ErrInsufficientBalance]"
proof -
  have "map tn_status (sh_txns (run_schedule (in_turn 2) (started race_ledger race_args))) =
      [Committed, RolledBack ErrInsufficientBalance]" by code_simp
  with race_steps race_result show ?thesis by (intro exI [of _ race_end] conjI)
qed

end
