(* ===== verification/Session_Claims.thy ===== *)
theory Session_Claims
  imports Api_Samples
begin

section \<open>Sessions\<close>

text \<open>
  Who gets a session and how long it lasts: login needs the password of a local user,
  renewal the session's own user agent and address, logout ends it for good. The facts
  about the three keys of a session are proved from the contract of the key-value store.
\<close>

subsection \<open>The keys of a session\<close>

definition session_keys :: "string \<Rightarrow> string set" where
  "session_keys sID = {sid_key sID, agent_key sID, ip_key sID}"

lemma session_keys_distinct:
  "sid_key s \<noteq> agent_key s" "sid_key s \<noteq> ip_key s" "agent_key s \<noteq> ip_key s"
  by (simp_all add: sid_key_def agent_key_def ip_key_def)

context kv_contract
begin

definition gone :: "'r \<Rightarrow> string \<Rightarrow> bool" where
  "gone s k \<longleftrightarrow> vals s k = None \<and> zs s k = Map.empty"

lemma gone_fades: "gone s k \<Longrightarrow> fades s s' \<Longrightarrow> gone s' k"
  unfolding gone_def fades_def val_fades_def zs_fades_def by metis

lemma kv_Del_gone: "kv_Del kv k s = (None, s') \<Longrightarrow> gone s' k \<and> fades s s'"
  using del_ok del_any by (simp add: gone_def)

lemma del_session_gone:
  assumes "sv_kvStore server = kv" and "del_session server sID c = (True, c')"
  shows "\<forall>k\<in>session_keys sID. gone (c_kv c') k"
proof -
  from assms obtain s1 s2 s3 where d: "kv_Del kv (sid_key sID) (c_kv c) = (None, s1)"
    "kv_Del kv (agent_key sID) s1 = (None, s2)" "kv_Del kv (ip_key sID) s2 = (None, s3)" "c_kv c' = s3"
    by (auto simp: del_session_def Let_def kv_call_def split: prod.splits)
  from kv_Del_gone [OF d(2)] kv_Del_gone [OF d(1)] gone_fades have "gone s2 (sid_key sID)" by blast
  with kv_Del_gone [OF d(2)] kv_Del_gone [OF d(3)] gone_fades d(4) show ?thesis
    by (auto simp: session_keys_def)
qed

text \<open>What a new session leaves under its keys; the first two may have expired already.\<close>

lemma set_session_vals:
  assumes "sv_kvStore server = kv" and "0 < RefreshTokenDuration (sv_config server)"
    and "set_session server sID u c = (True, c')"
  shows "vals (c_kv c') (sid_key sID) \<in> {None, Some u} \<and>
    vals (c_kv c') (agent_key sID) \<in> {None, Some (UserAgent c)} \<and>
    vals (c_kv c') (ip_key sID) = Some (ClientIP c)"
proof -
  let ?d = "RefreshTokenDuration (sv_config server)"
  from assms(1,3) obtain s1 s2 s3 where d: "kv_Set kv (sid_key sID) u ?d (c_kv c) = (None, s1)"
    "kv_Set kv (agent_key sID) (UserAgent c) ?d s1 = (None, s2)"
    "kv_Set kv (ip_key sID) (ClientIP c) ?d s2 = (None, s3)" "c_kv c' = s3"
    by (auto simp: set_session_def Let_def kv_call_def UserAgent_def GetHeader_def ClientIP_def
        split: prod.splits)
  from set_any [OF d(2)] session_keys_distinct [of sID] set_ok [OF assms(2) d(1)]
  have "vals s2 (sid_key sID) \<in> {None, Some u}" by (auto simp: fades_but_def val_fades_def)
  with set_any [OF d(3)] session_keys_distinct [of sID]
  have "vals s3 (sid_key sID) \<in> {None, Some u}" by (auto simp: fades_but_def val_fades_def)
  moreover from set_any [OF d(3)] session_keys_distinct [of sID] set_ok [OF assms(2) d(2)]
  have "vals s3 (agent_key sID) \<in> {None, Some (UserAgent c)}"
    by (auto simp: fades_but_def val_fades_def)
  ultimately show ?thesis using set_ok [OF assms(2) d(3)] d(4) by simp
qed

lemma set_session_fades:
  assumes "sv_kvStore server = kv" and "k \<notin> session_keys sID" and "gone (c_kv c) k"
  shows "gone (c_kv (snd (set_session server sID u c))) k"
proof -
  have fresh: "gone s' k" if "kv_Set kv j v d s = (r, s')" "k \<noteq> j" "gone s k" for j v d s r s'
    using set_any [OF that(1)] that(2,3) by (metis gone_def fades_but_def val_fades_def zs_fades_def)
  have "gone (snd (kv_Set kv j v d s)) k" if "k \<noteq> j" "gone s k" for j v d s
    using fresh [OF _ that] by (metis prod.collapse)
  then show ?thesis using assms
    by (simp add: set_session_def Let_def split_beta frame_simps session_keys_def)
qed

text \<open>What is read was there before.\<close>

lemma get_read: "kv_Get kv k s = (Inr v, s') \<Longrightarrow> vals s k = Some v"
  using get_ok get_any fades_Some by blast

lemma get_read_or_empty: "or_empty (fst (kv_Get kv k s)) = x \<Longrightarrow> vals s k = Some x \<or> x = []"
  using get_read [of k s] by (cases "kv_Get kv k s") (auto simp: or_empty_def split: sum.splits)

lemma get_fades: "fades s (snd (kv_Get kv k s))"
  using get_any by (metis prod.collapse)

text \<open>What a renewal reads is what was stored; a missing entry reads as the empty string.\<close>

lemma stored_session:
  assumes "kv_Exists kv (sid_key sID) s = (ex, k1)" and "kv_Get kv (sid_key sID) k1 = (Inr username, k2)"
    and "or_empty (fst (kv_Get kv (agent_key sID) k2)) = a"
    and "or_empty (fst (kv_Get kv (ip_key sID) (snd (kv_Get kv (agent_key sID) k2)))) = i"
  shows "vals s (sid_key sID) = Some username \<and> (vals s (agent_key sID) = Some a \<or> a = []) \<and>
    (vals s (ip_key sID) = Some i \<or> i = [])"
proof -
  have f1: "fades s k1" by (rule exists_any [OF assms(1)])
  have f2: "fades s k2" by (rule fades_trans [OF f1 get_any [OF assms(2)]])
  have f3: "fades s (snd (kv_Get kv (agent_key sID) k2))" by (rule fades_trans [OF f2 get_fades])
  show ?thesis
    using fades_Some [OF f1 get_read [OF assms(2)]] get_read_or_empty [OF assms(3)] fades_Some [OF f2]
      get_read_or_empty [OF assms(4)] fades_Some [OF f3] by blast
qed

lemma exists_gone:
  assumes "gone s k" and "kv_Exists kv k s = (Inr n, s')"
  shows "n \<le> 0"
  using exists_ok [OF assms(2)] gone_fades [OF assms(1) exists_any [OF assms(2)]]
  by (simp add: gone_def)

end

subsection \<open>What the handlers did when they answer 200\<close>

lemma session_writes [frame_simps]:
  "c_writes (snd (set_session server i u c)) = c_writes c" "c_writes (snd (del_session server i c)) = c_writes c"
  "c_writes (set_sid_cookie server i c) = c_writes c" "c_writes (set_access_cookie server t c) = c_writes c"
  "c_writes (clear_cookie n c) = c_writes c" "c_writes (snd (open_session server u c)) = c_writes c"
  "c_request (snd (set_session server i u c)) = c_request c" "c_request (snd (del_session server i c)) = c_request c"
  "c_request (set_sid_cookie server i c) = c_request c" "c_env (snd (del_session server i c)) = c_env c"
  "c_kv (set_sid_cookie server i c) = c_kv c" "c_kv (set_access_cookie server t c) = c_kv c"
  "c_kv (clear_cookie n c) = c_kv c" "c_cookies (snd (set_session server i u c)) = c_cookies c"
  "c_cookies (snd (del_session server i c)) = c_cookies c"
  by (simp_all add: set_session_def del_session_def set_sid_cookie_def set_access_cookie_def
      clear_cookie_def open_session_def Let_def split_beta frame_simps)

lemma loginUser_200:
  assumes "loginUser server c = Done c'" and "answered c c' 200 r"
  shows "\<exists>fs req u t p c3 c4. Decode (c_body c) = Some fs \<and> loginUserRequest_fields fs = Some req \<and>
    loginUserRequest_binding (lb_validator (sv_libs server)) req \<and>
    GetUser (lur_Username req) (db_of c) = Inr u \<and>
    CheckPassword (lb_bcrypt (sv_libs server)) (lur_Password req) (usr_hashed_password u) = None \<and>
    CreateToken (sv_tokenMaker server) (lur_Username req) (usr_role u)
      (AccessTokenDuration (sv_config server)) (c_env c) = (Inr (t, p), c_env c3) \<and>
    c_kv c3 = c_kv c \<and> c_request c3 = c_request c \<and> c_cookies c3 = c_cookies c \<and>
    open_session server (usr_username u) c3 = (True, c4) \<and>
    c' = JSON 200 (Message ''login successfully'') (set_access_cookie server t c4)"
proof -
  let ?bind = "ShouldBindJSON loginUserRequest_fields
    (loginUserRequest_binding (lb_validator (sv_libs server))) c"
  let ?c1 = "c\<lparr>c_body := NoBody\<rparr>"
  from assms obtain req where req: "fst ?bind = Inr req"
    by (auto simp: loginUser_def split_beta frame_simps answered_def split: sum.splits)
  let ?get = "exec_auto (select (GetUser (lur_Username req)))"
  from assms req obtain u where u: "fst (?get (c_pool c)) = Inr u"
    by (auto simp: loginUser_def split_beta frame_simps answered_def split: sum.splits if_splits)
  let ?c2 = "snd (store_call ?get ?c1)"
  let ?tok = "CreateToken (sv_tokenMaker server) (lur_Username req) (usr_role u)
    (AccessTokenDuration (sv_config server))"
  from assms req u have pw: "CheckPassword (lb_bcrypt (sv_libs server)) (lur_Password req)
      (usr_hashed_password u) = None"
    by (auto simp: loginUser_def split_beta frame_simps answered_def split: option.splits)
  from assms req u pw obtain t p where t: "fst (?tok (c_env c)) = Inr (t, p)"
    by (auto simp: loginUser_def split_beta frame_simps answered_def split: sum.splits)
  let ?c3 = "snd (env_call ?tok ?c2)"
  from assms req u pw t have s: "fst (open_session server (usr_username u) ?c3)"
    by (auto simp: loginUser_def split_beta frame_simps answered_def split: bool.splits)
  from assms req u pw t s have "c' = JSON 200 (Message ''login successfully'')
      (set_access_cookie server t (snd (open_session server (usr_username u) ?c3)))"
    by (simp add: loginUser_def split_beta frame_simps)
  moreover have "GetUser (lur_Username req) (db_of c) = Inr u" by (rule exec_select_Inr [OF u])
  moreover obtain fs where "Decode (c_body c) = Some fs" "loginUserRequest_fields fs = Some req"
    "loginUserRequest_binding (lb_validator (sv_libs server)) req"
    using ShouldBindJSON_Inr [OF req] by blast
  moreover have "open_session server (usr_username u) ?c3 =
      (True, snd (open_session server (usr_username u) ?c3))" using s by (simp add: prod_eq_iff)
  moreover have "?tok (c_env c) = (Inr (t, p), c_env ?c3)" "c_kv ?c3 = c_kv c"
    "c_request ?c3 = c_request c" "c_cookies ?c3 = c_cookies c"
    using t by (simp_all add: frame_simps prod_eq_iff)
  ultimately show ?thesis using pw by blast
qed

lemma logoutUser_200:
  assumes "logoutUser server c = Done c'" and "answered c c' 200 r" and "Cookie c ''sid'' = Some sID"
  shows "\<exists>c1. del_session server sID c = (True, c1) \<and> c_kv c' = c_kv c1"
  using assms
  by (auto simp: logoutUser_def Let_def split_beta frame_simps answered_def prod_eq_iff split: bool.splits)

text \<open>What renewal has read from the store, and found equal to the request, before it goes on.\<close>

lemma renew_reads:
  assumes "renewAccessToken server c = Done c'" and "answered c c' 200 r"
  obtains sID n username k1 k2 k3 where "Cookie c ''sid'' = Some sID"
    "kv_Exists (sv_kvStore server) (sid_key sID) (c_kv c) = (Inr n, k1)" "0 < n"
    "kv_Get (sv_kvStore server) (sid_key sID) k1 = (Inr username, k2)"
    "or_empty (fst (kv_Get (sv_kvStore server) (agent_key sID) k2)) = UserAgent c"
    "k3 = snd (kv_Get (sv_kvStore server) (agent_key sID) k2)"
    "or_empty (fst (kv_Get (sv_kvStore server) (ip_key sID) k3)) = ClientIP c"
proof -
  let ?kv = "sv_kvStore server"
  note run = assms(1) [unfolded renewAccessToken_def Let_def split_beta]
  note w = frame_simps answered_def UserAgent_def GetHeader_def ClientIP_def split_beta
  from run assms(2) obtain sID where sid: "Cookie c ''sid'' = Some sID"
    by (auto simp: w split: option.splits)
  let ?read = "snd (kv_Exists ?kv (sid_key sID) (c_kv c))"
  from run assms(2) sid obtain n where n: "fst (kv_Exists ?kv (sid_key sID) (c_kv c)) = Inr n" "0 < n"
    by (auto simp: w split: if_splits sum.splits)
  let ?got = "snd (kv_Get ?kv (sid_key sID) ?read)"
  from run assms(2) sid n obtain username where g: "fst (kv_Get ?kv (sid_key sID) ?read) = Inr username"
    by (auto simp: w split: sum.splits)
  let ?seen = "snd (kv_Get ?kv (agent_key sID) ?got)"
  from run assms(2) sid n g have a: "or_empty (fst (kv_Get ?kv (agent_key sID) ?got)) = UserAgent c"
    by (auto simp: w split: if_splits)
  from run assms(2) sid n g a have i: "or_empty (fst (kv_Get ?kv (ip_key sID) ?seen)) = ClientIP c"
    by (auto simp: w split: if_splits)
  have "kv_Exists ?kv (sid_key sID) (c_kv c) = (Inr n, ?read)"
    "kv_Get ?kv (sid_key sID) ?read = (Inr username, ?got)" using n(1) g by (simp_all add: prod_eq_iff)
  then show ?thesis using that [OF sid _ n(2) _ a refl i] by blast
qed

lemma renewAccessToken_200:
  assumes "renewAccessToken server c = Done c'" and "answered c c' 200 r"
  shows "\<exists>sID n username u t p k1 k2 k3 k4 c6 c7 c8. Cookie c ''sid'' = Some sID \<and>
    kv_Exists (sv_kvStore server) (sid_key sID) (c_kv c) = (Inr n, k1) \<and> 0 < n \<and>
    kv_Get (sv_kvStore server) (sid_key sID) k1 = (Inr username, k2) \<and>
    or_empty (fst (kv_Get (sv_kvStore server) (agent_key sID) k2)) = UserAgent c \<and>
    k3 = snd (kv_Get (sv_kvStore server) (agent_key sID) k2) \<and>
    or_empty (fst (kv_Get (sv_kvStore server) (ip_key sID) k3)) = ClientIP c \<and>
    k4 = snd (kv_Get (sv_kvStore server) (ip_key sID) k3) \<and>
    GetUser username (db_of c) = Inr u \<and>
    CreateToken (sv_tokenMaker server) (usr_username u) (usr_role u)
      (AccessTokenDuration (sv_config server)) (c_env c) = (Inr (t, p), c_env c6) \<and>
    c_kv c6 = k4 \<and> c_request c6 = c_request c \<and> c_cookies c6 = c_cookies c \<and>
    del_session server sID c6 = (True, c7) \<and> open_session server (usr_username u) c7 = (True, c8) \<and>
    c' = JSON 200 (Status ''success'') (set_access_cookie server t c8)"
proof -
  let ?kv = "sv_kvStore server"
  note run = assms(1) [unfolded renewAccessToken_def Let_def split_beta]
  note w = frame_simps answered_def UserAgent_def GetHeader_def ClientIP_def split_beta
  from renew_reads [OF assms] obtain sID n username k1 k2 k3 where
    sid: "Cookie c ''sid'' = Some sID" and n: "kv_Exists ?kv (sid_key sID) (c_kv c) = (Inr n, k1)" "0 < n"
    and g: "kv_Get ?kv (sid_key sID) k1 = (Inr username, k2)"
    and a: "or_empty (fst (kv_Get ?kv (agent_key sID) k2)) = UserAgent c"
      "k3 = snd (kv_Get ?kv (agent_key sID) k2)"
    and i: "or_empty (fst (kv_Get ?kv (ip_key sID) k3)) = ClientIP c" .
  let ?left = "snd (kv_Get ?kv (ip_key sID) k3)"
  let ?get = "exec_auto (select (GetUser username))"
  from run assms(2) sid n g a i obtain u where u: "fst (?get (c_pool c)) = Inr u"
    by (auto simp: w split: sum.splits if_splits)
  let ?tok = "CreateToken (sv_tokenMaker server) (usr_username u) (usr_role u)
    (AccessTokenDuration (sv_config server))"
  from run assms(2) sid n g a i u obtain t p where t: "fst (?tok (c_env c)) = Inr (t, p)"
    by (auto simp: w split: sum.splits)
  let ?served = "c\<lparr>c_kv := ?left, c_pool := snd (?get (c_pool c)), c_env := snd (?tok (c_env c))\<rparr>"
  have c6: "snd (env_call ?tok (snd (store_call ?get (snd (kv_call (kv_Get ?kv (ip_key sID))
      (snd (kv_call (kv_Get ?kv (agent_key sID)) (snd (kv_call (kv_Get ?kv (sid_key sID))
      (snd (kv_call (kv_Exists ?kv (sid_key sID)) c))))))))))) = ?served"
    by (simp add: env_call_def store_call_def kv_call_def split_beta n g a(2))
  from run assms(2) sid n g a i u t c6 have d: "fst (del_session server sID ?served)"
    by (auto simp: w split: bool.splits)
  let ?closed = "snd (del_session server sID ?served)"
  from run assms(2) sid n g a i u t c6 d have o: "fst (open_session server (usr_username u) ?closed)"
    by (auto simp: w split: bool.splits)
  let ?opened = "snd (open_session server (usr_username u) ?closed)"
  from run sid n g a i u t c6 d o have "c' = JSON 200 (Status ''success'') (set_access_cookie server t ?opened)"
    by (simp add: w)
  moreover have "GetUser username (db_of c) = Inr u" by (rule exec_select_Inr [OF u])
  moreover have "del_session server sID ?served = (True, ?closed)"
    "open_session server (usr_username u) ?closed = (True, ?opened)"
    "?tok (c_env c) = (Inr (t, p), c_env ?served)"
    "c_kv ?served = ?left" "c_request ?served = c_request c" "c_cookies ?served = c_cookies c"
    using d o t by (simp_all add: prod_eq_iff)
  ultimately show ?thesis using sid n g a i by blast
qed

subsection \<open>Claims\<close>

definition named :: "cookie list \<Rightarrow> (string \<times> string) list" where
  "named = map (\<lambda>k. (ck_name k, ck_value k))"

lemma open_session_cookies:
  assumes "open_session server u c = (True, c1)"
  shows "\<exists>sID e. RandomID (c_env c) = (sID, e) \<and>
    named (c_cookies (set_access_cookie server t c1)) =
      named (c_cookies c) @ [(''sid'', sID), (''access_token'', t)] \<and>
    set_session server sID u (set_sid_cookie server sID (c\<lparr>c_env := e\<rparr>)) = (True, c1)"
proof -
  obtain sID e where r: "RandomID (c_env c) = (sID, e)" by (cases "RandomID (c_env c)")
  let ?c = "set_sid_cookie server sID (c\<lparr>c_env := e\<rparr>)"
  from assms r have s: "set_session server sID u ?c = (True, c1)"
    by (simp add: open_session_def env_call_def)
  have "c_cookies c1 = c_cookies ?c" using session_writes(14) [of server sID u ?c] s by simp
  with r s show ?thesis
    by (simp add: named_def set_access_cookie_def set_sid_cookie_def SetCookie_def)
qed


text \<open>The sample server with a key-value store that refuses no command.\<close>

lemma sample_kv_simps [simp]: "sv_kvStore sample_server = NewRedisStore mem_redis_client"
  by (simp add: sample_server_def)

lemma mem_plan [simp]:
  assumes "mr_plan s = []"
  shows "fst (kv_Set (NewRedisStore mem_redis_client) k v d s) = None"
    "mr_plan (snd (kv_Set (NewRedisStore mem_redis_client) k v d s)) = []"
    "fst (kv_Del (NewRedisStore mem_redis_client) k s) = None"
    "mr_plan (snd (kv_Del (NewRedisStore mem_redis_client) k s)) = []"
  using assms by (simp_all add: RedisStore_defs mem_redis_client_def mem_command_def Err_def)

lemma sample_sessions:
  assumes "mr_plan (c_kv c) = []"
  shows "fst (set_session sample_server i u c)" "fst (del_session sample_server i c)"
    "mr_plan (c_kv (snd (del_session sample_server i c))) = []" "fst (open_session sample_server u c)"
  using assms by (simp_all add: set_session_def del_session_def open_session_def Let_def split_beta
      frame_simps)

lemma sample_tokens: "\<exists>t p. fst (CreateToken (sv_tokenMaker sample_server) u r d e) = Inr (t, p)"
  by (simp add: CreateToken_def NewPayload_def sample_server_def sample_maker_def sealed_paseto_def
      split_beta)

text \<open>alice, with the hash of her password, logs in.\<close>

definition login_db :: db where
  "login_db = sample_db\<lparr>users := [(sample_user ''alice'')\<lparr>usr_hashed_password := ''$secret''\<rparr>,
     sample_user ''bob'']\<rparr>"

definition login_ctx :: "(mem_redis, task list) ctx" where
  "login_ctx = (alice_ctx [(''username'', JString ''alice''), (''password'', JString ''secret'')])
     \<lparr>c_pool := sample_pool\<lparr>pl_db := login_db\<rparr>\<rparr>"

lemma login_done:
  assumes "c_body c = JsonBody (JObject [(''username'', JString ''alice''), (''password'', JString ''secret'')])"
    and "c_pool c = sample_pool\<lparr>pl_db := login_db\<rparr>" and "mr_plan (c_kv c) = []"
  shows "\<exists>t c3. loginUser sample_server c = Done (JSON 200 (Message ''login successfully'')
      (set_access_cookie sample_server t (snd (open_session sample_server ''alice'' c3)))) \<and>
    c_kv c3 = c_kv c \<and> c_request c3 = c_request c \<and> c_cookies c3 = c_cookies c \<and>
    c_writes c3 = c_writes c \<and> db_of c3 = login_db \<and> pl_faults (c_pool c3) = pl_faults (c_pool c)"
proof -
  have bind: "fst (ShouldBindJSON loginUserRequest_fields
      (loginUserRequest_binding (lb_validator (sv_libs sample_server))) c) =
      Inr \<lparr>lur_Username = ''alice'', lur_Password = ''secret''\<rparr>"
    by (simp add: ShouldBindJSON_def Decode_def object_of_def names_def loginUserRequest_fields_def
        loginUserRequest_binding_def sample_libs_def tag_defs lower_char_def assms(1))
  let ?u = "(sample_user ''alice'')\<lparr>usr_hashed_password := ''$secret''\<rparr>"
  let ?get = "exec_auto (select (GetUser ''alice''))"
  have user: "fst (?get (c_pool c)) = Inr ?u"
    by (simp add: login_db_def exec_auto_def select_def GetUser_def sample_defs
        sample_pool_def fault_of_def assms(2))
  have pw: "CheckPassword (lb_bcrypt (sv_libs sample_server)) ''secret'' (usr_hashed_password ?u) = None"
    by (simp add: CheckPassword_def sample_libs_def plain_bcrypt_def)
  let ?tok = "CreateToken (sv_tokenMaker sample_server) ''alice'' (usr_role ?u)
      (AccessTokenDuration (sv_config sample_server))"
  obtain t p where tok: "fst (?tok (c_env c)) = Inr (t, p)" using sample_tokens by blast
  let ?c3 = "snd (env_call ?tok (snd (store_call ?get (c\<lparr>c_body := NoBody\<rparr>))))"
  have "loginUser sample_server c = Done (JSON 200 (Message ''login successfully'')
      (set_access_cookie sample_server t (snd (open_session sample_server ''alice'' ?c3))))"
    using bind user pw tok assms(3) by (simp add: loginUser_def split_beta frame_simps sample_sessions)
      (simp add: sample_user_def)
  moreover have "c_kv ?c3 = c_kv c \<and> c_request ?c3 = c_request c \<and> c_cookies ?c3 = c_cookies c \<and>
      c_writes ?c3 = c_writes c \<and> db_of ?c3 = login_db \<and> pl_faults (c_pool ?c3) = pl_faults (c_pool c)"
    by (simp add: frame_simps assms(2))
  ultimately show ?thesis by blast
qed

lemma login_run:
  "\<exists>c'. loginUser sample_server login_ctx = Done c' \<and>
    answered login_ctx c' 200 (Message ''login successfully'')"
  using login_done [of login_ctx]
  by (auto simp: login_ctx_def sample_kv_def answered_def session_writes)

lemma sample_store: "kv_contract mem_vals mem_zs (sv_kvStore sample_server)"
  by (simp add: sample_server_def mem.kv_contract_axioms)

lemma sample_durations: "0 < RefreshTokenDuration (sv_config sample_server)"
  by (simp add: sample_server_def sample_config_def)


text \<open>Closing one session and opening another in the same request.\<close>

lemma session_rotated:
  assumes "kv_contract vals zs (sv_kvStore server)" and "0 < RefreshTokenDuration (sv_config server)"
    and "del_session server sID c6 = (True, c7)" and "open_session server u c7 = (True, c8)"
  shows "\<exists>new. named (c_cookies (set_access_cookie server t c8)) =
      named (c_cookies c6) @ [(''sid'', new), (''access_token'', t)] \<and>
    vals (c_kv c8) (sid_key new) \<in> {None, Some u} \<and> vals (c_kv c8) (ip_key new) = Some (ClientIP c6) \<and>
    (\<forall>k\<in>session_keys sID. k \<in> session_keys new \<or> vals (c_kv c8) k = None)"
proof -
  obtain new e where s: "named (c_cookies (set_access_cookie server t c8)) =
      named (c_cookies c7) @ [(''sid'', new), (''access_token'', t)]"
    "set_session server new u (set_sid_cookie server new (c7\<lparr>c_env := e\<rparr>)) = (True, c8)"
    using open_session_cookies [OF assms(4)] by blast
  let ?opened = "set_sid_cookie server new (c7\<lparr>c_env := e\<rparr>)"
  have c7: "c_request ?opened = c_request c6" "c_cookies c7 = c_cookies c6" "c_kv ?opened = c_kv c7"
    using session_writes(8) [of server sID c6] session_writes(15) [of server sID c6] assms(3)
    by (simp_all add: session_writes)
  have old: "vals (c_kv c8) k = None" if "k \<in> session_keys sID" "k \<notin> session_keys new" for k
    using kv_contract.set_session_fades [OF assms(1) refl that(2), of ?opened u] s(2) c7
      kv_contract.del_session_gone [OF assms(1) refl assms(3)] that(1)
    by (simp add: kv_contract.gone_def [OF assms(1)])
  have same_client: "ClientIP ?opened = ClientIP c6" by (simp only: ClientIP_def c7(1))
  have new_session: "vals (c_kv c8) (sid_key new) \<in> {None, Some u}"
    "vals (c_kv c8) (ip_key new) = Some (ClientIP c6)"
    using kv_contract.set_session_vals [OF assms(1) refl assms(2) s(2)] unfolding same_client by blast+
  have cookies: "named (c_cookies (set_access_cookie server t c8)) =
      named (c_cookies c6) @ [(''sid'', new), (''access_token'', t)]"
    using s(1) by (simp only: c7(2))
  have gone: "\<forall>k\<in>session_keys sID. k \<in> session_keys new \<or> vals (c_kv c8) k = None"
    by (intro ballI disjCI) (rule ccontr, drule (1) old, erule (1) notE)
  show ?thesis by (rule exI [of _ new]) (intro conjI cookies new_session gone)
qed


text \<open>alice's stored session s1, and a request with its cookie.\<close>

definition session_ctx :: "(mem_redis, task list) ctx" where
  "session_ctx = (alice_ctx [])\<lparr>
     c_request := (sample_request [] None)\<lparr>rq_cookies := [''sid'' \<mapsto> ''s1'']\<rparr>,
     c_kv := sample_kv\<lparr>mr_vals := [sid_key ''s1'' \<mapsto> (''alice'', None),
       agent_key ''s1'' \<mapsto> ([], None), ip_key ''s1'' \<mapsto> (''10.0.0.1'', None)]\<rparr>\<rparr>"

lemma session_cookie: "Cookie session_ctx ''sid'' = Some ''s1''"
  by (simp add: session_ctx_def Cookie_def)

lemma session_vals:
  "mem_vals (c_kv session_ctx) (sid_key ''s1'') = Some ''alice''"
  "mem_vals (c_kv session_ctx) (agent_key ''s1'') = Some []"
  "mem_vals (c_kv session_ctx) (ip_key ''s1'') = Some ''10.0.0.1''"
  by (simp_all add: session_ctx_def mem_vals_def live_def session_keys_distinct)

lemma mem_reads:
  assumes "mr_plan s = []"
  shows "kv_Get (NewRedisStore mem_redis_client) k s =
      (case mem_vals s k of None \<Rightarrow> Inl KvNil | Some v \<Rightarrow> Inr v, s)"
    and "mem_vals s k = Some v \<Longrightarrow> kv_Exists (NewRedisStore mem_redis_client) k s = (Inr 1, s)"
  using assms by (simp_all add: RedisStore_defs mem_redis_client_def mem_command_def mem_get_def
      split: option.split)

lemma mem_renews:
  assumes "mr_plan (c_kv c) = []" and "Cookie c ''sid'' = Some i"
    and "mem_vals (c_kv c) (sid_key i) = Some u"
    and "(case mem_vals (c_kv c) (agent_key i) of None \<Rightarrow> [] | Some v \<Rightarrow> v) = UserAgent c"
    and "(case mem_vals (c_kv c) (ip_key i) of None \<Rightarrow> [] | Some v \<Rightarrow> v) = ClientIP c"
    and "fst (exec_auto (select (GetUser u)) (c_pool c)) = Inr r"
  shows "\<exists>c'. renewAccessToken sample_server c = Done c' \<and> answered c c' 200 (Status ''success'')"
proof -
  obtain t p where tok: "fst (CreateToken (sv_tokenMaker sample_server)
      (usr_username r) (usr_role r) (AccessTokenDuration (sv_config sample_server)) (c_env c)) = Inr (t, p)"
    using sample_tokens by blast
  have read: "or_empty (case x of None \<Rightarrow> Inl e | Some v \<Rightarrow> Inr v) = (case x of None \<Rightarrow> [] | Some v \<Rightarrow> v)"
    for x and e :: kv_error by (simp add: or_empty_def split: option.split)
  show ?thesis
    using assms tok mem_reads(2) [OF assms(1)]
    by (simp add: renewAccessToken_def Let_def split_beta frame_simps answered_def sample_sessions
        read mem_reads(1) GetHeader_def ClientIP_def UserAgent_def)
qed

lemma renew_run:
  "\<exists>c'. renewAccessToken sample_server session_ctx = Done c' \<and>
    answered session_ctx c' 200 (Status ''success'')"
proof (rule mem_renews [OF _ session_cookie session_vals(1)])
  show "fst (exec_auto (select (GetUser ''alice'')) (c_pool session_ctx)) = Inr (sample_user ''alice'')"
    by (simp add: session_ctx_def exec_auto_def select_def GetUser_def sample_defs
        sample_pool_def fault_of_def)
qed (simp_all add: session_vals, simp_all add: session_ctx_def sample_kv_def sample_request_def ClientIP_def
    UserAgent_def GetHeader_def)




end
