(* ===== verification/Otp_Claims.thy ===== *)
theory Otp_Claims
  imports Auth_Claims Session_Claims Transfer_Claims
begin

section \<open>One-time passwords and rate limits\<close>

text \<open>
  What guards a transfer beside authentication: the rate limiter and the code that was
  mailed. The facts about the key-value store come from its contract.
\<close>

subsection \<open>The rate limiter\<close>

context kv_contract
begin

definition vals_fade :: "'r \<Rightarrow> 'r \<Rightarrow> bool" where
  "vals_fade s s' \<longleftrightarrow> (\<forall>k v. vals s' k = Some v \<longrightarrow> vals s k = Some v)"

lemma vals_fade_refl: "vals_fade s s"
  by (simp add: vals_fade_def)

lemma vals_fade_trans: "vals_fade a b \<Longrightarrow> vals_fade b c \<Longrightarrow> vals_fade a c"
  by (auto simp: vals_fade_def)

lemma fades_vals: "fades s s' \<Longrightarrow> vals_fade s s'"
  using fades_Some by (auto simp: vals_fade_def)

lemma fades_but_vals: "fades_but k s s' \<Longrightarrow> val_fades s s' k \<Longrightarrow> vals_fade s s'"
  unfolding vals_fade_def fades_but_def val_fades_def by (metis option.distinct(1))

lemma snd_fades:
  "vals_fade s (snd (kv_ZRemRangeByScore kv k ''0'' (show_int w) s))"
  "vals_fade s (snd (kv_ZCard kv k s))" "vals_fade s (snd (kv_ZRange kv k 0 0 s))"
  "vals_fade s (snd (kv_ZAdd kv k [z] s))" "0 < d \<Longrightarrow> vals_fade s (snd (kv_Expire kv k d s))"
  "vals_fade s (snd (kv_Get kv k s))" "vals_fade s (snd (kv_Del kv k s))"
  using zrem_any [of k w s] zcard_any [of k s] zrange_any [of k s] zadd_any [of k z s]
    expire_any [of d k s] get_any [of k s] del_any [of k s] fades_vals fades_but_vals
  by (metis prod.collapse)+

end

text \<open>
  \<open>limited kv key maxRequests c c'\<close>: the limiter let the request of context \<open>c\<close> through
  to the rest of the chain, with context \<open>c'\<close>.
\<close>

definition limiter_passes :: "('r, 'q) ctx \<Rightarrow> ('r, 'q) ctx \<Rightarrow> bool" where
  "limiter_passes c c' \<longleftrightarrow> c_pool c' = c_pool c \<and> c_body c' = c_body c \<and> c_payload c' = c_payload c \<and>
     c_request c' = c_request c \<and> c_writes c' = c_writes c \<and> c_aborted c' = c_aborted c \<and>
     c_finished c' = c_finished c \<and> e_clock (c_env c') = e_clock (c_env c)"

lemma rate_headers_simps [simp]:
  "c_pool (rate_headers r m n x c) = c_pool c" "c_body (rate_headers r m n x c) = c_body c"
  "c_payload (rate_headers r m n x c) = c_payload c" "c_request (rate_headers r m n x c) = c_request c"
  "c_writes (rate_headers r m n x c) = c_writes c" "c_aborted (rate_headers r m n x c) = c_aborted c"
  "c_finished (rate_headers r m n x c) = c_finished c" "c_kv (rate_headers r m n x c) = c_kv c"
  "c_env (rate_headers r m n x c) = c_env c"
  by (simp_all add: rate_headers_def)

definition window_start :: "int \<Rightarrow> ('r, 'q) ctx \<Rightarrow> int" where
  "window_start w c = wrap64 (UnixMilli (fst (time_now (c_env c))) - Milliseconds w)"

text \<open>The state of the key-value store after the expired requests are dropped and the rest counted.\<close>

definition pruned :: "'r kv_store \<Rightarrow> string \<Rightarrow> int \<Rightarrow> ('r, 'q) ctx \<Rightarrow> 'r" where
  "pruned kv key w c = snd (kv_ZRemRangeByScore kv key ''0'' (show_int (window_start w c)) (c_kv c))"

lemma rate_limit_run:
  fixes api :: string and kv :: "'r kv_store" and w :: int
  assumes "c_payload c = Some p"
  defines "key \<equiv> rate_key (ClientIP c) (pay_Username p) api"
  defines "s2 \<equiv> snd (kv_ZCard kv key (pruned kv key w c))"
  shows "case fst (kv_ZCard kv key (pruned kv key w c)) of
      Inl err \<Rightarrow> \<exists>c'. rateLimitMiddleware rfc api kv n w nxt c = Done c' \<and> c_aborted c' \<and>
        c_pool c' = c_pool c \<and> c_kv c' = s2 \<and> (\<exists>r. c_writes c' = c_writes c @ [(500, r)])
    | Inr count \<Rightarrow> (let s3 = snd (kv_ZRange kv key 0 0 s2) in
        if count > n then \<exists>c'. rateLimitMiddleware rfc api kv n w nxt c = Done c' \<and> c_aborted c' \<and>
          c_pool c' = c_pool c \<and> c_kv c' = s3 \<and> (\<exists>r. c_writes c' = c_writes c @ [(429, r)])
        else \<exists>c' z. rateLimitMiddleware rfc api kv n w nxt c = nxt c' \<and> limiter_passes c c' \<and>
          c_kv c' = snd (kv_Expire kv key w (snd (kv_ZAdd kv key [z] s3))))"
proof (cases "fst (kv_ZCard kv key (pruned kv key w c))")
  case (Inl err)
  then show ?thesis using assms
    by (simp add: rateLimitMiddleware_def MustGet_def Let_def split_beta frame_simps pruned_def
        window_start_def)
next
  case (Inr count)
  show ?thesis
  proof (cases "count > n")
    case True
    with Inr assms show ?thesis
      by (simp add: rateLimitMiddleware_def MustGet_def Let_def split_beta frame_simps pruned_def
          window_start_def)
  next
    case False
    show ?thesis
      by (insert False Inr assms, simp add: rateLimitMiddleware_def MustGet_def Let_def split_beta
            frame_simps pruned_def window_start_def limiter_passes_def, rule exI, rule conjI, rule refl)
        (simp add: frame_simps, rule exI, rule refl)
  qed
qed

lemma rate_limit_cases:
  assumes "kv_contract vals zs kv" and "0 < w" and "c_payload c = Some p"
  shows "(\<exists>c' code r. rateLimitMiddleware rfc api kv n w nxt c = Done c' \<and> c_aborted c' \<and>
      c_pool c' = c_pool c \<and> c_writes c' = c_writes c @ [(code, r)] \<and> code \<in> {429, 500}) \<or>
    (\<exists>c'. rateLimitMiddleware rfc api kv n w nxt c = nxt c' \<and> limiter_passes c c' \<and>
      kv_contract.vals_fade vals (c_kv c) (c_kv c'))"
proof -
  let ?key = "rate_key (ClientIP c) (pay_Username p) api"
  note run = rate_limit_run [OF assms(3), where kv = kv and api = api and w = w and rfc = rfc and n = n
      and nxt = nxt]
  note f = kv_contract.snd_fades [OF assms(1)] and t = kv_contract.vals_fade_trans [OF assms(1)]
  have fade: "kv_contract.vals_fade vals (c_kv c) (snd (kv_Expire kv ?key w (snd (kv_ZAdd kv ?key [z]
      (snd (kv_ZRange kv ?key 0 0 (snd (kv_ZCard kv ?key (pruned kv ?key w c)))))))))" for z
    unfolding pruned_def by (intro t [OF _ f(5)] t [OF _ f(4)] t [OF _ f(3)] t [OF _ f(2)] f(1) assms(2))
  show ?thesis
  proof (cases "fst (kv_ZCard kv ?key (pruned kv ?key w c))")
    case (Inl err)
    with run show ?thesis by auto
  next
    case (Inr count)
    show ?thesis
    proof (cases "count > n")
      case True
      with run Inr show ?thesis by (auto simp: Let_def)
    next
      case False
      with run Inr obtain c' z where "rateLimitMiddleware rfc api kv n w nxt c = nxt c'"
        "limiter_passes c c'" "c_kv c' = snd (kv_Expire kv ?key w (snd (kv_ZAdd kv ?key [z]
          (snd (kv_ZRange kv ?key 0 0 (snd (kv_ZCard kv ?key (pruned kv ?key w c))))))))"
        by (auto simp: Let_def)
      with fade show ?thesis by metis
    qed
  qed
qed

subsection \<open>The code\<close>

definition otp_of :: "body \<Rightarrow> string option" where
  "otp_of body = Option.bind (Unmarshal body) (string_field ''otp'' [])"

text \<open>The code of the request is accepted now, for a secret stored for the user.\<close>

definition otp_accepted ::
    "gotp \<Rightarrow> ('r \<Rightarrow> string \<Rightarrow> string option) \<Rightarrow> int \<Rightarrow> ('r, 'q) ctx \<Rightarrow> bool" where
  "otp_accepted g vals d c \<longleftrightarrow> (\<exists>p otp secret. c_payload c = Some p \<and> otp_of (c_body c) = Some otp \<and>
     vals (c_kv c) (otp_key (pay_Username p)) = Some secret \<and>
     gt_VerifyTime g secret 6 (int_Seconds d) otp (Unix (fst (time_now (c_env c)))))"

text \<open>The context in which the rest of the chain runs; the body can be read again.\<close>

definition otp_passed :: "'r \<Rightarrow> ('r, 'q) ctx \<Rightarrow> ('r, 'q) ctx" where
  "otp_passed s c = c\<lparr>c_kv := s, c_env := snd (time_now (c_env c))\<rparr>"

lemma otp_passed_simps [simp]:
  "c_pool (otp_passed s c) = c_pool c" "c_payload (otp_passed s c) = c_payload c"
  "c_body (otp_passed s c) = c_body c" "c_writes (otp_passed s c) = c_writes c"
  "c_aborted (otp_passed s c) = c_aborted c" "c_finished (otp_passed s c) = c_finished c"
  "c_kv (otp_passed s c) = s"
  by (simp_all add: otp_passed_def)

lemma otp_run:
  assumes "c_payload c = Some p" and "otp_of (c_body c) = Some otp"
    and "kv_Get kv (otp_key (pay_Username p)) (c_kv c) = (res, s)"
  shows "case res of
      Inl err \<Rightarrow> \<exists>c' r. verifyOTPMiddleware g kv d nxt c = Done c' \<and> c_aborted c' \<and>
        c_pool c' = c_pool c \<and> c_kv c' = s \<and> c_writes c' = c_writes c @ [(401, r)]
    | Inr secret \<Rightarrow>
        if gt_VerifyTime g secret 6 (int_Seconds d) otp (Unix (fst (time_now (c_env c))))
        then verifyOTPMiddleware g kv d nxt c = (case nxt (otp_passed s c) of
            Panicked c3 \<Rightarrow> Panicked c3
          | Done c3 \<Rightarrow> Done (snd (kv_call (kv_Del kv (otp_key (pay_Username p))) c3)))
        else \<exists>c' r. verifyOTPMiddleware g kv d nxt c = Done c' \<and> c_aborted c' \<and>
          c_pool c' = c_pool c \<and> c_kv c' = s \<and> c_writes c' = c_writes c @ [(401, r)]"
proof -
  let ?c1 = "c\<lparr>c_body := NoBody, c_kv := s\<rparr>"
  have get: "kv_call (kv_Get kv (otp_key (pay_Username p))) (c\<lparr>c_body := NoBody\<rparr>) = (res, ?c1)"
    using assms(3) by (simp add: kv_call_def)
  have now: "env_call time_now ?c1 = (fst (time_now (c_env c)), ?c1\<lparr>c_env := snd (time_now (c_env c))\<rparr>)"
    by (simp add: env_call_def split_beta)
  have same: "?c1\<lparr>c_env := snd (time_now (c_env c))\<rparr>\<lparr>c_body := c_body c\<rparr> = otp_passed s c"
    by (simp add: otp_passed_def)
  show ?thesis
    using assms(1,2) get now same
    by (cases res) (auto simp: verifyOTPMiddleware_def GetRawData_def otp_of_def MustGet_def Let_def)
qed

lemma otp_cases:
  assumes "kv_contract vals zs kv"
  shows "(\<exists>c'. verifyOTPMiddleware g kv d nxt c = Panicked c' \<and> c_pool c' = c_pool c \<and>
      c_writes c' = c_writes c \<and> c_payload c = None) \<or>
    (\<exists>c' r. verifyOTPMiddleware g kv d nxt c = Done c' \<and> c_aborted c' \<and> c_pool c' = c_pool c \<and>
      c_writes c' = c_writes c @ [(401, r)]) \<or>
    (otp_accepted g vals d c \<and> (\<exists>s p. c_payload c = Some p \<and>
      verifyOTPMiddleware g kv d nxt c = (case nxt (otp_passed s c) of Panicked c3 \<Rightarrow> Panicked c3
        | Done c3 \<Rightarrow> Done (snd (kv_call (kv_Del kv (otp_key (pay_Username p))) c3)))))"
proof (cases "otp_of (c_body c)")
  case None
  then show ?thesis by (simp add: verifyOTPMiddleware_def GetRawData_def otp_of_def)
next
  case otp: (Some otp)
  show ?thesis
  proof (cases "c_payload c")
    case None
    with otp show ?thesis by (simp add: verifyOTPMiddleware_def GetRawData_def otp_of_def MustGet_def)
  next
    case (Some p)
    obtain res s where get: "kv_Get kv (otp_key (pay_Username p)) (c_kv c) = (res, s)" by fastforce
    note run = otp_run [OF Some otp get, of g d nxt]
    show ?thesis
    proof (cases res)
      case (Inl err)
      with run show ?thesis by auto
    next
      case (Inr secret)
      with get have "vals (c_kv c) (otp_key (pay_Username p)) = Some secret"
        using kv_contract.get_read [OF assms] by blast
      with run Inr Some otp show ?thesis by (auto simp: otp_accepted_def split: if_splits)
    qed
  qed
qed

subsection \<open>The chain of a transfer\<close>

lemma chain_stops:
  assumes "\<not> c_aborted c" and "h (run_chain hs) c = Done c'" and "c_aborted c'" and "hs \<noteq> []"
  shows "run_chain (h # hs) c = Done c'"
  using assms by (simp add: run_chain_aborted)

text \<open>The three guards behind authentication; the last handler is the transfer.\<close>

lemma transfer_guards:
  assumes "kv_contract vals zs kv" and "0 < w" and "c_payload c = Some p" and "\<not> c_aborted c"
    and "db_of (serve [rateLimitMiddleware rfc api kv n w, verifyOTPMiddleware g kv d, plain f] c) \<noteq> db_of c"
  shows "\<exists>c'. limiter_passes c c' \<and> kv_contract.vals_fade vals (c_kv c) (c_kv c') \<and> otp_accepted g vals d c'"
proof -
  let ?otp = "verifyOTPMiddleware g kv d"
  let ?rest = "[?otp, plain f]" and ?rl = "rateLimitMiddleware rfc api kv n w"
  show ?thesis
    using rate_limit_cases [OF assms(1-3), of rfc api n "run_chain ?rest"]
  proof (elim disjE exE conjE)
    fix c' code r
    assume stop: "?rl (run_chain ?rest) c = Done c'" "c_aborted c'" "c_pool c' = c_pool c"
    then have "run_chain (?rl # ?rest) c = Done c'" using assms(4) by (intro chain_stops) simp_all
    with stop(3) assms(5) show ?thesis by (simp add: serve_def)
  next
    fix c'
    assume pass: "?rl (run_chain ?rest) c = run_chain ?rest c'" "limiter_passes c c'"
      "kv_contract.vals_fade vals (c_kv c) (c_kv c')"
    have run: "run_chain (?rl # ?rest) c = run_chain ?rest c'"
      using assms(4) pass(1) by (intro chain_through) simp_all
    have c': "c_pool c' = c_pool c" "\<not> c_aborted c'" using pass(2) assms(4) by (simp_all add: limiter_passes_def)
    show ?thesis
      using otp_cases [OF assms(1), of g d "run_chain [plain f]" c']
    proof (elim disjE)
      assume "\<exists>c2. ?otp (run_chain [plain f]) c' = Panicked c2 \<and> c_pool c2 = c_pool c' \<and>
        c_writes c2 = c_writes c' \<and> c_payload c' = None"
      with run c' assms(5) show ?thesis by (auto simp: serve_def)
    next
      assume "\<exists>c2 r. ?otp (run_chain [plain f]) c' = Done c2 \<and> c_aborted c2 \<and> c_pool c2 = c_pool c' \<and>
          c_writes c2 = c_writes c' @ [(401, r)]"
      then obtain c2 where c2: "?otp (run_chain [plain f]) c' = Done c2" "c_aborted c2" "c_pool c2 = c_pool c'"
        by blast
      then have "run_chain ?rest c' = Done c2" using c'(2) by (intro chain_stops) simp_all
      with run c' c2(3) assms(5) show ?thesis by (simp add: serve_def)
    next
      assume "otp_accepted g vals d c' \<and> (\<exists>s p. c_payload c' = Some p \<and>
        ?otp (run_chain [plain f]) c' = (case run_chain [plain f] (otp_passed s c') of Panicked c3 \<Rightarrow> Panicked c3
          | Done c3 \<Rightarrow> Done (snd (kv_call (kv_Del kv (otp_key (pay_Username p))) c3))))"
      with pass show ?thesis by blast
    qed
  qed
qed

text \<open>A transfer request with a token gets to the guards.\<close>

definition transfer_handlers :: "('r, 'q) Server \<Rightarrow> ('r, 'q) handler list" where
  "transfer_handlers server =
     [rateLimitMiddleware (lb_RFC3339 (sv_libs server)) ''verifyOTP'' (sv_kvStore server)
        (APILimitBound (sv_config server)) (APILimitDuration (sv_config server)),
      verifyOTPMiddleware (lb_gotp (sv_libs server)) (sv_kvStore server) (APILimitDuration (sv_config server)),
      plain (createTransfer server)]"

abbreviation post_transfer :: "('r, 'q) Server \<Rightarrow> request \<Rightarrow> ('r, 'q) services \<Rightarrow> ('r, 'q) ctx" where
  "post_transfer server \<equiv> handle server ''POST'' [''api'', ''auth'', ''transfers'']"

abbreviation transfer_ctx :: "request \<Rightarrow> ('r, 'q) services \<Rightarrow> ('r, 'q) ctx" where
  "transfer_ctx req \<equiv> new_ctx (bind_params [Lit ''api'', Lit ''auth'', Lit ''transfers'']
     [''api'', ''auth'', ''transfers''] req)"

lemma post_transfer_chain:
  "post_transfer server req s = serve (auth_chain server @ transfer_handlers server) (transfer_ctx req s)"
  by (simp add: handle_createTransfer rate_limit_def transfer_handlers_def)

lemma post_transfer_guarded:
  assumes "lb_csrf (sv_libs server) (c_request (transfer_ctx req s)) = Inr token"
    and "authenticates server (new_ctx req s) = Some (p, e)"
  shows "post_transfer server req s =
    serve (transfer_handlers server) (with_payload p e (with_csrf token (transfer_ctx req s)))"
proof -
  let ?c1 = "with_csrf token (transfer_ctx req s)"
  have "run_chain (auth_chain server @ transfer_handlers server) (transfer_ctx req s) =
      run_chain (authMiddleware (sv_tokenMaker server) # transfer_handlers server) ?c1"
    by (rule csrf_chain [OF _ _ assms(1)]) simp_all
  also have "\<dots> = run_chain (transfer_handlers server) (with_payload p e ?c1)"
    by (rule chain_through, simp, simp add: transfer_handlers_def, rule auth_lets_through)
      (simp add: assms(2))
  finally show ?thesis unfolding post_transfer_chain by (simp add: serve_def)
qed

lemma post_transfer_refused:
  assumes "authenticates server (new_ctx req s) = None \<or>
    (\<exists>a. lb_csrf (sv_libs server) (c_request (transfer_ctx req s)) = Inl a)"
  shows "db_of (post_transfer server req s) = pl_db (sr_pool s)"
proof (cases "lb_csrf (sv_libs server) (c_request (transfer_ctx req s))")
  case (Inl a)
  then obtain code r where "lb_csrf (sv_libs server) (c_request (transfer_ctx req s)) = Inl (code, r)"
    by (cases a) simp
  from csrf_refuses [OF _ _ this, of "transfer_handlers server"] show ?thesis
    unfolding post_transfer_chain by simp
next
  case (Inr token)
  let ?c1 = "with_csrf token (transfer_ctx req s)"
  have "run_chain (auth_chain server @ transfer_handlers server) (transfer_ctx req s) =
      run_chain (authMiddleware (sv_tokenMaker server) # transfer_handlers server) ?c1"
    by (rule csrf_chain [OF _ _ Inr]) simp_all
  then have "post_transfer server req s =
      serve (authMiddleware (sv_tokenMaker server) # transfer_handlers server) ?c1"
    unfolding post_transfer_chain by (simp add: serve_def)
  then show ?thesis
    using auth_chain_refuses [of server ?c1 "transfer_handlers server"] assms Inr by fastforce
qed

subsection \<open>Claims\<close>

text \<open>
  C31. A transfer needs the user's one-time code: whatever \<open>POST /api/auth/transfers\<close> is sent,
  if it changes the database then the request carried a valid token, a secret was stored
  for the token's user, and the code in the request's body was that secret's code at the
  moment of the check.
\<close>

theorem transfer_needs_otp:
  assumes "kv_contract vals zs (sv_kvStore server)" and "0 < APILimitDuration (sv_config server)"
    and "db_of (handle server ''POST'' [''api'', ''auth'', ''transfers''] req s) \<noteq> pl_db (sr_pool s)"
  shows "\<exists>p e otp secret n. authenticates server (new_ctx req s) = Some (p, e) \<and>
    otp_of (rq_body req) = Some otp \<and> vals (sr_kv s) (otp_key (pay_Username p)) = Some secret \<and>
    gt_VerifyTime (lb_gotp (sv_libs server)) secret 6 (int_Seconds (APILimitDuration (sv_config server)))
      otp (Unix (e_clock e n))"
proof -
  let ?d = "APILimitDuration (sv_config server)"
  from post_transfer_refused [of server req s] assms(3) have
    ok: "authenticates server (new_ctx req s) \<noteq> None"
    "\<And>a. lb_csrf (sv_libs server) (c_request (transfer_ctx req s)) \<noteq> Inl a" by metis+
  obtain p e where auth: "authenticates server (new_ctx req s) = Some (p, e)"
    using ok(1) by (cases "authenticates server (new_ctx req s)") auto
  obtain token where csrf: "lb_csrf (sv_libs server) (c_request (transfer_ctx req s)) = Inr token"
    using ok(2) by (cases "lb_csrf (sv_libs server) (c_request (transfer_ctx req s))") metis+
  let ?c = "with_payload p e (with_csrf token (transfer_ctx req s))"
  have c: "c_payload ?c = Some p" "\<not> c_aborted ?c" "c_pool ?c = sr_pool s" "c_kv ?c = sr_kv s"
    "c_env ?c = e" "c_body ?c = rq_body req"
    by (simp_all add: with_payload_def bind_params_def split: option.split)
  with transfer_guards [OF assms(1,2) c(1,2)] post_transfer_guarded [OF csrf auth] assms(3)
  obtain c' where c': "limiter_passes ?c c'" "kv_contract.vals_fade vals (c_kv ?c) (c_kv c')"
    "otp_accepted (lb_gotp (sv_libs server)) vals ?d c'"
    unfolding transfer_handlers_def by metis
  then obtain otp secret where o: "otp_of (c_body c') = Some otp"
    "vals (c_kv c') (otp_key (pay_Username p)) = Some secret"
    "gt_VerifyTime (lb_gotp (sv_libs server)) secret 6 (int_Seconds ?d) otp (Unix (fst (time_now (c_env c'))))"
    using c(1) by (auto simp: otp_accepted_def limiter_passes_def)
  moreover have "vals (sr_kv s) (otp_key (pay_Username p)) = Some secret"
    using c'(2) o(2) c(4) by (simp add: kv_contract.vals_fade_def [OF assms(1)])
  moreover have "fst (time_now (c_env c')) = e_clock e (e_ticks (c_env c'))" "c_body c' = rq_body req"
    using c'(1) c(5,6) by (simp_all add: time_now_def limiter_passes_def)
  ultimately show ?thesis using auth by metis
qed

text \<open>alice transfers 30 USD to bob with the code that step\_gotp gives at that time.\<close>

definition otp_services :: "(mem_redis, task list) services" where
  "otp_services = sample_services\<lparr>sr_kv := sample_kv\<lparr>
     mr_vals := [otp_key ''alice'' \<mapsto> (''SECRET'', None)]\<rparr>,
     sr_env := sample_env\<lparr>e_clock := (\<lambda>_. 1000 * 1000000000)\<rparr>\<rparr>"

definition otp_request :: request where
  "otp_request = sample_request (transfer_body 1 2 30 ''USD'') (Some alice_token)"

lemma otp_request_authenticates:
  "authenticates sample_server (new_ctx otp_request otp_services) =
    Some (alice_payload, snd (time_now (sr_env otp_services)))"
proof -
  have "fst (time_now (sr_env otp_services)) \<le> 2000 * 1000000000"
    by (simp add: time_now_def otp_services_def)
  from alice_token_verifies [OF this] show ?thesis
    by (simp add: authenticates_def presented_def Cookie_def otp_request_def sample_request_def
        sample_server_def)
qed

text \<open>A command of the rate limiter leaves the other keys of a server that refuses nothing.\<close>

lemma mem_limiter:
  assumes "mr_plan s = []"
  shows "mr_plan (snd (kv_ZRemRangeByScore (NewRedisStore mem_redis_client) k a b s)) = []"
    "j \<noteq> k \<Longrightarrow> mr_vals (snd (kv_ZRemRangeByScore (NewRedisStore mem_redis_client) k a b s)) j = mr_vals s j"
    "mr_zsets s k = None \<Longrightarrow> snd (kv_ZRemRangeByScore (NewRedisStore mem_redis_client) k a b s) = s"
    "mr_zsets s k = None \<Longrightarrow> kv_ZCard (NewRedisStore mem_redis_client) k s = (Inr 0, s)"
    "snd (kv_ZRange (NewRedisStore mem_redis_client) k 0 0 s) = s"
    "mr_plan (snd (kv_ZAdd (NewRedisStore mem_redis_client) k [z] s)) = []"
    "mr_vals (snd (kv_ZAdd (NewRedisStore mem_redis_client) k [z] s)) = mr_vals s"
    "mr_now (snd (kv_ZAdd (NewRedisStore mem_redis_client) k [z] s)) = mr_now s"
    "mr_plan (snd (kv_Expire (NewRedisStore mem_redis_client) k d s)) = []"
    "j \<noteq> k \<Longrightarrow> mr_vals (snd (kv_Expire (NewRedisStore mem_redis_client) k d s)) j = mr_vals s j"
    "mr_now (snd (kv_Expire (NewRedisStore mem_redis_client) k d s)) = mr_now s"
  using assms
  by (simp_all add: RedisStore_defs mem_redis_client_def mem_command_def Err_def live_def mem_zset_def
      split: option.split)

lemma transfer_of_cong:
  assumes "c_body c = c_body c'" and "c_payload c = c_payload c'" and "db_of c = db_of c'"
  shows "transfer_of lib c arg \<longleftrightarrow> transfer_of lib c' arg"
  unfolding transfer_of_def assms ..

lemma otp_of_second_1000:
  "gt_VerifyTime step_gotp ''SECRET'' 6 (int_Seconds (300 * 1000000000)) ''000003'' (Unix (1000 * 1000000000))"
proof -
  have "Unix (1000 * 1000000000) = 1000" "int_Seconds (300 * 1000000000) = 300"
    by (simp_all add: Unix_def int_Seconds_def go_div_def)
  moreover have "pad_left 6 (show_nat 3) = ''000003''" by code_simp
  ultimately show ?thesis by (simp add: step_gotp_def)
qed

text \<open>The context of the request behind the authentication, and behind the limiter.\<close>

definition otp_ctx :: "(mem_redis, task list) ctx" where
  "otp_ctx = with_payload alice_payload (snd (time_now (sr_env otp_services)))
     (with_csrf ''csrf'' (transfer_ctx otp_request otp_services))"

lemma otp_ctx_simps [simp]:
  "c_payload otp_ctx = Some alice_payload" "c_pool otp_ctx = sample_pool" "c_kv otp_ctx = sr_kv otp_services"
  "c_body otp_ctx = JsonBody (JObject (transfer_body 1 2 30 ''USD''))" "\<not> c_aborted otp_ctx"
  "c_writes otp_ctx = []" "c_env otp_ctx = snd (time_now (sr_env otp_services))"
  by (simp_all add: otp_ctx_def with_payload_def bind_params_def otp_request_def sample_request_def
      otp_services_def sample_services_def split: option.split)

lemma otp_limited:
  "\<exists>c'. rateLimitMiddleware show_int ''verifyOTP'' (NewRedisStore mem_redis_client) 100 d nxt otp_ctx = nxt c' \<and>
    limiter_passes otp_ctx c' \<and> mr_plan (c_kv c') = [] \<and>
    mem_vals (c_kv c') (otp_key ''alice'') = Some ''SECRET''"
proof -
  let ?kv = "NewRedisStore mem_redis_client" and ?key = "rate_key (ClientIP otp_ctx) ''alice'' ''verifyOTP''"
  have name: "pay_Username alice_payload = ''alice''" by (simp add: alice_payload_def)
  have fresh: "mr_plan (sr_kv otp_services) = []" "mr_zsets (sr_kv otp_services) ?key = None"
    "mr_now (sr_kv otp_services) = 0" "mr_vals (sr_kv otp_services) (otp_key ''alice'') = Some (''SECRET'', None)"
    by (simp_all add: otp_services_def sample_kv_def)
  have other: "otp_key ''alice'' \<noteq> ?key"
    by (simp add: otp_key_def rate_key_def ClientIP_def otp_request_def sample_request_def with_payload_def
        bind_params_def otp_ctx_def split: option.split)
  have pruned: "pruned ?kv ?key d otp_ctx = sr_kv otp_services"
    using mem_limiter(3) [OF fresh(1,2)] by (simp add: pruned_def)
  have "\<exists>c' z. rateLimitMiddleware show_int ''verifyOTP'' ?kv 100 d nxt otp_ctx = nxt c' \<and> limiter_passes otp_ctx c' \<and>
      c_kv c' = snd (kv_Expire ?kv ?key d (snd (kv_ZAdd ?kv ?key [z] (sr_kv otp_services))))"
    using rate_limit_run [OF otp_ctx_simps(1), where kv = ?kv and api = "''verifyOTP''" and w = d and rfc = show_int
        and n = 100 and nxt = nxt]
      mem_limiter(4) [OF fresh(1,2)] mem_limiter(5) [OF fresh(1)] pruned name by (simp add: Let_def)
  then obtain c' z where c': "rateLimitMiddleware show_int ''verifyOTP'' ?kv 100 d nxt otp_ctx = nxt c'"
    "limiter_passes otp_ctx c'"
    and kv: "c_kv c' = snd (kv_Expire ?kv ?key d (snd (kv_ZAdd ?kv ?key [z] (sr_kv otp_services))))" by blast
  have "mr_plan (c_kv c') = []" unfolding kv by (simp add: mem_limiter fresh)
  moreover have "mem_vals (c_kv c') (otp_key ''alice'') = Some ''SECRET''"
    unfolding kv mem_vals_def using other by (simp add: mem_limiter fresh live_def)
  ultimately show ?thesis using c' by blast
qed

text \<open>Behind the limiter the code is good and the transfer runs.\<close>

lemma otp_opens:
  assumes "limiter_passes otp_ctx c" and "mr_plan (c_kv c) = []"
    and "mem_vals (c_kv c) (otp_key ''alice'') = Some ''SECRET''"
  shows "\<exists>c4. run_chain [verifyOTPMiddleware step_gotp (NewRedisStore mem_redis_client) (300 * 1000000000),
      plain (createTransfer sample_server)] c = Done c4 \<and>
    map acc_balance (accounts (db_of c4)) = [70, 80, 40]"
proof -
  let ?kv = "NewRedisStore mem_redis_client" and ?pay = "run_chain [plain (createTransfer sample_server)]"
  have c: "c_payload c = Some alice_payload" "c_pool c = sample_pool" "\<not> c_aborted c"
    "c_body c = JsonBody (JObject (transfer_body 1 2 30 ''USD''))" "e_clock (c_env c) = (\<lambda>_. 1000 * 1000000000)"
    using assms(1) by (simp_all add: limiter_passes_def) (simp add: otp_services_def)
  have get: "kv_Get ?kv (otp_key (pay_Username alice_payload)) (c_kv c) = (Inr ''SECRET'', c_kv c)"
    using assms(3) by (simp add: mem_reads(1) [OF assms(2)] alice_payload_def)
  have otp: "otp_of (c_body c) = Some ''000003''"
    unfolding c(4) by (simp add: otp_of_def Unmarshal_def object_of_def transfer_body_def names_def)
  have good: "gt_VerifyTime step_gotp ''SECRET'' 6 (int_Seconds (300 * 1000000000)) ''000003''
      (Unix (fst (time_now (c_env c))))"
    using otp_of_second_1000 by (simp add: time_now_def c(5))
  let ?c2 = "otp_passed (c_kv c) c"
  have "transfer_of (sv_libs sample_server) ?c2 (sample_transfer 1 2 30)"
    using alice_pays transfer_of_cong [of ?c2 "alice_ctx (transfer_body 1 2 30 ''USD'')"] c by simp
  moreover obtain r q where "TransferTx (sample_transfer 1 2 30) (called (called (called (called sample_pool)))) =
      (Inr r, q)" "map acc_balance (accounts (pl_db q)) = [70, 80, 40]" using alice_tx by (elim exE conjE)
  ultimately obtain c3 where "createTransfer sample_server ?c2 = Done c3" "map acc_balance (accounts (db_of c3)) = [70, 80, 40]"
    using createTransfer_transaction [of ?c2 sample_server "sample_transfer 1 2 30" r q] c by auto
  then obtain c4 where "?pay ?c2 = Done c4" "c_finished c4" "map acc_balance (accounts (db_of c4)) = [70, 80, 40]"
    using c(3) by (cases "c_finished c3") (simp_all add: plain_def)
  then show ?thesis
    using otp_run [OF c(1) otp get, of step_gotp "300 * 1000000000" ?pay] good c(3) by (simp add: frame_simps)
qed

lemma otp_transfer_run:
  "map acc_balance (accounts (db_of (post_transfer sample_server otp_request otp_services))) = [70, 80, 40]"
proof -
  let ?kv = "NewRedisStore mem_redis_client" and ?d = "300 * 1000000000 :: int"
  let ?rest = "[verifyOTPMiddleware step_gotp ?kv ?d, plain (createTransfer sample_server)]"
  have cfg: "transfer_handlers sample_server = rateLimitMiddleware show_int ''verifyOTP'' ?kv 100 ?d # ?rest"
    by (simp add: transfer_handlers_def sample_server_def sample_libs_def sample_config_def)
  have run: "post_transfer sample_server otp_request otp_services = serve (transfer_handlers sample_server) otp_ctx"
    unfolding otp_ctx_def
    by (rule post_transfer_guarded [OF _ otp_request_authenticates]) (simp add: sample_libs_def)
  obtain c where c: "rateLimitMiddleware show_int ''verifyOTP'' ?kv 100 ?d (run_chain ?rest) otp_ctx = run_chain ?rest c"
    "limiter_passes otp_ctx c" "mr_plan (c_kv c) = []" "mem_vals (c_kv c) (otp_key ''alice'') = Some ''SECRET''"
    using otp_limited by blast
  have "run_chain (transfer_handlers sample_server) otp_ctx = run_chain ?rest c"
    unfolding cfg by (rule chain_through, simp, simp, rule c(1))
  with otp_opens [OF c(2-4)] show ?thesis unfolding run by (auto simp: serve_def)
qed

theorem transfer_needs_otp_witness:
  "\<exists>otp secret. otp_of (rq_body otp_request) = Some otp \<and>
    mem_vals (sr_kv otp_services) (otp_key ''alice'') = Some secret \<and>
    map acc_balance (accounts (db_of (post_transfer sample_server otp_request otp_services))) = [70, 80, 40]"
proof -
  have "pl_db (sr_pool otp_services) = sample_db" by (simp add: otp_services_def sample_services_def)
  moreover have "map acc_balance (accounts sample_db) = [100, 50, 40]" by (simp add: sample_defs)
  ultimately have "db_of (post_transfer sample_server otp_request otp_services) \<noteq> pl_db (sr_pool otp_services)"
    using otp_transfer_run by auto
  from transfer_needs_otp [OF sample_store _ this] otp_request_authenticates otp_transfer_run
  show ?thesis by (auto simp: sample_server_def sample_config_def alice_payload_def)
qed


text \<open>A context of alice with a secret stored and a clock that stands still.\<close>

definition code_ctx :: "(mem_redis, task list) ctx" where
  "code_ctx = (alice_ctx [(''otp'', JString ''000003'')])\<lparr>c_kv := sr_kv otp_services,
     c_env := sr_env otp_services\<rparr>"

lemma code_good:
  "gt_VerifyTime step_gotp secret 6 300 ''000003'' 1000"
proof -
  have "pad_left 6 (show_nat 3) = ''000003''" by code_simp
  then show ?thesis by (simp add: step_gotp_def)
qed

lemma code_ctx_facts:
  "c_payload code_ctx = Some alice_payload" "otp_of (c_body code_ctx) = Some ''000003''"
  "kv_Get (NewRedisStore mem_redis_client) (otp_key (pay_Username alice_payload)) (c_kv code_ctx) =
    (Inr ''SECRET'', c_kv code_ctx)"
  "gt_VerifyTime step_gotp secret 6 (int_Seconds (300 * 1000000000)) ''000003''
    (Unix (fst (time_now (c_env code_ctx))))"
proof -
  have plan: "mr_plan (c_kv code_ctx) = []" by (simp add: code_ctx_def otp_services_def sample_kv_def)
  have "pay_Username alice_payload = ''alice''" by (simp add: alice_payload_def)
  moreover have "mem_vals (c_kv code_ctx) (otp_key ''alice'') = Some ''SECRET''"
    by (simp add: code_ctx_def otp_services_def mem_vals_def live_def)
  ultimately show "kv_Get (NewRedisStore mem_redis_client) (otp_key (pay_Username alice_payload)) (c_kv code_ctx) =
      (Inr ''SECRET'', c_kv code_ctx)" using mem_reads(1) [OF plan] by simp
  have "Unix (fst (time_now (c_env code_ctx))) = 1000" "int_Seconds (300 * 1000000000) = 300"
    by (simp_all add: code_ctx_def otp_services_def time_now_def Unix_def int_Seconds_def go_div_def)
  with code_good show "gt_VerifyTime step_gotp secret 6 (int_Seconds (300 * 1000000000)) ''000003''
      (Unix (fst (time_now (c_env code_ctx))))" by simp
qed (simp_all add: code_ctx_def otp_of_def Unmarshal_def object_of_def names_def)


text \<open>What a task without error has done.\<close>

lemma task_ok:
  assumes "run_task processor \<lparr>task_type = TaskSendVerifyEmail,
      task_payload = marshal_payload \<lparr>psv_Username = u\<rparr>, task_options = opts\<rparr> w = (None, w')"
    and "d = APILimitDuration (tp_config processor)"
  shows "\<exists>secret t user. GetUser u (pl_db (ws_pool w)) = Inr user \<and>
    tp_mailer processor ''Transfer OTP''
      (otp_content (gt_At (tp_gotp processor) secret 6 (int_Seconds d) (Unix t)) (int_Seconds d))
      [usr_email user] [] (ws_mail w) = (None, ws_mail w') \<and>
    kv_Set (tp_otpStore processor) (otp_key u) secret d (ws_kv w) = (None, ws_kv w')"
proof -
  obtain secret e1 where r: "RandomBase32Secret 16 (ws_env w) = (secret, e1)" by fastforce
  obtain t e2 where n: "time_now e1 = (t, e2)" by fastforce
  note parsed = task_roundtrip [of "\<lparr>psv_Username = u\<rparr>"]
  have run: "ProcessTaskSendVerifyEmail processor \<lparr>task_type = TaskSendVerifyEmail,
      task_payload = marshal_payload \<lparr>psv_Username = u\<rparr>, task_options = opts\<rparr> w = (None, w')"
    using assms(1) by (simp add: run_task_def)
  from run parsed obtain user where user: "GetUser u (pl_db (ws_pool w)) = Inr user"
    by (auto simp: ProcessTaskSendVerifyEmail_def r n Let_def select_def split: sum.splits prod.splits
        dest!: exec_auto_InrD)
  then have name: "usr_username user = u"
    using row_of_SomeD by (fastforce simp: GetUser_def split: option.splits)
  have got: "exec_auto (select (GetUser u)) (ws_pool w) = (Inr x, q) \<Longrightarrow> x = user" for x q
    using user by (auto simp: select_def dest!: exec_auto_InrD)
  from run parsed user show ?thesis
    by (intro exI [of _ secret] exI [of _ t] exI [of _ user])
      (auto simp: ProcessTaskSendVerifyEmail_def r n Let_def assms(2) name split: sum.splits prod.splits
        option.splits dest!: got)
qed

text \<open>
  C34. The mail and the check fit: when the task of \<open>sendOTP\<close> has run without error, the mail
  to the user's address carries a code for which the stored secret lets the user's next
  request through to its handler, for as long as the secret is stored and the clock is in
  the interval of the code; what the mail calls its expiry is the length of an interval.
\<close>

theorem mailed_code_opens:
  fixes processor :: "('r, 'm) TaskProcessor"
  assumes "gotp_package (tp_gotp processor)" and "kv_contract vals zs (tp_otpStore processor)"
    and "0 < int_Seconds d" and "d = APILimitDuration (tp_config processor)"
    and "run_task processor \<lparr>task_type = TaskSendVerifyEmail,
      task_payload = marshal_payload \<lparr>psv_Username = pay_Username p\<rparr>, task_options = opts\<rparr> w = (None, w')"
  shows "\<exists>secret otp user t. GetUser (pay_Username p) (pl_db (ws_pool w)) = Inr user \<and>
    tp_mailer processor ''Transfer OTP'' (otp_content otp (int_Seconds d)) [usr_email user] [] (ws_mail w) =
      (None, ws_mail w') \<and>
    vals (ws_kv w') (otp_key (pay_Username p)) = Some secret \<and>
    (\<forall>(c :: ('r, 'q) ctx) s nxt. c_payload c = Some p \<and> otp_of (c_body c) = Some otp \<and>
      kv_Get (tp_otpStore processor) (otp_key (pay_Username p)) (c_kv c) = (Inr secret, s) \<and>
      Unix (fst (time_now (c_env c))) div int_Seconds d = Unix t div int_Seconds d \<longrightarrow>
      verifyOTPMiddleware (tp_gotp processor) (tp_otpStore processor) d nxt c =
        (case nxt (otp_passed s c) of Panicked c3 \<Rightarrow> Panicked c3
         | Done c3 \<Rightarrow> Done (snd (kv_call (kv_Del (tp_otpStore processor) (otp_key (pay_Username p))) c3))))"
proof -
  let ?u = "pay_Username p" and ?g = "tp_gotp processor"
  from task_ok [OF assms(5,4)] obtain secret t user where user: "GetUser ?u (pl_db (ws_pool w)) = Inr user"
    and mail: "tp_mailer processor ''Transfer OTP''
      (otp_content (gt_At ?g secret 6 (int_Seconds d) (Unix t)) (int_Seconds d)) [usr_email user] [] (ws_mail w) =
      (None, ws_mail w')"
    and set: "kv_Set (tp_otpStore processor) (otp_key ?u) secret d (ws_kv w) = (None, ws_kv w')" by blast
  let ?otp = "gt_At ?g secret 6 (int_Seconds d) (Unix t)"
  have "0 < d" using assms(3) by (cases "0 < d") (auto simp: int_Seconds_def go_div_def sgn_if split: if_splits)
  then have stored: "vals (ws_kv w') (otp_key ?u) = Some secret"
    by (rule kv_contract.set_ok [OF assms(2) _ set])
  have opens: "verifyOTPMiddleware ?g (tp_otpStore processor) d nxt c =
        (case nxt (otp_passed s c) of Panicked c3 \<Rightarrow> Panicked c3
         | Done c3 \<Rightarrow> Done (snd (kv_call (kv_Del (tp_otpStore processor) (otp_key ?u)) c3)))"
    if "c_payload c = Some p" "otp_of (c_body c) = Some ?otp"
      "kv_Get (tp_otpStore processor) (otp_key ?u) (c_kv c) = (Inr secret, s)"
      "Unix (fst (time_now (c_env c))) div int_Seconds d = Unix t div int_Seconds d"
    for c :: "('r, 'q) ctx" and s nxt
    using otp_run [OF that(1-3), of ?g d nxt] gotp_package.verify_in_step [OF assms(1,3) that(4) [symmetric]]
    by simp
  show ?thesis
  proof (intro exI conjI allI impI)
    show "GetUser ?u (pl_db (ws_pool w)) = Inr user" by (rule user)
    show "tp_mailer processor ''Transfer OTP'' (otp_content ?otp (int_Seconds d)) [usr_email user] []
      (ws_mail w) = (None, ws_mail w')" by (rule mail)
    show "vals (ws_kv w') (otp_key ?u) = Some secret" by (rule stored)
  qed (elim conjE, rule opens)
qed

definition sample_processor :: "(mem_redis, string list) TaskProcessor" where
  "sample_processor = \<lparr>tp_config = sample_config,
     tp_server = \<lparr>as_redisOpt = \<lparr>ro_Addr = ''redis'', ro_DB = 1\<rparr>, as_Queues = []\<rparr>,
     tp_otpStore = NewRedisStore mem_redis_client, tp_mailer = sample_mail, tp_gotp = step_gotp\<rparr>"

definition sample_worker :: "(mem_redis, string list) worker_state" where
  "sample_worker = \<lparr>ws_pool = sample_pool, ws_kv = sample_kv, ws_mail = [], ws_env = sample_env\<rparr>"

definition alice_task :: task where
  "alice_task = \<lparr>task_type = TaskSendVerifyEmail,
     task_payload = marshal_payload \<lparr>psv_Username = pay_Username alice_payload\<rparr>, task_options = []\<rparr>"

lemma sample_task_run: "\<exists>w'. run_task sample_processor alice_task sample_worker = (None, w')"
proof -
  have user: "exec_auto (select (GetUser ''alice'')) sample_pool = (Inr (sample_user ''alice''), called sample_pool)"
    by (simp add: exec_auto_def select_def GetUser_def sample_defs sample_pool_def fault_of_def called_def)
  have set: "fst (kv_Set (NewRedisStore mem_redis_client) k v d sample_kv) = None" for k v d
    by (rule mem_plan) (simp add: sample_kv_def)
  have "pay_Username alice_payload = ''alice''" by (simp add: alice_payload_def)
  with task_roundtrip [of "\<lparr>psv_Username = ''alice''\<rparr>"] user set show ?thesis
    by (simp add: run_task_def alice_task_def ProcessTaskSendVerifyEmail_def sample_processor_def
        sample_worker_def sample_mail_def split_beta Let_def)
qed

theorem mailed_code_opens_witness:
  "\<exists>w' otp secret. run_task sample_processor alice_task sample_worker = (None, w') \<and>
    ws_mail w' = [otp_content otp 300] \<and> mem_vals (ws_kv w') (otp_key ''alice'') = Some secret"
proof -
  obtain w' where run: "run_task sample_processor alice_task sample_worker = (None, w')"
    using sample_task_run by blast
  have cfg: "tp_gotp sample_processor = step_gotp" "tp_otpStore sample_processor = NewRedisStore mem_redis_client"
    "int_Seconds (APILimitDuration (tp_config sample_processor)) = 300"
    "pay_Username alice_payload = ''alice''" "tp_mailer sample_processor = sample_mail" "ws_mail sample_worker = []"
    by (simp_all add: sample_processor_def sample_config_def int_Seconds_def go_div_def alice_payload_def
        sample_worker_def)
  have "gotp_package (tp_gotp sample_processor)" "kv_contract mem_vals mem_zs (tp_otpStore sample_processor)"
    "0 < int_Seconds (APILimitDuration (tp_config sample_processor))"
    unfolding cfg by (simp_all add: steps.gotp_package_axioms mem.kv_contract_axioms)
  from mailed_code_opens [OF this refl run [unfolded alice_task_def]] have
    "\<exists>secret otp (user :: user). tp_mailer sample_processor ''Transfer OTP'' (otp_content otp
      (int_Seconds (APILimitDuration (tp_config sample_processor)))) [usr_email user] [] (ws_mail sample_worker) =
      (None, ws_mail w') \<and>
    mem_vals (ws_kv w') (otp_key (pay_Username alice_payload)) = Some secret"
    by blast
  with run show ?thesis unfolding cfg by (auto simp: sample_mail_def dest: sym)
qed

text \<open>How the size of a sorted set can change.\<close>

context kv_contract
begin

definition holds_at_most :: "nat \<Rightarrow> string \<Rightarrow> 'r \<Rightarrow> bool" where
  "holds_at_most n k s \<longleftrightarrow> finite (dom (zs s k)) \<and> card (dom (zs s k)) \<le> n"

lemma holds_mono: "zs s' k \<subseteq>\<^sub>m zs s k \<Longrightarrow> holds_at_most n k s \<Longrightarrow> holds_at_most n k s'"
  unfolding holds_at_most_def using map_le_implies_dom_le card_mono finite_subset by (metis le_trans)

lemma holds_fades:
  assumes "fades s s'" and "holds_at_most n k s"
  shows "holds_at_most n k s'"
  using fadesD(2) [OF assms(1), of k] assms(2) by (auto simp: zs_fades_def holds_at_most_def)

lemma holds_zrem: "holds_at_most n k s \<Longrightarrow>
    holds_at_most n k (snd (kv_ZRemRangeByScore kv k ''0'' (show_int w) s))"
  using zrem_any holds_mono by (metis prod.collapse)

lemma holds_zadd: "holds_at_most n k s \<Longrightarrow> holds_at_most (Suc n) k (snd (kv_ZAdd kv k [z] s))"
proof -
  assume h: "holds_at_most n k s"
  obtain r s' where a: "kv_ZAdd kv k [z] s = (r, s')" by fastforce
  have "card (insert (z_member z) (dom (zs s k))) \<le> Suc n"
    using h card_insert_le_m1 [of "Suc n" "dom (zs s k)" "z_member z"] by (simp add: holds_at_most_def)
  with zadd_any [OF a] h a show ?thesis
    by (auto simp: holds_at_most_def zs_fades_def)
qed

lemma holds_reads:
  "holds_at_most n k s \<Longrightarrow> holds_at_most n k (snd (kv_ZCard kv j s))"
  "holds_at_most n k s \<Longrightarrow> holds_at_most n k (snd (kv_ZRange kv j 0 0 s))"
  "0 < d \<Longrightarrow> holds_at_most n k s \<Longrightarrow> holds_at_most n k (snd (kv_Expire kv j d s))"
  using holds_fades zcard_any zrange_any expire_any by (metis prod.collapse)+

text \<open>The window before the count, and after a request was admitted.\<close>

lemma holds_counted:
  "holds_at_most n k (c_kv c) \<Longrightarrow> holds_at_most n k (snd (kv_ZCard kv k (pruned kv k w c)))"
  unfolding pruned_def by (intro holds_reads holds_zrem)

lemma holds_admitted:
  assumes "holds_at_most n k s" and "0 < d"
  shows "holds_at_most (Suc n) k
    (snd (kv_Expire kv k d (snd (kv_ZAdd kv k [z] (snd (kv_ZRange kv k 0 0 s))))))"
  using assms by (intro holds_reads holds_zadd)

end

text \<open>
  C35. The limiter admits a request exactly when the window, after the requests before its
  start have been dropped, holds no more than \<open>maxRequests\<close>; so it never lets the window grow
  beyond \<open>maxRequests + 1\<close> requests, one more than the limit says.
\<close>

theorem rate_limit_window:
  assumes "kv_contract vals zs kv" and "0 < w" and "c_payload c = Some p" and "0 \<le> n"
    and "key = rate_key (ClientIP c) (pay_Username p) api"
    and "finite (dom (zs (c_kv c) key))" and "int (card (dom (zs (c_kv c) key))) \<le> n + 1"
    and "rateLimitMiddleware rfc api kv n w Done c = Done c'"
  shows "int (card (dom (zs (c_kv c') key))) \<le> n + 1 \<and>
    (case kv_ZCard kv key (pruned kv key w c) of
       (Inl err, s) \<Rightarrow> c_aborted c' \<and> (\<exists>r. c_writes c' = c_writes c @ [(500, r)])
     | (Inr count, s) \<Rightarrow> count = int (card (dom (zs s key))) \<and>
         (if count > n then c_aborted c' \<and> (\<exists>r. c_writes c' = c_writes c @ [(429, r)])
          else limiter_passes c c'))"
proof -
  let ?s1 = "pruned kv key w c"
  let ?s2 = "snd (kv_ZCard kv key ?s1)"
  let ?s3 = "snd (kv_ZRange kv key 0 0 ?s2)"
  note holds = kv_contract.holds_at_most_def [OF assms(1)]
  have h2: "kv_contract.holds_at_most zs (nat (n + 1)) key ?s2"
    by (rule kv_contract.holds_counted [OF assms(1)]) (use assms(4,6,7) in \<open>simp add: holds\<close>)
  then have h3: "kv_contract.holds_at_most zs (nat (n + 1)) key ?s3"
    by (rule kv_contract.holds_reads [OF assms(1)])
  note run = rate_limit_run [OF assms(3), where kv = kv and api = api and w = w and rfc = rfc and n = n
      and nxt = Done, folded assms(5)]
  consider (failed) err s where "kv_ZCard kv key ?s1 = (Inl err, s)"
    | (over) count s where "kv_ZCard kv key ?s1 = (Inr count, s)" "count > n"
    | (under) count s where "kv_ZCard kv key ?s1 = (Inr count, s)" "\<not> count > n"
    by (metis prod.exhaust sum.exhaust)
  then show ?thesis
  proof cases
    case failed
    with run assms(8) h2 assms(4) show ?thesis by (auto simp: holds)
  next
    case (over count s)
    then have count: "count = int (card (dom (zs s key)))"
      using kv_contract.zcard_ok [OF assms(1), of key ?s1 count s] by simp
    from over run assms(8) have refused: "c_aborted c'" "c_kv c' = ?s3"
      "\<exists>r. c_writes c' = c_writes c @ [(429, r)]" by (auto simp: Let_def)
    from h3 assms(4) have "int (card (dom (zs ?s3 key))) \<le> n + 1" by (auto simp: holds)
    with over refused count show ?thesis by simp
  next
    case (under count s)
    then have count: "count = int (card (dom (zs s key)))"
      using kv_contract.zcard_ok [OF assms(1), of key ?s1 count s] by simp
    from under run assms(8) obtain z where pass: "limiter_passes c c'"
      "c_kv c' = snd (kv_Expire kv key w (snd (kv_ZAdd kv key [z] ?s3)))" by (auto simp: Let_def)
    have "kv_contract.holds_at_most zs (nat n) key ?s2" using h2 under count assms(4) by (simp add: holds)
    then have "kv_contract.holds_at_most zs (Suc (nat n)) key (c_kv c')"
      unfolding pass(2) by (rule kv_contract.holds_admitted [OF assms(1) _ assms(2)])
    with under pass(1) count assms(4) show ?thesis by (auto simp: holds)
  qed
qed

theorem rate_limit_window_witness:
  "\<exists>c'. rateLimitMiddleware show_int ''test'' (NewRedisStore mem_redis_client) 0 (300 * 1000000000) Done
      code_ctx = Done c' \<and>
    card (dom (mem_zs (c_kv c') (rate_key (ClientIP code_ctx) ''alice'' ''test''))) \<le> 1"
proof -
  let ?kv = "NewRedisStore mem_redis_client" and ?w = "300 * 1000000000 :: int"
  obtain c' where run: "rateLimitMiddleware show_int ''test'' ?kv 0 ?w Done code_ctx = Done c'"
    using rate_limit_cases [OF mem.kv_contract_axioms _ code_ctx_facts(1), of ?w show_int "''test''" 0 Done]
    by auto
  have none: "mem_zs (c_kv code_ctx) k = Map.empty" for k
    by (simp add: code_ctx_def otp_services_def sample_kv_def mem_zs_def mem_zset_def live_def)
  have name: "pay_Username alice_payload = ''alice''" by (simp add: alice_payload_def)
  have pos: "0 < ?w" "(0::int) \<le> 0" and empty: "finite (dom (mem_zs (c_kv code_ctx) k))"
    "int (card (dom (mem_zs (c_kv code_ctx) k))) \<le> 0 + 1" for k by (simp_all add: none)
  have "int (card (dom (mem_zs (c_kv c') (rate_key (ClientIP code_ctx) (pay_Username alice_payload) ''test'')))) \<le> 0 + 1"
    by (rule conjunct1, rule rate_limit_window,
        rule mem.kv_contract_axioms, rule pos, rule code_ctx_facts, rule pos, rule refl, rule empty, rule empty, rule run)
  then have "card (dom (mem_zs (c_kv c') (rate_key (ClientIP code_ctx) ''alice'' ''test''))) \<le> 1"
    unfolding name by linarith
  with run show ?thesis by blast
qed

end
