(* ===== verification/Process.thy ===== *)
theory Process
  imports Server
begin

section \<open>The process (main.go)\<close>

text \<open>
  First the start of the process, from the settings to the running processor and server:
  every failure that is logged with \<open>log.Fatal\<close> ends the process with its message. Then the
  three goroutines of the wait group as a step relation: the one that serves, and the two
  that shut down the processor and the server when the context is done. The packages the
  start calls (viper, pgxpool, migrate, go-redis, asynq) are parameters over the state
  \<open>'w\<close> of the surroundings; of \<open>net/http\<close> and \<open>errgroup\<close> the documented behaviour is used.
\<close>

subsection \<open>The start\<close>

datatype migrate_error = ErrNoChange | MigrateFailed

record ('r, 'q, 'm, 'w) packages =
  pk_libs :: libs
  pk_paseto :: paseto
  pk_smtp :: "'m smtp"
  pk_viper :: "'w viper"
  pk_pgxpool_New :: "string \<Rightarrow> 'w \<Rightarrow> bool \<times> 'w"
  pk_migrate_New :: "string \<Rightarrow> string \<Rightarrow> 'w \<Rightarrow> bool \<times> 'w"
  pk_migrate_Up :: "string \<Rightarrow> string \<Rightarrow> 'w \<Rightarrow> migrate_error option \<times> 'w"
  pk_ParseURL :: "string \<Rightarrow> RedisClientOpt option"
  pk_redis_NewClient :: "RedisClientOpt \<Rightarrow> 'r redis_client"
  pk_asynq_NewClient :: "RedisClientOpt \<Rightarrow> 'q asynq_client"
  pk_asynq :: "'w asynq_package"

text \<open>How a start can fail: a logged message and exit code 1, or a nil pointer that panics.\<close>

datatype start_error = Fatal string | NilPointer

record ('r, 'q, 'm) started =
  st_processor :: "('r, 'm) TaskProcessor"
  st_server :: "('r, 'q) Server"
  st_http :: "('r, 'q) http_Server"

definition NewRedisTaskDistributor ::
    "('r, 'q, 'm, 'w) packages \<Rightarrow> RedisClientOpt \<Rightarrow> 'q asynq_client" where
  "NewRedisTaskDistributor pk redisOpt = pk_asynq_NewClient pk redisOpt"

definition runDBMigration ::
    "('r, 'q, 'm, 'w) packages \<Rightarrow> string \<Rightarrow> string \<Rightarrow> 'w \<Rightarrow> start_error option \<times> 'w" where
  "runDBMigration pk migrationURL dbSource w =
     (case pk_migrate_New pk migrationURL dbSource w of
        (False, w1) \<Rightarrow> (Some (Fatal ''cannot create new migrate instance''), w1)
      | (True, w1) \<Rightarrow>
          (case pk_migrate_Up pk migrationURL dbSource w1 of
             (Some err, w2) \<Rightarrow>
               if err \<noteq> ErrNoChange then (Some (Fatal ''failed to run migrate up''), w2) else (None, w2)
           | (None, w2) \<Rightarrow> (None, w2)))"

definition runTaskProcessor ::
    "('r, 'q, 'm, 'w) packages \<Rightarrow> Config \<Rightarrow> RedisClientOpt \<Rightarrow> 'r kv_store \<Rightarrow> 'w \<Rightarrow>
      (start_error, ('r, 'm) TaskProcessor) result \<times> 'w" where
  "runTaskProcessor pk conf redisOpt kvStore w =
     (let mailer = SendEmail (pk_smtp pk) (NewGmailSender (EmailSenderName conf)
            (EmailSenderAddress conf) (EmailSenderPassword conf));
          taskProcessor = NewRedisTaskProcessor (lb_gotp (pk_libs pk)) conf redisOpt kvStore mailer
      in case Start (pk_asynq pk) taskProcessor w of
           (False, w1) \<Rightarrow> (Inl (Fatal ''failed to start task processor''), w1)
         | (True, w1) \<Rightarrow> (Inr taskProcessor, w1))"

definition runGinServer ::
    "('r, 'q, 'm, 'w) packages \<Rightarrow> Config \<Rightarrow> 'r kv_store \<Rightarrow> 'q asynq_client \<Rightarrow>
      (start_error, ('r, 'q) Server \<times> ('r, 'q) http_Server) result" where
  "runGinServer pk conf kvStore taskDistributor =
     (case NewServer (pk_libs pk) (pk_paseto pk) conf kvStore taskDistributor of
        Inl err \<Rightarrow> Inl (Fatal ''cannot create server'')
      | Inr server \<Rightarrow> Inr (server, New server (HTTPServerAddress conf)))"

definition main ::
    "('r, 'q, 'm, 'w) packages \<Rightarrow> 'w \<Rightarrow> (start_error, ('r, 'q, 'm) started) result \<times> 'w" where
  "main pk w =
     (case LoadConfig (pk_viper pk) ''.'' w of
        (Inl err, w1) \<Rightarrow> (Inl (Fatal ''cannot load config''), w1)
      | (Inr conf, w1) \<Rightarrow>
     (case pk_pgxpool_New pk (DBSource conf) w1 of
        (False, w2) \<Rightarrow> (Inl (Fatal ''cannot connect to db''), w2)
      | (True, w2) \<Rightarrow>
     (case runDBMigration pk (MigrationURL conf) (DBSource conf) w2 of
        (Some err, w3) \<Rightarrow> (Inl err, w3)
      | (None, w3) \<Rightarrow>
     (case pk_ParseURL pk (RedisURL conf) of
        None \<Rightarrow> (Inl NilPointer, w3)
      | Some connOpts \<Rightarrow>
     (let kvStore = NewRedisStore (pk_redis_NewClient pk (connOpts\<lparr>ro_DB := 0\<rparr>));
          redisOpt = \<lparr>ro_Addr = ro_Addr connOpts, ro_DB = 1\<rparr>;
          taskDistributor = NewRedisTaskDistributor pk redisOpt
      in
     (case runTaskProcessor pk conf redisOpt kvStore w3 of
        (Inl err, w4) \<Rightarrow> (Inl err, w4)
      | (Inr processor, w4) \<Rightarrow>
     (case runGinServer pk conf kvStore taskDistributor of
        Inl err \<Rightarrow> (Inl err, w4)
      | Inr (server, httpServer) \<Rightarrow>
          (Inr \<lparr>st_processor = processor, st_server = server, st_http = httpServer\<rparr>, w4))))))))"

subsection \<open>The goroutines of the wait group\<close>

datatype http_error = ErrServerClosed | ServeFailed string

text \<open>What the serving goroutine returns: closing the server is no error.\<close>

definition serve_result :: "http_error \<Rightarrow> http_error option" where
  "serve_result err = (if err = ErrServerClosed then None else Some err)"

datatype goroutine = Waiting | Working | Returned "http_error option"

text \<open>
  \<open>pr_shutdown\<close> waits for the context and then shuts down the processor, \<open>pr_serve\<close> serves,
  \<open>pr_close\<close> waits for the context and then shuts down the server. \<open>pr_cancelled\<close> is the
  context of the group, \<open>pr_error\<close> the group's first error, \<open>pr_active\<close> the number of
  requests in progress, and \<open>pr_exit\<close> what \<open>Wait\<close> returned.
\<close>

record process =
  pr_cancelled :: bool
  pr_shutdown :: goroutine
  pr_serve :: goroutine
  pr_close :: goroutine
  pr_error :: "http_error option"
  pr_active :: nat
  pr_exit :: "http_error option option"

text \<open>The signal may have come during the start already.\<close>

definition process_init :: "bool \<Rightarrow> process" where
  "process_init signalled = \<lparr>pr_cancelled = signalled, pr_shutdown = Waiting, pr_serve = Working,
     pr_close = Waiting, pr_error = None, pr_active = 0, pr_exit = None\<rparr>"

text \<open>\<open>errgroup\<close>: the first error is kept and cancels the context.\<close>

definition group_return :: "http_error option \<Rightarrow> process \<Rightarrow> process" where
  "group_return err s = (case err of None \<Rightarrow> s
     | Some e \<Rightarrow> s\<lparr>pr_error := (case pr_error s of None \<Rightarrow> Some e | Some e0 \<Rightarrow> Some e0),
                   pr_cancelled := True\<rparr>)"

text \<open>
  Requests come in until the server is shut down, also on connections that outlive the
  listener. \<open>http.Server.Shutdown\<close> stops that at once, waits for the requests in progress
  and then returns the error of closing the listener, if there is one.
\<close>

definition accepting :: "process \<Rightarrow> bool" where
  "accepting s \<longleftrightarrow> pr_close s = Waiting"

definition returned :: "goroutine \<Rightarrow> bool" where
  "returned g = (case g of Returned _ \<Rightarrow> True | _ \<Rightarrow> False)"

inductive process_step :: "process \<Rightarrow> process \<Rightarrow> bool" where
  interrupt: "\<not> pr_cancelled s \<Longrightarrow> pr_exit s = None \<Longrightarrow> process_step s (s\<lparr>pr_cancelled := True\<rparr>)"
| arrive: "accepting s \<Longrightarrow> process_step s (s\<lparr>pr_active := Suc (pr_active s)\<rparr>)"
| answer: "pr_active s = Suc n \<Longrightarrow> pr_exit s = None \<Longrightarrow> process_step s (s\<lparr>pr_active := n\<rparr>)"
| serve_fails: "pr_serve s = Working \<Longrightarrow> err \<noteq> ErrServerClosed \<Longrightarrow>
    process_step s (group_return (serve_result err) (s\<lparr>pr_serve := Returned (serve_result err)\<rparr>))"
| serve_closed: "pr_serve s = Working \<Longrightarrow> pr_close s \<noteq> Waiting \<Longrightarrow> process_step s
    (group_return (serve_result ErrServerClosed) (s\<lparr>pr_serve := Returned (serve_result ErrServerClosed)\<rparr>))"
| shutdown_begins: "pr_cancelled s \<Longrightarrow> pr_shutdown s = Waiting \<Longrightarrow>
    process_step s (s\<lparr>pr_shutdown := Working\<rparr>)"
| shutdown_ends: "pr_shutdown s = Working \<Longrightarrow>
    process_step s (s\<lparr>pr_shutdown := Returned None\<rparr>)"
| close_begins: "pr_cancelled s \<Longrightarrow> pr_close s = Waiting \<Longrightarrow> process_step s (s\<lparr>pr_close := Working\<rparr>)"
| close_ends: "pr_close s = Working \<Longrightarrow> pr_active s = 0 \<Longrightarrow>
    process_step s (s\<lparr>pr_close := Returned None\<rparr>)"
| close_fails: "pr_close s = Working \<Longrightarrow> pr_active s = 0 \<Longrightarrow>
    process_step s (group_return (Some e) (s\<lparr>pr_close := Returned (Some e)\<rparr>))"
| wait_ends: "returned (pr_shutdown s) \<Longrightarrow> returned (pr_serve s) \<Longrightarrow> returned (pr_close s) \<Longrightarrow>
    pr_exit s = None \<Longrightarrow> process_step s (s\<lparr>pr_exit := Some (pr_error s)\<rparr>)"

inductive_cases process_stepE: "process_step s s'"

text \<open>The exit code: an error of the group is fatal.\<close>

definition exit_code :: "process \<Rightarrow> int option" where
  "exit_code s = map_option (\<lambda>err. if err = None then 0 else 1) (pr_exit s)"

abbreviation process_steps :: "process \<Rightarrow> process \<Rightarrow> bool" where
  "process_steps \<equiv> process_step\<^sup>*\<^sup>*"

subsection \<open>What every reachable state has\<close>

definition process_ok :: "process \<Rightarrow> bool" where
  "process_ok s \<longleftrightarrow>
     (pr_shutdown s \<noteq> Waiting \<longrightarrow> pr_cancelled s) \<and> (pr_close s \<noteq> Waiting \<longrightarrow> pr_cancelled s) \<and>
     pr_serve s \<noteq> Waiting \<and> (pr_serve s = Returned None \<longrightarrow> pr_close s \<noteq> Waiting) \<and>
     (\<forall>e. pr_serve s = Returned (Some e) \<or> pr_close s = Returned (Some e) \<longrightarrow>
        pr_error s \<noteq> None \<and> pr_cancelled s) \<and>
     (\<forall>e. pr_error s = Some e \<longrightarrow> pr_serve s = Returned (Some e) \<or> pr_close s = Returned (Some e)) \<and>
     (returned (pr_close s) \<longrightarrow> pr_active s = 0) \<and>
     (\<forall>e. pr_exit s = Some e \<longrightarrow> e = pr_error s \<and> returned (pr_shutdown s) \<and>
        returned (pr_serve s) \<and> returned (pr_close s))"

lemmas process_defs = process_ok_def group_return_def serve_result_def accepting_def returned_def

lemma process_init_ok: "process_ok (process_init b)"
  by (simp add: process_ok_def process_init_def returned_def)

lemma process_step_ok: "process_step s s' \<Longrightarrow> process_ok s \<Longrightarrow> process_ok s'"
  by (induction rule: process_step.induct)
    (auto simp: process_defs split: option.splits goroutine.splits)

lemma process_steps_ok: "process_steps (process_init b) s \<Longrightarrow> process_ok s"
  by (induction rule: rtranclp_induct) (auto intro: process_init_ok process_step_ok)

subsection \<open>The work that is left\<close>

fun goroutine_work :: "goroutine \<Rightarrow> nat" where
  "goroutine_work Waiting = 2"
| "goroutine_work Working = 1"
| "goroutine_work (Returned _) = 0"

definition process_work :: "process \<Rightarrow> nat" where
  "process_work s = (if pr_cancelled s then 0 else 1) + goroutine_work (pr_shutdown s) +
     goroutine_work (pr_serve s) + goroutine_work (pr_close s) + pr_active s +
     (if pr_exit s = None then 1 else 0)"

text \<open>Once no request is accepted any more, every step is progress.\<close>

lemma process_step_work:
  "process_step s s' \<Longrightarrow> \<not> accepting s \<Longrightarrow> process_work s' < process_work s \<and> \<not> accepting s'"
  by (induction rule: process_step.induct)
    (auto simp: process_work_def process_defs split: option.splits goroutine.splits)

lemma process_work_bounds:
  assumes "(process_step ^^ n) s s'" and "\<not> accepting s"
  shows "n + process_work s' \<le> process_work s"
  using assms
proof (induction n arbitrary: s)
  case (Suc n)
  then obtain t where "process_step s t" "(process_step ^^ n) t s'" by (meson relpowp_Suc_D2)
  with Suc.IH [of t] process_step_work [of s t] Suc.prems(2) show ?case by simp
qed simp

text \<open>A process that cannot step has ended.\<close>

lemma process_stuck:
  assumes "process_ok s" and "\<And>s'. \<not> process_step s s'"
  shows "pr_exit s \<noteq> None"
proof
  assume alive: "pr_exit s = None"
  have cancelled: "pr_cancelled s" using assms(2) interrupt alive by blast
  have sd: "returned (pr_shutdown s)"
    using assms(2) shutdown_begins [OF cancelled] shutdown_ends
    by (cases "pr_shutdown s") (auto simp: returned_def)
  have "pr_active s = 0" using assms(2) answer alive by (cases "pr_active s") blast+
  then have cl: "returned (pr_close s)"
    using assms(2) close_begins [OF cancelled] close_ends
    by (cases "pr_close s") (auto simp: returned_def)
  then have "pr_close s \<noteq> Waiting" by (auto simp: returned_def)
  then have "returned (pr_serve s)"
    using assms(1,2) serve_closed by (cases "pr_serve s") (auto simp: returned_def process_ok_def)
  with wait_ends [OF sd _ cl alive] assms(2) show False by blast
qed

end
