(* ===== verification/Process_Claims.thy ===== *)
theory Process_Claims
  imports Process System Api_Samples
begin

section \<open>The process starts and ends in order\<close>

text \<open>
  What a start leaves running is the server and the worker the other theories are about, so
  their invariants hold in every state of the process; and once the server is being shut
  down the process ends, after the last request.
\<close>

subsection \<open>A bank that starts empty\<close>

lemma fresh_runs:
  assumes "validator_package (lb_validator (sv_libs server))"
    and "system_steps server mail x y" and "system_db x = empty_db"
  shows "bank_ok (system_db y) \<and> providers_ok (system_db y)"
proof -
  let ?R = "\<lambda>d d'. (bank_ok d \<longrightarrow> bank_ok d') \<and> (providers_ok d \<longrightarrow> providers_ok d')"
  have lib: "bank_libs (sv_libs server)" using assms(1) by (rule bank_libs.intro)
  have "?R (system_db x) (system_db y)"
    by (rule steps_keep [OF assms(2), of ?R])
      (use bank_libs.handle_ledger [OF lib refl] bank_libs.handle_providers [OF lib refl]
        rates_keep(1,4) in blast)+
  then show ?thesis using assms(3) empty_db_ok by simp
qed

subsection \<open>The start\<close>

definition mailer_of :: "('r, 'q, 'm, 'w) packages \<Rightarrow> Config \<Rightarrow> 'm mailer" where
  "mailer_of pk conf = SendEmail (pk_smtp pk) (NewGmailSender (EmailSenderName conf)
     (EmailSenderAddress conf) (EmailSenderPassword conf))"

lemma runTaskProcessor_Inr:
  "runTaskProcessor pk conf redisOpt kv w = (Inr processor, w') \<Longrightarrow>
    processor = NewRedisTaskProcessor (lb_gotp (pk_libs pk)) conf redisOpt kv (mailer_of pk conf)"
  by (auto simp: runTaskProcessor_def mailer_of_def Let_def split: prod.splits bool.splits)

lemma runGinServer_Inr:
  "runGinServer pk conf kv td = Inr (server, http) \<Longrightarrow>
    length (TokenSymmetricKey conf) = KeySize \<and> http = New server (HTTPServerAddress conf) \<and>
    server = \<lparr>sv_config = conf, sv_tokenMaker = \<lparr>pm_paseto = pk_paseto pk, pm_symmetricKey = TokenSymmetricKey conf\<rparr>,
      sv_kvStore = kv, sv_asynq = td, sv_libs = pk_libs pk\<rparr>"
  by (auto simp: runGinServer_def NewServer_def NewPasetoMaker_def split: sum.splits if_splits)

lemma start_not_nil [simp]:
  "runDBMigration pk u d w \<noteq> (Some NilPointer, w')"
  "runTaskProcessor pk conf redisOpt kv w \<noteq> (Inl NilPointer, w')"
  "runGinServer pk conf kv td \<noteq> Inl NilPointer"
  by (auto simp: runDBMigration_def runTaskProcessor_def runGinServer_def Let_def
      split: prod.split bool.split option.split sum.split)

lemma main_Inr:
  assumes "main pk w = (Inr st, w')"
  shows "\<exists>conf opts w2 w3. fst (LoadConfig (pk_viper pk) ''.'' w) = Inr conf \<and>
    pk_ParseURL pk (RedisURL conf) = Some opts \<and>
    runTaskProcessor pk conf \<lparr>ro_Addr = ro_Addr opts, ro_DB = 1\<rparr>
      (NewRedisStore (pk_redis_NewClient pk (opts\<lparr>ro_DB := 0\<rparr>))) w2 = (Inr (st_processor st), w3) \<and>
    runGinServer pk conf (NewRedisStore (pk_redis_NewClient pk (opts\<lparr>ro_DB := 0\<rparr>)))
      (pk_asynq_NewClient pk \<lparr>ro_Addr = ro_Addr opts, ro_DB = 1\<rparr>) = Inr (st_server st, st_http st)"
  using assms
  by (auto simp: main_def NewRedisTaskDistributor_def Let_def split: prod.splits sum.splits bool.splits option.splits) blast

lemma main_nil:
  assumes "main pk w = (Inl NilPointer, w')"
  shows "\<exists>conf. fst (LoadConfig (pk_viper pk) ''.'' w) = Inr conf \<and> pk_ParseURL pk (RedisURL conf) = None"
  using assms
  by (auto simp: main_def Let_def split: prod.splits sum.splits bool.splits option.splits)


definition sample_packages :: "(mem_redis, task list, nat, nat) packages" where
  "sample_packages = \<lparr>pk_libs = sample_libs, pk_paseto = sealed_paseto,
     pk_smtp = \<lparr>sm_AttachFile = (\<lambda>_. None), sm_Send = (\<lambda>_ _ _ _ m. (True, Suc m))\<rparr>,
     pk_viper = \<lparr>vp_ReadInConfig = (\<lambda>_ _ _ w. (True, w)), vp_Unmarshal = (\<lambda>w. (Some sample_config, w))\<rparr>,
     pk_pgxpool_New = (\<lambda>_ w. (True, w)), pk_migrate_New = (\<lambda>_ _ w. (True, w)),
     pk_migrate_Up = (\<lambda>_ _ w. (Some ErrNoChange, w)),
     pk_ParseURL = (\<lambda>url. if url = ''redis'' then Some \<lparr>ro_Addr = url, ro_DB = 3\<rparr> else None),
     pk_redis_NewClient = (\<lambda>_. mem_redis_client), pk_asynq_NewClient = (\<lambda>_. sample_asynq),
     pk_asynq = \<lparr>aq_Start = (\<lambda>_ _ w. (True, Suc w)), aq_Shutdown = (\<lambda>_ w. w - 1)\<rparr>\<rparr>"


subsection \<open>The end\<close>

lemma exited_stuck: "process_ok s \<Longrightarrow> pr_exit s \<noteq> None \<Longrightarrow> \<not> process_step s s'"
  by (auto elim!: process_stepE simp: process_ok_def returned_def accepting_def split: goroutine.splits)


text \<open>A run: a request is in progress when the signal comes, and is answered.\<close>

definition closing :: process where
  "closing = \<lparr>pr_cancelled = True, pr_shutdown = Returned None, pr_serve = Returned None,
     pr_close = Working, pr_error = None, pr_active = 1, pr_exit = None\<rparr>"

lemma closing_run: "process_steps (process_init False) closing"
proof -
  let ?s = "process_init False"
  let ?s1 = "?s\<lparr>pr_active := Suc (pr_active ?s)\<rparr>"
  let ?s2 = "?s1\<lparr>pr_cancelled := True\<rparr>"
  let ?s3 = "?s2\<lparr>pr_close := Working\<rparr>"
  let ?s4 = "group_return (serve_result ErrServerClosed)
    (?s3\<lparr>pr_serve := Returned (serve_result ErrServerClosed)\<rparr>)"
  let ?s5 = "?s4\<lparr>pr_shutdown := Working\<rparr>"
  have "process_step ?s ?s1" by (rule arrive) (simp add: accepting_def process_init_def)
  also have "process_step\<^sup>*\<^sup>* ?s1 ?s2" by (intro r_into_rtranclp interrupt) (simp_all add: process_init_def)
  also have "process_step ?s2 ?s3" by (rule close_begins) (simp_all add: process_init_def)
  also have "process_step ?s3 ?s4" by (rule serve_closed) (simp_all add: process_init_def)
  also have "process_step ?s4 ?s5"
    by (rule shutdown_begins) (simp_all add: process_init_def group_return_def serve_result_def)
  also have "process_step ?s5 (?s5\<lparr>pr_shutdown := Returned None\<rparr>)" by (rule shutdown_ends) simp
  also have "?s5\<lparr>pr_shutdown := Returned None\<rparr> = closing"
    by (simp add: closing_def process_init_def group_return_def serve_result_def)
  finally show ?thesis .
qed


end
