(* ===== verification/Replies.thy ===== *)
theory Replies
  imports Auth_Claims
begin

section \<open>What the API answers\<close>

text \<open>
  The type of the API's answers and who may see them. \<open>reply_typed\<close> says which status goes
  with which kind of body, \<open>reply_owned\<close> that accounts and profiles are those of the user
  of the request's token. Every handler keeps both, and so does every route.
\<close>

fun reply_typed :: "int \<Rightarrow> reply \<Rightarrow> bool" where
  "reply_typed code (Error err) \<longleftrightarrow> code \<in> {400, 401, 403, 404, 409, 429, 500, 502}"
| "reply_typed code (Violations vs) \<longleftrightarrow> code = 400 \<and> vs \<noteq> []"
| "reply_typed code (Redirected location) \<longleftrightarrow> code = 302 \<or> code = 307"
| "reply_typed code (PlainText s) \<longleftrightarrow> code = 403 \<or> code = 404"
| "reply_typed code Empty \<longleftrightarrow> code = 500"
| "reply_typed code (UserReply u) \<longleftrightarrow> code = 200 \<or> code = 201"
| "reply_typed code _ \<longleftrightarrow> code = 200"

fun reply_owned :: "string option \<Rightarrow> reply \<Rightarrow> bool" where
  "reply_owned user (AccountReply a) \<longleftrightarrow> user = Some (acc_owner a)"
| "reply_owned user (AccountsReply as) \<longleftrightarrow> list_all (\<lambda>a. user = Some (acc_owner a)) as"
| "reply_owned user (GetUserReply g) \<longleftrightarrow> user = Some (gur_Username g) \<and>
     list_all (\<lambda>a. user = Some (acc_owner a)) (gur_Accounts g)"
| "reply_owned _ _ \<longleftrightarrow> True"

lemma reply_owned_None: "reply_owned None r \<Longrightarrow> reply_owned u r"
  by (cases r) (auto simp: list_all_iff)

definition answer_ok :: "string option \<Rightarrow> int \<times> reply \<Rightarrow> bool" where
  "answer_ok user w \<longleftrightarrow> reply_typed (fst w) (snd w) \<and> reply_owned user (snd w)"

lemma answer_ok_error [simp]:
  "answer_ok user (code, Error err) \<longleftrightarrow> code \<in> {400, 401, 403, 404, 409, 429, 500, 502}"
  by (simp add: answer_ok_def)

text \<open>The handlers run with one payload; \<open>user\<close> is the one whose data may be shown.\<close>

definition answers_ok :: "Payload option \<Rightarrow> string option \<Rightarrow> ('r, 'q) ctx \<Rightarrow> bool" where
  "answers_ok p user c \<longleftrightarrow> c_payload c = p \<and> list_all (answer_ok user) (c_writes c)"

lemma answers_ok_JSON [simp]:
  "answers_ok p user (JSON code r c) \<longleftrightarrow> answers_ok p user c \<and> answer_ok user (code, r)"
  by (auto simp: answers_ok_def)

lemma answers_ok_frame:
  "c_payload c' = c_payload c \<Longrightarrow> c_writes c' = c_writes c \<Longrightarrow> answers_ok p user c' = answers_ok p user c"
  by (simp add: answers_ok_def)

abbreviation answers_keep :: "Payload option \<Rightarrow> string option \<Rightarrow> ('r, 'q) ctx \<Rightarrow> ('r, 'q) ctx \<Rightarrow> bool" where
  "answers_keep p user c c' \<equiv> answers_ok p user c \<longrightarrow> answers_ok p user c'"

interpretation answers: chain_rel "answers_keep p user" for p user
  by unfold_locales (auto simp: answers_ok_def answer_ok_def)

abbreviation action_ok :: "Payload option \<Rightarrow> string option \<Rightarrow> ('r, 'q) action \<Rightarrow> bool" where
  "action_ok p user \<equiv> action_in (answers_keep p user)"

abbreviation handler_ok :: "Payload option \<Rightarrow> string option \<Rightarrow> ('r, 'q) handler \<Rightarrow> bool" where
  "handler_ok p user \<equiv> handler_in (answers_keep p user)"

lemma handler_okI:
  "(\<And>next c. action_ok p user next \<Longrightarrow> answers_ok p user c \<Longrightarrow> answers_ok p user (after (h next c))) \<Longrightarrow>
    handler_ok p user h"
  by (rule handler_inI) blast

lemma answers_next: "action_ok p user next \<Longrightarrow> answers_ok p user c \<Longrightarrow> answers_ok p user (after (next c))"
  using action_inD by blast

lemmas plain_ok = plain_in [of "answers_keep p user" for p user]

lemma serve_ok:
  "\<forall>h\<in>set hs. handler_ok p user h \<Longrightarrow> answers_ok p user c \<Longrightarrow> answers_ok p user (serve hs c)"
  using answers.serve_in by blast

subsection \<open>The calls of a handler\<close>

lemma calls_ok [simp]:
  "answers_ok p user (snd (store_call st c)) = answers_ok p user c"
  "answers_ok p user (snd (kv_call f c)) = answers_ok p user c"
  "answers_ok p user (snd (env_call g c)) = answers_ok p user c"
  "answers_ok p user (snd (queue_call h c)) = answers_ok p user c"
  "answers_ok p user (c\<lparr>c_body := b\<rparr>) = answers_ok p user c"
  "answers_ok p user (c\<lparr>c_csrf := t\<rparr>) = answers_ok p user c"
  "answers_ok p user (Header n v c) = answers_ok p user c"
  "answers_ok p user (Abort c) = answers_ok p user c"
  "answers_ok p user (SetCookie n v m pa d s ho c) = answers_ok p user c"
  "answers_ok p user (SetSameSiteLax c) = answers_ok p user c"
  by (rule answers_ok_frame; simp add: frame_simps)+

lemma session_ok [simp]:
  "answers_ok p user (snd (set_session server i u c)) = answers_ok p user c"
  "answers_ok p user (snd (del_session server i c)) = answers_ok p user c"
  "answers_ok p user (set_sid_cookie server i c) = answers_ok p user c"
  "answers_ok p user (set_access_cookie server t c) = answers_ok p user c"
  "answers_ok p user (clear_cookie n c) = answers_ok p user c"
  "answers_ok p user (snd (open_session server u c)) = answers_ok p user c"
  by (simp_all add: set_session_def del_session_def set_sid_cookie_def set_access_cookie_def
      clear_cookie_def open_session_def Let_def split_beta)

lemma validAccount_ok: "answers_ok p user c \<Longrightarrow> answers_ok p user (snd (validAccount i cur c))"
  by (auto simp: validAccount_def errorResponse_def split_beta split: sum.split)

lemma currencyExchange_ok:
  "answers_ok p user c \<Longrightarrow> answers_ok p user (after (snd (currencyExchange oob f t n c)))"
  by (auto simp: currencyExchange_def errorResponse_def split_beta split: sum.split)

lemma new_password_ok [simp]: "answers_ok p user (snd (new_password server req c)) = answers_ok p user c"
  by (auto simp: new_password_def split_beta split: sum.split)

lemma Redirect_ok [simp]:
  "answers_ok p user (Redirect code l c) \<longleftrightarrow> answers_ok p user c \<and> (code = 302 \<or> code = 307)"
  by (auto simp: answers_ok_def Redirect_def answer_ok_def)

subsection \<open>Handlers and middleware\<close>

lemmas handler_ok_simps = action_in_def MustGet_def Let_def split_beta errorResponse_def frame_simps

named_theorems routed_ok \<open>the handlers whose answers are in order\<close>

lemma loginless_ok [routed_ok]:
  "action_ok p user (createUser server)" "action_ok p user (loginUser server)"
  "action_ok p user (renewAccessToken server)" "action_ok p user (logoutUser server)"
  "action_ok p user (googleOAuth server)" "action_ok p user (testGoogleOAuth server)"
  "action_ok p user fetch_csrf" "action_ok p user csrfTokenMiddleware"
  unfolding createUser_def loginUser_def renewAccessToken_def logoutUser_def googleOAuth_def
    testGoogleOAuth_def fetch_csrf_def csrfTokenMiddleware_def
  by (auto simp: handler_ok_simps answer_ok_def
      split: sum.split option.split bool.split attempt.split list.split)

lemma updateUser_ok [routed_ok]: "action_ok p user (updateUser server)"
  unfolding updateUser_def
  by (auto simp: handler_ok_simps answer_ok_def split: sum.split option.split)

lemma sendOTP_ok [routed_ok]: "action_ok p user (sendOTP server)"
  unfolding sendOTP_def by (auto simp: handler_ok_simps answer_ok_def split: option.split)

lemma ListAccounts_owner:
  "fst (exec_auto (select (ListAccounts q)) pool) = Inr as \<Longrightarrow> list_all (\<lambda>a. lap_owner q = acc_owner a) as"
  by (auto dest!: exec_select_Inr simp: ListAccounts_def page_def list_all_iff split: if_splits
      dest!: in_set_takeD in_set_dropD)

lemma GetUser_name:
  "fst (exec_auto (select (GetUser u)) pool) = Inr r \<Longrightarrow> usr_username r = u"
  by (auto dest!: exec_select_Inr simp: GetUser_def dest: row_of_SomeD split: option.splits)

lemma CreateAccount_owner:
  "fst (exec_auto (CreateAccount q) pool) = Inr a \<Longrightarrow> acc_owner a = cap_owner q"
  using exec_auto_InrD [of "CreateAccount q" pool a]
  by (cases "exec_auto (CreateAccount q) pool") (auto simp: CreateAccount_def Let_def split: if_splits)

lemma account_handlers_ok [routed_ok]:
  assumes "user = map_option pay_Username p"
  shows "action_ok p user (createAccount server)" "action_ok p user (getAccount server)"
    "action_ok p user (listAccounts server)" "action_ok p user (getUser server)"
  using assms
  unfolding createAccount_def getAccount_def listAccounts_def getUser_def
  by (auto simp: handler_ok_simps answer_ok_def answers_ok_def profile_account_def list.pred_map comp_def
      dest!: ListAccounts_owner GetUser_name CreateAccount_owner split: sum.split option.split)

lemmas then_ok = store_then [where P = "answers_ok p user" for p user]
  bind_then [where P = "answers_ok p user" for p user] valid_then [where P = "answers_ok p user" for p user]
  exchange_then [where P = "answers_ok p user" for p user]

lemma createTransfer_ok [routed_ok]: "action_ok p user (createTransfer server)"
  unfolding createTransfer_def action_in_def MustGet_def
  by (auto simp: errorResponse_def answer_ok_def intro!: then_ok validAccount_ok currencyExchange_ok
      split: option.split)

lemma rate_limit_ok [routed_ok]: "handler_ok p user (rateLimitMiddleware rfc api kv m w)"
  by (rule handler_okI) (auto simp: rateLimitMiddleware_def rate_headers_def handler_ok_simps
    split: option.split sum.split intro!: answers_next [unfolded action_in_def])

lemma otp_ok [routed_ok]: "handler_ok p user (verifyOTPMiddleware g kv d :: ('r, 'q) handler)"
proof (rule handler_okI)
  fix "next" :: "('r, 'q) action" and c :: "('r, 'q) ctx"
  assume n: "action_ok p user next" and c: "answers_ok p user c"
  have ran: "answers_ok p user (after (case next c' of Panicked c3 \<Rightarrow> Panicked c3
      | Done c3 \<Rightarrow> Done (snd (kv_call f c3))))" if "answers_ok p user c'" for c' and f :: "'r \<Rightarrow> kv_error option \<times> 'r"
    using answers_next [OF n that] by (auto split: outcome.split)
  show "answers_ok p user (after (verifyOTPMiddleware g kv d next c))"
    using c by (auto simp: verifyOTPMiddleware_def MustGet_def Let_def split_beta frame_simps errorResponse_def
        split: option.split sum.split intro!: ran)
qed

subsection \<open>Routes\<close>

definition auth_route_ok :: "('r, 'q) Server \<Rightarrow> ('r, 'q) route \<Rightarrow> bool" where
  "auth_route_ok server rt \<longleftrightarrow> (\<exists>hs. hs \<noteq> [] \<and> rt_handlers rt = auth_chain server @ hs \<and>
     (\<forall>p. list_all (handler_ok (Some p) (Some (pay_Username p))) hs))"

definition open_route_ok :: "('r, 'q) route \<Rightarrow> bool" where
  "open_route_ok rt \<longleftrightarrow> list_all (handler_ok None None) (rt_handlers rt) \<or>
     (\<exists>hs. hs \<noteq> [] \<and> rt_handlers rt = set_test_payload # hs \<and>
        list_all (handler_ok (Some test_payload) None) hs)"

lemma auth_route_okI:
  "hs \<noteq> [] \<Longrightarrow> (\<And>p. list_all (handler_ok (Some p) (Some (pay_Username p))) hs) \<Longrightarrow>
    auth_route_ok server (auth_route server meth path hs)"
  by (auto simp: auth_route_ok_def auth_route_def api_route_def)

lemma open_route_okI:
  "list_all (handler_ok None None) hs \<Longrightarrow> open_route_ok (api_route meth path hs)"
  "hs \<noteq> [] \<Longrightarrow> list_all (handler_ok (Some test_payload) None) hs \<Longrightarrow>
    open_route_ok (api_route meth path (set_test_payload # hs))"
  by (auto simp: open_route_ok_def api_route_def)

lemma routes_ok: "list_all (\<lambda>rt. auth_route_ok server rt \<or> open_route_ok rt) (routes server)"
  unfolding routes_def Let_def
  by (simp add: auth_route_okI open_route_okI plain_ok routed_ok rate_limit_def)

definition csrf_answers :: "('r, 'q) Server \<Rightarrow> bool" where
  "csrf_answers server \<longleftrightarrow> (\<forall>req code r. lb_csrf (sv_libs server) req = Inl (code, r) \<longrightarrow>
     code = 403 \<and> (\<exists>s. r = PlainText s))"

lemma fresh_ok: "c_payload c = None \<Longrightarrow> c_writes c = [] \<Longrightarrow> answers_ok None user c"
  by (simp add: answers_ok_def)

lemma open_route_answers:
  assumes "open_route_ok rt" and "c_payload c = None" and "c_writes c = []" and "\<not> c_aborted c"
  shows "\<exists>p. answers_ok p None (serve (rt_handlers rt) c)"
  using assms(1) unfolding open_route_ok_def
proof
  assume "list_all (handler_ok None None) (rt_handlers rt)"
  then show ?thesis
    using serve_ok [of "rt_handlers rt" None None c] fresh_ok [OF assms(2,3)] by (auto simp: list_all_iff)
next
  assume "\<exists>hs. hs \<noteq> [] \<and> rt_handlers rt = set_test_payload # hs \<and>
      list_all (handler_ok (Some test_payload) None) hs"
  then obtain hs where hs: "hs \<noteq> []" "rt_handlers rt = set_test_payload # hs"
    "\<forall>h\<in>set hs. handler_ok (Some test_payload) None h" by (auto simp: list_all_iff)
  let ?c = "c\<lparr>c_payload := Some test_payload\<rparr>"
  have "run_chain (set_test_payload # hs) c = run_chain hs ?c"
    by (rule chain_through) (use assms(4) hs(1) in \<open>simp_all add: set_test_payload_def\<close>)
  then have "serve (rt_handlers rt) c = serve hs ?c" by (simp add: hs(2) serve_def)
  moreover have "answers_ok (Some test_payload) None (serve hs ?c)"
    by (rule serve_ok [OF hs(3)]) (simp add: answers_ok_def assms(3))
  ultimately show ?thesis by metis
qed

lemma refused_answers:
  assumes "authenticates server c = None" and "c_payload c = None" and "c_writes c = []" and "\<not> c_aborted c"
  shows "answers_ok None None (serve (authMiddleware (sv_tokenMaker server) # hs) c)"
proof -
  obtain c' where r: "refused c c'"
    and run: "authMiddleware (sv_tokenMaker server) (run_chain hs) c = Done c' \<and> c_aborted c' \<or>
      authMiddleware (sv_tokenMaker server) (run_chain hs) c = Panicked c'"
    using auth_refuses [OF assms(1)] by blast
  have "answers_ok None None c'"
    using r assms(2,3) by (force simp: refused_def answers_ok_def list_all_iff answer_ok_def)
  moreover have "run_chain hs c' = Done (c'\<lparr>c_finished := True\<rparr>) \<or> run_chain hs c' = Done c'" if "c_aborted c'"
    using that by (cases hs) auto
  ultimately show ?thesis using run assms(4) by (auto simp: serve_def answers_ok_def answer_ok_def)
qed

lemma auth_route_answers:
  assumes "auth_route_ok server rt" and "csrf_answers server"
    and "c_payload c = None" and "c_writes c = []" and "\<not> c_aborted c" and "\<not> c_finished c"
  shows "\<exists>p user. answers_ok p user (serve (rt_handlers rt) c) \<and>
    (user = None \<or> user = map_option (pay_Username \<circ> fst) (authenticates server c))"
proof -
  from assms(1) obtain hs where hs: "hs \<noteq> []" "rt_handlers rt = auth_chain server @ hs"
    "\<And>p h. h \<in> set hs \<Longrightarrow> handler_ok (Some p) (Some (pay_Username p)) h"
    by (auto simp: auth_route_ok_def list_all_iff)
  show ?thesis
  proof (cases "lb_csrf (sv_libs server) (c_request c)")
    case (Inl a)
    obtain code r where a: "a = (code, r)" by (cases a)
    with Inl assms(2) have "code = 403 \<and> (\<exists>s. r = PlainText s)" by (simp add: csrf_answers_def)
    then have "answer_ok None (code, r)" by (auto simp: answer_ok_def)
    with csrf_refuses [of c server code r hs] Inl a assms have "answers_ok None None (serve (rt_handlers rt) c)"
      by (simp add: hs(2) fresh_ok)
    then show ?thesis by blast
  next
    case (Inr token)
    let ?c = "with_csrf token c"
    have run: "serve (rt_handlers rt) c = serve (authMiddleware (sv_tokenMaker server) # hs) ?c"
      using csrf_chain [OF assms(5,6) Inr, of hs] by (simp add: serve_def hs(2))
    show ?thesis
    proof (cases "authenticates server c")
      case None
      with refused_answers [of server ?c hs] run assms show ?thesis by auto
    next
      case (Some a)
      obtain p e where a: "a = (p, e)" by (cases a)
      have "run_chain (authMiddleware (sv_tokenMaker server) # hs) ?c = run_chain hs (with_payload p e ?c)"
        by (rule chain_through) (use assms(5) hs(1) Some a in \<open>simp_all add: auth_lets_through\<close>)
      then have "serve (rt_handlers rt) c = serve hs (with_payload p e ?c)"
        unfolding run by (simp only: serve_def)
      moreover have "answers_ok (Some p) (Some (pay_Username p)) (serve hs (with_payload p e ?c))"
      proof (rule serve_ok)
        show "answers_ok (Some p) (Some (pay_Username p)) (with_payload p e ?c)"
          by (simp add: with_payload_def answers_ok_def assms(4))
      qed (use hs(3) in blast)
      ultimately show ?thesis using Some a by auto
    qed
  qed
qed

lemma handle_answers:
  assumes "csrf_answers server"
  shows "list_all (answer_ok (map_option (pay_Username \<circ> fst) (authenticates server (new_ctx req s))))
    (c_writes (handle server meth path req s))" (is "list_all (answer_ok ?user) _")
proof (cases "find_route (routes server) meth path")
  case None
  then show ?thesis by (simp add: handle_def answer_ok_def)
next
  case (Some rt)
  let ?c = "new_ctx (bind_params (rt_path rt) path req) s"
  have run: "handle server meth path req s = serve (rt_handlers rt) ?c" using Some by (simp add: handle_def)
  have "auth_route_ok server rt \<or> open_route_ok rt"
    using find_route_Some [OF Some] routes_ok [of server] by (auto simp: list_all_iff)
  then obtain p user where ok: "answers_ok p user (serve (rt_handlers rt) ?c)" "user = None \<or> user = ?user"
    using auth_route_answers [OF _ assms, of rt ?c] open_route_answers [of rt ?c] by force
  have "answer_ok ?user w" if "answer_ok user w" for w
    using that ok(2) reply_owned_None by (auto simp: answer_ok_def)
  with ok(1) show ?thesis by (auto simp: run answers_ok_def list_all_iff)
qed

end
