(* ===== verification/User_Claims.thy ===== *)
theory User_Claims
  imports Replies
begin

section \<open>What users may see and change\<close>

text \<open>
  The answers of all routes and their types, whose accounts they show, and who may change
  a user's row.
\<close>

fun shown_accounts :: "reply \<Rightarrow> account list" where
  "shown_accounts (AccountReply a) = [a]"
| "shown_accounts (AccountsReply as) = as"
| "shown_accounts (GetUserReply g) = gur_Accounts g"
| "shown_accounts _ = []"

lemma owned_shown: "reply_owned user r \<Longrightarrow> a \<in> set (shown_accounts r) \<Longrightarrow> user = Some (acc_owner a)"
  by (cases r) (auto simp: list_all_iff)

text \<open>alice reads her first account.\<close>

definition read_request :: request where
  "read_request = sample_request [] (Some alice_token)"

definition read_reply :: "(mem_redis, task list) ctx" where
  "read_reply = handle sample_server ''GET'' [''api'', ''auth'', ''accounts'', ''1''] read_request sample_services"

lemma read_authenticates:
  "authenticates sample_server (new_ctx read_request sample_services) =
    Some (alice_payload, snd (time_now sample_env))"
proof -
  have "presented (new_ctx read_request sample_services) = Some alice_token"
    by (simp add: presented_def Cookie_def read_request_def sample_request_def)
  moreover have "c_env (new_ctx read_request sample_services) = sample_env"
    by (simp add: sample_services_def)
  ultimately show ?thesis
    using alice_token_verifies [of sample_env]
    by (simp add: authenticates_def sample_server_def sample_env_def time_now_def)
qed

lemma sample_csrf: "csrf_answers sample_server"
  by (simp add: csrf_answers_def sample_libs_def)

lemma read_run:
  "c_writes read_reply = [(200, AccountReply (sample_account 1 ''alice'' 100 ''USD''))]"
proof -
  let ?ps = "[Lit ''api'', Lit ''auth'', Lit ''accounts'', Param ''id'']"
  let ?c = "new_ctx (bind_params ?ps [''api'', ''auth'', ''accounts'', ''1''] read_request) sample_services"
  let ?c1 = "with_payload alice_payload (snd (time_now sample_env)) (with_csrf ''csrf'' ?c)"
  have "read_reply = serve (auth_chain sample_server @ [plain (getAccount sample_server)]) ?c"
    by (simp add: read_reply_def handle_def route_defs)
  moreover have "run_chain (auth_chain sample_server @ [plain (getAccount sample_server)]) ?c =
      run_chain [authMiddleware (sv_tokenMaker sample_server), plain (getAccount sample_server)] (with_csrf ''csrf'' ?c)"
    by (rule csrf_chain) (simp_all add: sample_libs_def)
  moreover have "\<dots> = run_chain [plain (getAccount sample_server)] ?c1"
    by (rule chain_through) (simp_all add: auth_lets_through read_authenticates)
  ultimately have run: "read_reply = serve [plain (getAccount sample_server)] ?c1" by (simp add: serve_def)
  have c1: "rq_params (c_request ?c1) ''id'' = ''1''" "c_pool ?c1 = sample_pool"
    "c_payload ?c1 = Some alice_payload" "c_writes ?c1 = []" "\<not> c_aborted ?c1" "\<not> c_finished ?c1"
    by (simp_all add: with_payload_def bind_params_def sample_services_def)
  have "ParseInt 64 ''1'' = (1, True)" by code_simp
  then have "ShouldBindUri_id plain_validator ?c1 = Some 1"
    by (simp add: ShouldBindUri_id_def c1(1) uri_int64_def getAccountRequest_binding_def plain_validator_def)
  then show ?thesis
    unfolding run using c1
    by (simp add: serve_def plain_def getAccount_def sample_libs_def store_call_def exec_auto_def
        fault_of_def called_def select_def GetAccount_def sample_pool_def sample_defs MustGet_def alice_payload_def)
qed

text \<open>
  The offset of \<open>listAccounts\<close> is computed in 32 bits: a late page is refused by the database
  with an error of the server, and a later one is the first page again.
\<close>

lemma page_offset_wraps:
  "ListAccounts \<lparr>lap_owner = u, lap_limit = 8, lap_offset = page_offset 268435457 8\<rparr> d = Inl InvalidOffset"
  "page_offset 536870913 8 = page_offset 1 8"
proof -
  have "page_offset 268435457 8 = - 2147483648" "page_offset 536870913 8 = page_offset 1 8" by code_simp+
  then show "ListAccounts \<lparr>lap_owner = u, lap_limit = 8, lap_offset = page_offset 268435457 8\<rparr> d = Inl InvalidOffset"
    "page_offset 536870913 8 = page_offset 1 8"
    by (simp_all add: ListAccounts_def page_def)
qed

text \<open>
  C38. Nobody sees another user's account: every account in an answer to a request on any
  route, alone, in a list or in a profile, belongs to the user of the valid token the
  request carried. (The answer to a transfer is the exception: it shows both accounts,
  with the receiver's new balance.)
\<close>

theorem replies_private:
  assumes "csrf_answers server"
    and "(code, r) \<in> set (c_writes (handle server meth path req s))" and "a \<in> set (shown_accounts r)"
  shows "\<exists>p e. authenticates server (new_ctx req s) = Some (p, e) \<and> acc_owner a = pay_Username p"
proof -
  have "reply_owned (map_option (pay_Username \<circ> fst) (authenticates server (new_ctx req s))) r"
    using handle_answers [OF assms(1), of req s meth path] assms(2) by (auto simp: list_all_iff answer_ok_def)
  then show ?thesis using assms(3) owned_shown by fastforce
qed

theorem replies_private_witness:
  "\<exists>p e. authenticates sample_server (new_ctx read_request sample_services) = Some (p, e) \<and>
    pay_Username p = ''alice'' \<and> map fst (c_writes read_reply) = [200]"
proof -
  have "(200, AccountReply (sample_account 1 ''alice'' 100 ''USD'')) \<in> set (c_writes read_reply)"
    by (simp add: read_run)
  from replies_private [OF sample_csrf this [unfolded read_reply_def], of "sample_account 1 ''alice'' 100 ''USD''"]
  show ?thesis by (auto simp: sample_account_def read_run)
qed



text \<open>
  A Google user is known by the display name: a second person of the same name gets the
  row, and so the accounts, of the first, which then shows the second one's address.
\<close>

lemma google_same_name:
  assumes "UpsertUser (google_user_params g1) d = (Inr u1, d1)" and "gu_Name g2 = gu_Name g1"
    and "gu_Email g2 \<notin> usr_email ` set (users d1)"
  shows "\<exists>u2 d2. UpsertUser (google_user_params g2) d1 = (Inr u2, d2) \<and>
    usr_username u2 = usr_username u1 \<and> usr_email u2 = gu_Email g2 \<and> accounts d2 = accounts d"
proof -
  have name: "up_username (google_user_params g2) = up_username (google_user_params g1)"
    using assms(2) by (simp add: google_user_params_def)
  have u1: "usr_username u1 = up_username (google_user_params g1) \<and>
      usr_username u1 \<in> usr_username ` set (users d1) \<and> accounts d1 = accounts d"
    using assms(1)
    by (auto simp: UpsertUser_def new_user_def excluded_row_def image_upd_rows
        dest!: row_of_SomeD split: option.splits if_splits) (metis imageI)
  then obtain r where r: "user_row (up_username (google_user_params g2)) d1 = Some r"
    using name row_of_present by (metis option.exhaust)
  moreover have "\<not> (\<exists>v\<in>set (users d1). usr_email v = up_email (google_user_params g2))"
    using assms(3) by (simp add: google_user_params_def) (metis imageI)
  ultimately show ?thesis
    using u1 name row_of_SomeD [OF r]
    by (auto simp: UpsertUser_def excluded_row_def) (simp add: google_user_params_def)
qed

subsection \<open>The update of a user\<close>

lemma exec_auto_change:
  "pl_db (snd (exec_auto st p)) \<noteq> pl_db p \<Longrightarrow> pl_db (snd (exec_auto st p)) = snd (st (pl_db p))"
  by (auto simp: exec_auto_def split_beta split: fault.splits)

lemma UpdateUser_change:
  "snd (UpdateUser q d) \<noteq> d \<Longrightarrow>
    snd (UpdateUser q d) = d\<lparr>users := upd_rows usr_username (uup_username q) (update_row q) (users d)\<rparr>"
  by (auto simp: UpdateUser_def split: option.splits if_splits)

text \<open>The hash and the time of a change of password, and the row that is written.\<close>

definition hashed_for :: "bcrypt \<Rightarrow> UpdateUserRequest \<Rightarrow> UpdateUserParams \<Rightarrow> bool" where
  "hashed_for bc req q \<longleftrightarrow> (case uur_Password req of
       None \<Rightarrow> uup_hashed_password q = None \<and> uup_password_changed_at q = None
     | Some pw \<Rightarrow> \<exists>h t e e'. HashPassword bc pw e = (Inr h, e') \<and>
         uup_hashed_password q = Some h \<and> uup_password_changed_at q = Some t)"

definition update_params :: "UpdateUserRequest \<Rightarrow> (string \<times> int) option \<Rightarrow> UpdateUserParams" where
  "update_params req pw = \<lparr>uup_hashed_password = map_option fst pw, uup_password_changed_at = map_option snd pw,
     uup_full_name = pg_text (GetFullName (Some req)) (uur_FullName req \<noteq> None),
     uup_email = pg_text (GetEmail (Some req)) (uur_Email req \<noteq> None),
     uup_username = GetUsername (Some req)\<rparr>"

lemma update_params_simps [simp]:
  "uup_full_name (update_params req pw) = uur_FullName req" "uup_email (update_params req pw) = uur_Email req"
  "uup_username (update_params req pw) = uur_Username req"
  by (auto simp: update_params_def pg_text_def GetFullName_def GetEmail_def GetUsername_def split: option.split)

lemma new_password_hashed:
  "fst (new_password server req c) = Inr pw \<Longrightarrow> hashed_for (lb_bcrypt (sv_libs server)) req (update_params req pw)"
  by (auto simp: new_password_def hashed_for_def update_params_def GetPassword_def split_beta frame_simps
      split: option.splits sum.splits if_splits) (metis prod.collapse)

lemma new_password_db: "db_of (snd (new_password server req c)) = db_of c"
  by (auto simp: new_password_def split_beta frame_simps split: sum.split)

lemma updateUser_answer:
  "db_of (after (case store_call (exec_auto st) c of
      (Inl err, c3) \<Rightarrow> if err = ErrRecordNotFound then Done (JSON 404 (f err) c3) else Done (JSON 500 (g err) c3)
    | (Inr u, c3) \<Rightarrow> Done (JSON 200 (h u) c3))) = pl_db (snd (exec_auto st (c_pool c)))"
  by (auto simp: split_beta frame_simps split: sum.split)

lemma updateUser_change:
  assumes "db_of (after (updateUser server c)) \<noteq> db_of c"
  shows "\<exists>p req pw c2. c_payload c = Some p \<and>
    fst (ShouldBindJSON UpdateUserRequest_fields (UpdateUserRequest_binding (lb_validator (sv_libs server))) c) = Inr req \<and>
    (pay_Role p = BankerRole \<or> pay_Role p = DepositorRole \<and> pay_Username p = uur_Username req) \<and>
    validateUpdateUserRequest (lb_ParseAddress (sv_libs server)) req = [] \<and>
    fst (new_password server req c2) = Inr pw \<and>
    db_of (after (updateUser server c)) = snd (UpdateUser (update_params req pw) (db_of c))"
proof -
  let ?bind = "ShouldBindJSON UpdateUserRequest_fields (UpdateUserRequest_binding (lb_validator (sv_libs server))) c"
  note run = updateUser_def MustGet_def Let_def errorResponse_def
  from assms obtain p where p: "c_payload c = Some p" by (cases "c_payload c") (auto simp: run)
  from assms p have role: "pay_Role p = BankerRole \<or> pay_Role p = DepositorRole"
    by (auto simp: run split: if_splits)
  obtain req where req: "?bind = (Inr req, c\<lparr>c_body := NoBody\<rparr>)"
  proof (cases "fst ?bind")
    case (Inl err)
    then have "?bind = (Inl err, c\<lparr>c_body := NoBody\<rparr>)" by (metis bind_frame(1) prod.collapse)
    with assms p role show thesis by (simp add: run split: if_splits)
  next
    case (Inr req)
    then show thesis using that by (metis bind_frame(1) prod.collapse)
  qed
  let ?c1 = "c\<lparr>c_body := NoBody\<rparr>"
  from assms p role req have fields_ok: "validateUpdateUserRequest (lb_ParseAddress (sv_libs server)) req = []"
    by (auto simp: run split: if_splits)
  from assms p role req fields_ok have self: "pay_Role p = BankerRole \<or> pay_Username p = uur_Username req"
    by (auto simp: run GetUsername_def split: if_splits)
  obtain r c2 where new: "new_password server req ?c1 = (r, c2)" by fastforce
  then have c2: "db_of c2 = db_of c" using new_password_db [of server req ?c1] by simp
  from assms p role req fields_ok self new c2 obtain pw where pw: "r = Inr pw"
    by (cases r) (auto simp: run GetUsername_def)
  have "db_of (after (updateUser server c)) = pl_db (snd (exec_auto (UpdateUser (update_params req pw)) (c_pool c2)))"
    using p role req fields_ok self new pw
    by (auto simp: run GetUsername_def updateUser_answer [unfolded split_beta] update_params_def split_beta)
  with assms c2 have "db_of (after (updateUser server c)) = snd (UpdateUser (update_params req pw) (db_of c))"
    using exec_auto_change [of "UpdateUser (update_params req pw)" "c_pool c2"] by simp
  moreover have "fst (new_password server req ?c1) = Inr pw" using new pw by simp
  ultimately show ?thesis
    using p role req fields_ok self by (intro exI [of _ p] exI [of _ req] exI [of _ pw] exI [of _ ?c1]) auto
qed

text \<open>
  C40. Only a banker changes another user: when a request to change a user changes the
  database, it carried the token of a banker or of that user, all its fields passed the
  checks, and the one row with its name has the given values in the given fields, with the
  hash of the new password if there is one, and everything else as it was.
\<close>

theorem update_user_authorised:
  assumes "db_of (after (updateUser server c)) \<noteq> db_of c"
  shows "\<exists>p req q. c_payload c = Some p \<and>
    fst (ShouldBindJSON UpdateUserRequest_fields (UpdateUserRequest_binding (lb_validator (sv_libs server))) c) = Inr req \<and>
    (pay_Role p = BankerRole \<or> pay_Role p = DepositorRole \<and> pay_Username p = uur_Username req) \<and>
    validateUpdateUserRequest (lb_ParseAddress (sv_libs server)) req = [] \<and>
    uup_full_name q = uur_FullName req \<and> uup_email q = uur_Email req \<and>
    hashed_for (lb_bcrypt (sv_libs server)) req q \<and>
    db_of (after (updateUser server c)) =
      (db_of c)\<lparr>users := upd_rows usr_username (uur_Username req) (update_row q) (users (db_of c))\<rparr>"
proof -
  from updateUser_change [OF assms] obtain p req pw c2 where u: "c_payload c = Some p"
    "fst (ShouldBindJSON UpdateUserRequest_fields (UpdateUserRequest_binding (lb_validator (sv_libs server))) c) = Inr req"
    "pay_Role p = BankerRole \<or> pay_Role p = DepositorRole \<and> pay_Username p = uur_Username req"
    "validateUpdateUserRequest (lb_ParseAddress (sv_libs server)) req = []"
    "fst (new_password server req c2) = Inr pw"
    "db_of (after (updateUser server c)) = snd (UpdateUser (update_params req pw) (db_of c))" by blast
  have "db_of (after (updateUser server c)) =
      (db_of c)\<lparr>users := upd_rows usr_username (uur_Username req) (update_row (update_params req pw)) (users (db_of c))\<rparr>"
    using UpdateUser_change [of "update_params req pw" "db_of c"] assms u(6) by simp
  with u(1-4) new_password_hashed [OF u(5)] show ?thesis
    by (intro exI [of _ p] exI [of _ req] exI [of _ "update_params req pw"]) simp
qed

definition rename_body :: "(string \<times> json) list" where
  "rename_body = [(''username'', JString ''alice''), (''full_name'', JString ''Alice Doe'')]"

definition rename_request :: UpdateUserRequest where
  "rename_request = \<lparr>uur_Username = ''alice'', uur_FullName = Some ''Alice Doe'', uur_Email = None, uur_Password = None\<rparr>"

lemma rename_run:
  "map usr_full_name (users (db_of (after (updateUser sample_server (alice_ctx rename_body))))) = [''Alice Doe'', ''bob'']"
proof -
  have "Option.bind (Decode (JsonBody (JObject rename_body))) UpdateUserRequest_fields = Some rename_request"
    "UpdateUserRequest_binding plain_validator rename_request" by code_simp+
  then have bind: "ShouldBindJSON UpdateUserRequest_fields (UpdateUserRequest_binding plain_validator) (alice_ctx rename_body) =
      (Inr rename_request, (alice_ctx rename_body)\<lparr>c_body := NoBody\<rparr>)" by (simp add: ShouldBindJSON_def)
  have valid: "validateUpdateUserRequest (lb_ParseAddress sample_libs) rename_request = []"
    by (simp add: sample_libs_def) code_simp
  have "lb_validator sample_libs = plain_validator" by (simp add: sample_libs_def)
  with bind valid show ?thesis
    by (simp add: updateUser_def MustGet_def alice_payload_def DepositorRole_def BankerRole_def new_password_def
        rename_request_def GetUsername_def GetFullName_def pg_text_def store_call_def exec_auto_def fault_of_def
        called_def UpdateUser_def update_row_def COALESCE_def sample_pool_def sample_defs upd_rows_def)
qed

theorem update_user_authorised_witness:
  "\<exists>q. uup_full_name q = Some ''Alice Doe'' \<and> uup_hashed_password q = None \<and>
    users (db_of (after (updateUser sample_server (alice_ctx rename_body)))) =
      upd_rows usr_username ''alice'' (update_row q) (users sample_db)"
proof -
  have parse: "Option.bind (Decode (JsonBody (JObject rename_body))) UpdateUserRequest_fields = Some rename_request"
    by code_simp
  have "db_of (after (updateUser sample_server (alice_ctx rename_body))) \<noteq> sample_db"
    using rename_run by (auto simp: sample_defs)
  then have "db_of (after (updateUser sample_server (alice_ctx rename_body))) \<noteq> db_of (alice_ctx rename_body)" by simp
  from update_user_authorised [OF this] obtain req q where q: "uup_full_name q = uur_FullName req"
    "hashed_for (lb_bcrypt sample_libs) req q"
    "fst (ShouldBindJSON UpdateUserRequest_fields (UpdateUserRequest_binding (lb_validator sample_libs))
      (alice_ctx rename_body)) = Inr req"
    "db_of (after (updateUser sample_server (alice_ctx rename_body))) =
      sample_db\<lparr>users := upd_rows usr_username (uur_Username req) (update_row q) (users sample_db)\<rparr>" by auto
  from q(3) parse have "req = rename_request" by (simp add: ShouldBindJSON_def split: if_splits)
  with q show ?thesis by (intro exI [of _ q]) (simp add: rename_request_def hashed_for_def)
qed

end
