(* ===== verification/Store_Queries.thy ===== *)
theory Store_Queries
  imports Store_Props
begin

section \<open>The queries behind their interface (db/sqlc/db.go, querier.go, store.go)\<close>

text \<open>
  The store runs the same queries on the pool and inside a transaction: \<open>Queries\<close> works on
  whatever runs a statement. \<open>DBTX\<close> is that, with one field for each type of row the queries
  scan; \<open>Querier\<close> is the interface with a field for each query. \<open>transfer_body\<close> is the
  function \<open>TransferTx\<close> hands to \<open>execTx\<close>, on any \<open>Querier\<close>; the theory Store has it on
  the \<open>Querier\<close> of a transaction.
\<close>

subsection \<open>DBTX and Queries\<close>

type_synonym ('s, 'a) run = "'s \<Rightarrow> (db_error, 'a) result \<times> 's"

record 's DBTX =
  dx_account :: "account stmt \<Rightarrow> ('s, account) run"
  dx_entry :: "entry stmt \<Rightarrow> ('s, entry) run"
  dx_transfer :: "transfer stmt \<Rightarrow> ('s, transfer) run"
  dx_user :: "user stmt \<Rightarrow> ('s, user) run"
  dx_exec :: "unit stmt \<Rightarrow> ('s, unit) run"
  dx_rate :: "f64 stmt \<Rightarrow> ('s, f64) run"
  dx_accounts :: "account list stmt \<Rightarrow> ('s, account list) run"
  dx_entries :: "entry list stmt \<Rightarrow> ('s, entry list) run"
  dx_transfers :: "transfer list stmt \<Rightarrow> ('s, transfer list) run"

record 's Querier =
  q_AddAccountBalance :: "AddAccountBalanceParams \<Rightarrow> ('s, account) run"
  q_CreateAccount :: "CreateAccountParams \<Rightarrow> ('s, account) run"
  q_CreateEntry :: "CreateEntryParams \<Rightarrow> ('s, entry) run"
  q_CreateTransfer :: "CreateTransferParams \<Rightarrow> ('s, transfer) run"
  q_CreateUser :: "CreateUserParams \<Rightarrow> ('s, user) run"
  q_DeleteAccount :: "int \<Rightarrow> ('s, unit) run"
  q_GetAccount :: "int \<Rightarrow> ('s, account) run"
  q_GetAccountForUpdate :: "int \<Rightarrow> ('s, account) run"
  q_GetEntry :: "int \<Rightarrow> ('s, entry) run"
  q_GetExchangeRate :: "string \<Rightarrow> ('s, f64) run"
  q_GetTransfer :: "int \<Rightarrow> ('s, transfer) run"
  q_GetUser :: "string \<Rightarrow> ('s, user) run"
  q_ListAccounts :: "ListAccountsParams \<Rightarrow> ('s, account list) run"
  q_ListEntries :: "ListEntriesParams \<Rightarrow> ('s, entry list) run"
  q_ListTransfers :: "ListTransfersParams \<Rightarrow> ('s, transfer list) run"
  q_UpdateAccount :: "UpdateAccountParams \<Rightarrow> ('s, account) run"
  q_UpdateUser :: "UpdateUserParams \<Rightarrow> ('s, user) run"
  q_UpsertUser :: "UpsertUserParams \<Rightarrow> ('s, user) run"

definition Queries_New :: "'s DBTX \<Rightarrow> 's Querier" where
  "Queries_New db = \<lparr>
     q_AddAccountBalance = (\<lambda>x. dx_account db (AddAccountBalance x)),
     q_CreateAccount = (\<lambda>x. dx_account db (CreateAccount x)),
     q_CreateEntry = (\<lambda>x. dx_entry db (CreateEntry x)),
     q_CreateTransfer = (\<lambda>x. dx_transfer db (CreateTransfer x)),
     q_CreateUser = (\<lambda>x. dx_user db (CreateUser x)),
     q_DeleteAccount = (\<lambda>x. dx_exec db (DeleteAccount x)),
     q_GetAccount = (\<lambda>x. dx_account db (select (GetAccount x))),
     q_GetAccountForUpdate = (\<lambda>x. dx_account db (select (GetAccountForUpdate x))),
     q_GetEntry = (\<lambda>x. dx_entry db (select (GetEntry x))),
     q_GetExchangeRate = (\<lambda>x. dx_rate db (select (GetExchangeRate x))),
     q_GetTransfer = (\<lambda>x. dx_transfer db (select (GetTransfer x))),
     q_GetUser = (\<lambda>x. dx_user db (select (GetUser x))),
     q_ListAccounts = (\<lambda>x. dx_accounts db (select (ListAccounts x))),
     q_ListEntries = (\<lambda>x. dx_entries db (select (ListEntries x))),
     q_ListTransfers = (\<lambda>x. dx_transfers db (select (ListTransfers x))),
     q_UpdateAccount = (\<lambda>x. dx_account db (UpdateAccount x)),
     q_UpdateUser = (\<lambda>x. dx_user db (UpdateUser x)),
     q_UpsertUser = (\<lambda>x. dx_user db (UpsertUser x))\<rparr>"

definition WithTx :: "'s DBTX \<Rightarrow> 'p Querier \<Rightarrow> 's Querier" where
  "WithTx tx q = Queries_New tx"

text \<open>The pool and a transaction run a statement each in its own way.\<close>

definition pool_DBTX :: "pool DBTX" where
  "pool_DBTX = \<lparr>dx_account = exec_auto, dx_entry = exec_auto, dx_transfer = exec_auto, dx_user = exec_auto, dx_exec = exec_auto, dx_rate = exec_auto, dx_accounts = exec_auto, dx_entries = exec_auto, dx_transfers = exec_auto\<rparr>"

definition tx_DBTX :: "tx DBTX" where
  "tx_DBTX = \<lparr>dx_account = tx_exec, dx_entry = tx_exec, dx_transfer = tx_exec, dx_user = tx_exec, dx_exec = tx_exec, dx_rate = tx_exec, dx_accounts = tx_exec, dx_entries = tx_exec, dx_transfers = tx_exec\<rparr>"

subsection \<open>The store\<close>

definition addMoney_q ::
    "'s Querier \<Rightarrow> int \<Rightarrow> int \<Rightarrow> int \<Rightarrow> int \<Rightarrow> ('s, account \<times> account) run" where
  "addMoney_q q accountID amount accountID2 amount2 s =
     (case q_AddAccountBalance q \<lparr>aab_amount = amount, aab_id = accountID\<rparr> s of
        (Inl e, s1) \<Rightarrow> (Inl e, s1)
      | (Inr account1, s1) \<Rightarrow>
          (case q_AddAccountBalance q \<lparr>aab_amount = amount2, aab_id = accountID2\<rparr> s1 of
             (Inl e, s2) \<Rightarrow> (Inl e, s2)
           | (Inr account2, s2) \<Rightarrow> (Inr (account1, account2), s2)))"

definition update_balances_q ::
    "'s Querier \<Rightarrow> TransferTxParams \<Rightarrow> ('s, account \<times> account) run" where
  "update_balances_q q arg s =
     (let f = ttp_from_account_id arg; g = ttp_to_account_id arg;
          debit = wrap64 (- ttp_from_amount arg); credit = ttp_to_amount arg
      in if f < g then addMoney_q q f debit g credit s
         else case addMoney_q q g credit f debit s of
             (Inl e, s') \<Rightarrow> (Inl e, s')
           | (Inr (to_account, from_account), s') \<Rightarrow> (Inr (from_account, to_account), s'))"

definition transfer_body :: "TransferTxParams \<Rightarrow> 's Querier \<Rightarrow> ('s, TransferTxResult) run" where
  "transfer_body arg q s0 =
     (case q_GetAccount q (ttp_from_account_id arg) s0 of (r, s1) \<Rightarrow>
      if balance_or_zero r < ttp_from_amount arg then (Inl ErrInsufficientBalance, s1)
      else case q_CreateTransfer q
             \<lparr>ctp_from_account_id = ttp_from_account_id arg,
              ctp_to_account_id = ttp_to_account_id arg,
              ctp_amount = ttp_from_amount arg\<rparr> s1 of
        (Inl e, s2) \<Rightarrow> (Inl e, s2)
      | (Inr tr, s2) \<Rightarrow>
      (case q_CreateEntry q \<lparr>cep_account_id = ttp_from_account_id arg,
              cep_amount = wrap64 (- ttp_from_amount arg)\<rparr> s2 of
        (Inl e, s3) \<Rightarrow> (Inl e, s3)
      | (Inr fromEntry, s3) \<Rightarrow>
      (case q_CreateEntry q \<lparr>cep_account_id = ttp_to_account_id arg,
              cep_amount = ttp_to_amount arg\<rparr> s3 of
        (Inl e, s4) \<Rightarrow> (Inl e, s4)
      | (Inr toEntry, s4) \<Rightarrow>
      (case update_balances_q q arg s4 of
        (Inl e, s5) \<Rightarrow> (Inl e, s5)
      | (Inr (from_account, to_account), s5) \<Rightarrow>
          (Inr \<lparr>ttr_transfer = tr, ttr_from_account = from_account,
                ttr_to_account = to_account, ttr_from_entry = fromEntry,
                ttr_to_entry = toEntry\<rparr>, s5)))))"

text \<open>\<open>SQLStore\<close> embeds the queries on the pool and adds \<open>TransferTx\<close>.\<close>

record SQLStore =
  ss_Queries :: "pool Querier"
  ss_TransferTx :: "TransferTxParams \<Rightarrow> TransferTxResult op"

definition NewStore :: "pool DBTX \<Rightarrow> SQLStore" where
  "NewStore connPool = \<lparr>ss_Queries = Queries_New connPool,
     ss_TransferTx = (\<lambda>arg. execTx (transfer_body arg (Queries_New tx_DBTX)))\<rparr>"

text \<open>The theory Store has the methods of this store.\<close>

lemmas queries_simps = Queries_New_def pool_DBTX_def tx_DBTX_def

lemma tx_queries:
  "q_GetAccount (Queries_New tx_DBTX) = (\<lambda>i. tx_exec (select (GetAccount i)))"
  "q_CreateTransfer (Queries_New tx_DBTX) = (\<lambda>x. tx_exec (CreateTransfer x))"
  "q_CreateEntry (Queries_New tx_DBTX) = (\<lambda>x. tx_exec (CreateEntry x))"
  "q_AddAccountBalance (Queries_New tx_DBTX) = (\<lambda>x. tx_exec (AddAccountBalance x))"
  by (simp_all add: queries_simps)

lemma addMoney_tx: "addMoney_q (Queries_New tx_DBTX) = addMoney"
  by (intro ext) (simp only: addMoney_q_def addMoney_def tx_queries)

lemma update_balances_tx: "update_balances_q (Queries_New tx_DBTX) = update_balances"
  by (intro ext) (simp only: update_balances_q_def update_balances_def addMoney_tx)

lemma transfer_body_tx: "transfer_body arg (Queries_New tx_DBTX) = transfer_fn arg"
  by (rule ext) (simp only: transfer_body_def transfer_fn_def update_balances_tx tx_queries)

lemma NewStore_methods:
  "ss_TransferTx (NewStore pool_DBTX) = TransferTx"
  "q_GetAccount (ss_Queries (NewStore pool_DBTX)) i = exec_auto (select (GetAccount i))"
  "q_GetUser (ss_Queries (NewStore pool_DBTX)) u = exec_auto (select (GetUser u))"
  "q_CreateAccount (ss_Queries (NewStore pool_DBTX)) ap = exec_auto (CreateAccount ap)"
  "q_ListAccounts (ss_Queries (NewStore pool_DBTX)) lp = exec_auto (select (ListAccounts lp))"
  "q_GetExchangeRate (ss_Queries (NewStore pool_DBTX)) cur = exec_auto (select (GetExchangeRate cur))"
  "q_CreateUser (ss_Queries (NewStore pool_DBTX)) cp = exec_auto (CreateUser cp)"
  "q_UpdateUser (ss_Queries (NewStore pool_DBTX)) wp = exec_auto (UpdateUser wp)"
  "q_UpsertUser (ss_Queries (NewStore pool_DBTX)) up = exec_auto (UpsertUser up)"
  by (simp_all add: NewStore_def transfer_body_tx TransferTx_def [abs_def]) (simp_all add: queries_simps)

subsection \<open>One by one or in a transaction\<close>

text \<open>
  Two runs are alike when from related states they answer the same, and end in states related
  by \<open>R\<close> after an answer and by \<open>E\<close> after an error. Queries that are alike make the whole
  transfer alike; after the read of the balance, whose error is dropped, \<open>R\<close> has to hold.
\<close>

fun ends_alike :: "('s \<Rightarrow> 't \<Rightarrow> bool) \<Rightarrow> ('s \<Rightarrow> 't \<Rightarrow> bool) \<Rightarrow>
    (db_error, 'a) result \<times> 's \<Rightarrow> (db_error, 'a) result \<times> 't \<Rightarrow> bool" where
  "ends_alike R E (Inl e, s) (r, t) \<longleftrightarrow> r = Inl e \<and> E s t"
| "ends_alike R E (Inr x, s) (r, t) \<longleftrightarrow> r = Inr x \<and> R s t"

definition alike :: "('s \<Rightarrow> 't \<Rightarrow> bool) \<Rightarrow> ('s \<Rightarrow> 't \<Rightarrow> bool) \<Rightarrow> ('s, 'a) run \<Rightarrow> ('t, 'a) run \<Rightarrow> bool" where
  "alike R E f g \<longleftrightarrow> (\<forall>s t. R s t \<longrightarrow> ends_alike R E (f s) (g t))"

lemma alikeD: "alike R E f g \<Longrightarrow> R s t \<Longrightarrow> ends_alike R E (f s) (g t)"
  by (simp add: alike_def)

lemma ends_alikeE:
  assumes "ends_alike R E a b"
  obtains (error) e s t where "a = (Inl e, s)" "b = (Inl e, t)" "E s t"
    | (answer) x s t where "a = (Inr x, s)" "b = (Inr x, t)" "R s t"
  using assms by (cases "(R, E, a, b)" rule: ends_alike.cases) auto

text \<open>Sequencing: an error ends the run, an answer is handed on.\<close>

lemma alike_then:
  assumes "alike R E f g" and "\<And>x. alike R E (h x) (k x)"
  shows "alike R E (\<lambda>s. case f s of (Inl e, s') \<Rightarrow> (Inl e, s') | (Inr x, s') \<Rightarrow> h x s')
    (\<lambda>t. case g t of (Inl e, t') \<Rightarrow> (Inl e, t') | (Inr x, t') \<Rightarrow> k x t')"
  unfolding alike_def
proof (intro allI impI)
  fix s t
  assume "R s t"
  with assms(1) have "ends_alike R E (f s) (g t)" by (rule alikeD)
  then show "ends_alike R E (case f s of (Inl e, s') \<Rightarrow> (Inl e, s') | (Inr x, s') \<Rightarrow> h x s')
      (case g t of (Inl e, t') \<Rightarrow> (Inl e, t') | (Inr x, t') \<Rightarrow> k x t')"
    by (cases rule: ends_alikeE) (use assms(2) in \<open>auto simp: alike_def\<close>)
qed

lemma alike_return: "alike R E (\<lambda>s. (Inr x, s)) (\<lambda>t. (Inr x, t))"
  by (simp add: alike_def)

locale querier_sim =
  fixes R E :: "'s \<Rightarrow> 't \<Rightarrow> bool" and q :: "'s Querier" and q' :: "'t Querier"
  assumes sim_balance: "alike R E (q_AddAccountBalance q ap) (q_AddAccountBalance q' ap)"
    and sim_transfer: "alike R E (q_CreateTransfer q tp) (q_CreateTransfer q' tp)"
    and sim_entry: "alike R E (q_CreateEntry q ep) (q_CreateEntry q' ep)"
    and sim_stop: "R s t \<Longrightarrow> E s t"
    and sim_read: "R s t \<Longrightarrow> q_GetAccount q i s = (ra, s') \<Longrightarrow> \<exists>t'. q_GetAccount q' i t = (ra, t') \<and> R s' t'"
begin

lemma addMoney_sim: "alike R E (addMoney_q q i m j n) (addMoney_q q' i m j n)"
  unfolding addMoney_q_def [abs_def]
  by (intro alike_then sim_balance alike_return)

lemma update_balances_sim: "alike R E (update_balances_q q arg) (update_balances_q q' arg)"
proof -
  have swap: "alike R E (\<lambda>s. case addMoney_q q i m j n s of (Inl e, s') \<Rightarrow> (Inl e, s')
      | (Inr (a, b), s') \<Rightarrow> (Inr (b, a), s'))
    (\<lambda>t. case addMoney_q q' i m j n t of (Inl e, t') \<Rightarrow> (Inl e, t') | (Inr (a, b), t') \<Rightarrow> (Inr (b, a), t'))"
    for i m j n
    by (rule alike_then [OF addMoney_sim]) (simp add: alike_return split_beta)
  show ?thesis
    unfolding update_balances_q_def Let_def
    by (cases "ttp_from_account_id arg < ttp_to_account_id arg") (simp_all only: if_True if_False addMoney_sim swap)
qed

lemma transfer_body_sim: "alike R E (transfer_body arg q) (transfer_body arg q')"
  unfolding alike_def
proof (intro allI impI)
  fix s t
  assume R: "R s t"
  let ?rest = "\<lambda>q s. case q_CreateTransfer q
             \<lparr>ctp_from_account_id = ttp_from_account_id arg,
              ctp_to_account_id = ttp_to_account_id arg,
              ctp_amount = ttp_from_amount arg\<rparr> s of
        (Inl e, s2) \<Rightarrow> (Inl e, s2)
      | (Inr tr, s2) \<Rightarrow>
      (case q_CreateEntry q \<lparr>cep_account_id = ttp_from_account_id arg,
              cep_amount = wrap64 (- ttp_from_amount arg)\<rparr> s2 of
        (Inl e, s3) \<Rightarrow> (Inl e, s3)
      | (Inr fromEntry, s3) \<Rightarrow>
      (case q_CreateEntry q \<lparr>cep_account_id = ttp_to_account_id arg,
              cep_amount = ttp_to_amount arg\<rparr> s3 of
        (Inl e, s4) \<Rightarrow> (Inl e, s4)
      | (Inr toEntry, s4) \<Rightarrow>
      (case update_balances_q q arg s4 of
        (Inl e, s5) \<Rightarrow> (Inl e, s5)
      | (Inr (from_account, to_account), s5) \<Rightarrow>
          (Inr \<lparr>ttr_transfer = tr, ttr_from_account = from_account,
                ttr_to_account = to_account, ttr_from_entry = fromEntry,
                ttr_to_entry = toEntry\<rparr>, s5))))"
  have rest: "alike R E (?rest q) (?rest q')"
    by (intro alike_then sim_transfer sim_entry update_balances_sim) (simp add: alike_return split_beta)
  obtain r s1 where f: "q_GetAccount q (ttp_from_account_id arg) s = (r, s1)" by fastforce
  from sim_read [OF R f] obtain t1 where g: "q_GetAccount q' (ttp_from_account_id arg) t = (r, t1)" "R s1 t1"
    by blast
  show "ends_alike R E (transfer_body arg q s) (transfer_body arg q' t)"
    using alikeD [OF rest g(2)] sim_stop [OF g(2)] by (simp add: transfer_body_def f g(1))
qed

end

text \<open>Without faults the pool and an active transaction on its rows answer alike.\<close>

definition pool_tx :: "pool \<Rightarrow> tx \<Rightarrow> bool" where
  "pool_tx p t \<longleftrightarrow> healthy p \<and> healthy (tx_pool t) \<and> tx_status t = Active \<and> tx_db t = pl_db p"

definition tx_alive :: "pool \<Rightarrow> tx \<Rightarrow> bool" where
  "tx_alive p t \<longleftrightarrow> healthy (tx_pool t) \<and> tx_status t \<noteq> Broken"

lemma pool_tx_alike: "alike pool_tx tx_alive (exec_auto st) (tx_exec st)"
  by (auto simp: alike_def pool_tx_def tx_alive_def exec_auto_def tx_exec_def Let_def healthy_def fault_of_def
      split: prod.split sum.split)

lemma pool_tx_read:
  assumes "pool_tx p t" and "exec_auto (select (GetAccount i)) p = (r, p')"
  shows "\<exists>t'. tx_exec (select (GetAccount i)) t = (r, t') \<and> pool_tx p' t'"
  using assms
  by (auto simp: pool_tx_def exec_auto_def tx_exec_def select_def GetAccount_def Let_def healthy_def
      fault_of_def split: option.splits)

interpretation pool_sim: querier_sim pool_tx tx_alive "Queries_New pool_DBTX" "Queries_New tx_DBTX"
  by unfold_locales (simp_all add: queries_simps pool_tx_alike pool_tx_read,
    simp add: pool_tx_def tx_alive_def)

text \<open>
  Without faults \<open>TransferTx\<close> answers what its statements would answer one by one on the
  pool, and when it succeeds it leaves the rows they would; when it fails it leaves
  the rows as they were, where one by one the first statements would stay.
\<close>

theorem transfer_as_statements:
  assumes "healthy p" and "transfer_body arg (ss_Queries (NewStore pool_DBTX)) p = (r, q)"
  shows "\<exists>q'. ss_TransferTx (NewStore pool_DBTX) arg p = (r, q') \<and>
    (case r of Inl e \<Rightarrow> same_rows (pl_db p) (pl_db q') | Inr x \<Rightarrow> pl_db q' = pl_db q)"
proof -
  let ?t = "tx_begin (called p)"
  have "pool_tx p ?t" using assms(1) by (simp add: pool_tx_def healthy_def)
  then have "ends_alike pool_tx tx_alive (transfer_body arg (Queries_New pool_DBTX) p) (transfer_fn arg ?t)"
    using alikeD [OF pool_sim.transfer_body_sim] by (metis transfer_body_tx)
  moreover have "transfer_body arg (Queries_New pool_DBTX) p = (r, q)"
    using assms(2) by (simp add: NewStore_def)
  moreover have "pl_db (tx_pool t) = pl_db p" if "transfer_fn arg ?t = (r', t)" for r' t
    using transfer_fn_same_pool [OF that] by (simp add: same_pool_def)
  ultimately show ?thesis
    using assms(1)
    by (auto elim!: ends_alikeE simp: NewStore_methods TransferTx_def execTx_def tx_rollback_def tx_commit_def
        tx_done_def tx_undone_def roll_back_def same_rows_def pool_tx_def tx_alive_def)
qed

end
