(* ===== verification/Session_Inv.thy ===== *)
theory Session_Inv
  imports Otp_Claims Replies
begin

section \<open>What the key-value store holds\<close>

text \<open>
  Three kinds of strings share the key-value store: the keys of sessions, one-time codes and
  whatever a cookie names. \<open>seeded\<close> says that all of its values come from sessions the
  server opened, under ids it sent as cookies, and from codes of registered users. Every
  handler keeps it, and so does the worker; it is what ties a cookie to a login.
\<close>

subsection \<open>The invariant\<close>

definition user_names :: "db \<Rightarrow> string set" where
  "user_names d = usr_username ` set (users d)"

definition is_id :: "string \<Rightarrow> bool" where
  "is_id i \<longleftrightarrow> length i = 32 \<and> list_all is_hex i"

text \<open>The ids of the sessions whose cookies a response carries.\<close>

definition sid_cookies :: "('r, 'q) ctx \<Rightarrow> string set" where
  "sid_cookies c = {ck_value k |k. k \<in> set (c_cookies c) \<and> ck_name k = ''sid'' \<and> is_id (ck_value k)}"

definition entry_ok :: "string set \<Rightarrow> string set \<Rightarrow> string \<Rightarrow> string \<Rightarrow> bool" where
  "entry_ok N I k v \<longleftrightarrow>
     (\<exists>i\<in>I. is_id i \<and> (k = sid_key i \<and> v \<in> N \<or> k = agent_key i \<or> k = ip_key i \<and> v \<noteq> [])) \<or>
     (\<exists>u\<in>N. k = otp_key u)"

definition seeded :: "('r \<Rightarrow> string \<Rightarrow> string option) \<Rightarrow> string set \<Rightarrow> string set \<Rightarrow> 'r \<Rightarrow> bool" where
  "seeded vals N I s \<longleftrightarrow> (\<forall>k v. vals s k = Some v \<longrightarrow> entry_ok N I k v)"

lemma entry_mono: "entry_ok N I k v \<Longrightarrow> N \<subseteq> N' \<Longrightarrow> I \<subseteq> I' \<Longrightarrow> entry_ok N' I' k v"
  by (auto simp: entry_ok_def)

lemma seeded_mono: "seeded vals N I s \<Longrightarrow> N \<subseteq> N' \<Longrightarrow> I \<subseteq> I' \<Longrightarrow> seeded vals N' I' s"
  unfolding seeded_def by (meson entry_mono)

lemma seededD: "seeded vals N I s \<Longrightarrow> vals s k = Some v \<Longrightarrow> entry_ok N I k v"
  by (simp add: seeded_def)

lemma RandomID_is_id: "is_id (fst (RandomID e))"
  using RandomID_shape [of e] by (simp add: is_id_def list_all_iff)

text \<open>The keys of two ids never meet, not even for a cookie that continues an id.\<close>

lemma id_no_colon: "is_id i \<Longrightarrow> CHR '':'' \<notin> set i"
  by (auto simp: is_id_def list_all_iff is_hex_def is_digit_def)

text \<open>
  A cookie whose session is stored together with the address of the client names an issued
  session: the other keys of the store cannot pass for one.
\<close>

lemma genuine_cookie:
  assumes s: "seeded vals N I s"
    and sid: "vals s (sid_key sID) = Some u" and ip: "vals s (ip_key sID) = Some a"
  shows "sID \<in> I \<and> is_id sID \<and> u \<in> N \<and> a \<noteq> []"
proof -
  have ip_id: "\<exists>i\<in>I. is_id i \<and> (sID @ '':ip'' = i \<or> sID @ '':ip'' = i @ '':user_agent'' \<or> sID = i \<and> a \<noteq> [])"
    using seededD [OF s ip] by (auto simp: entry_ok_def sid_key_def agent_key_def ip_key_def otp_key_def)
  then obtain i where i: "i \<in> I" "is_id i"
    and c: "sID @ '':ip'' = i \<or> sID @ '':ip'' = i @ '':user_agent'' \<or> sID = i \<and> a \<noteq> []" by blast
  have "CHR '':'' \<notin> set i" by (rule id_no_colon [OF i(2)])
  moreover have "sID @ '':ip'' \<noteq> i @ '':user_agent''"
  proof
    assume "sID @ '':ip'' = i @ '':user_agent''"
    then have "last (sID @ '':ip'') = last (i @ '':user_agent'')" by simp
    then show False by simp
  qed
  ultimately have g: "sID = i" "a \<noteq> []" using c by auto
  have "u \<in> N"
    using seededD [OF s sid] id_no_colon [OF i(2)]
    by (auto simp: entry_ok_def sid_key_def agent_key_def ip_key_def otp_key_def g(1))
  with g i show ?thesis by simp
qed

subsection \<open>The calls of a handler\<close>

text \<open>
  \<open>I\<close> holds the ids issued before the request. The address of the client has to be known:
  a session opened without one stores the empty string.
\<close>

definition sess_ok :: "('r \<Rightarrow> string \<Rightarrow> string option) \<Rightarrow> string set \<Rightarrow> ('r, 'q) ctx \<Rightarrow> bool" where
  "sess_ok vals I c \<longleftrightarrow> ClientIP c \<noteq> [] \<and>
     seeded vals (user_names (db_of c)) (I \<union> sid_cookies c) (c_kv c)"

abbreviation sess_keep ::
    "('r \<Rightarrow> string \<Rightarrow> string option) \<Rightarrow> string set \<Rightarrow> ('r, 'q) ctx \<Rightarrow> ('r, 'q) ctx \<Rightarrow> bool" where
  "sess_keep vals I c c' \<equiv> sess_ok vals I c \<longrightarrow> sess_ok vals I c'"

lemma sess_frame:
  "c_request c' = c_request c \<Longrightarrow> c_kv c' = c_kv c \<Longrightarrow> c_pool c' = c_pool c \<Longrightarrow>
    c_cookies c' = c_cookies c \<Longrightarrow> sess_ok vals I c' = sess_ok vals I c"
  by (simp add: sess_ok_def ClientIP_def sid_cookies_def)

lemma sess_mono:
  assumes "sess_ok vals I c" and "c_request c' = c_request c" and "c_kv c' = c_kv c"
    and "user_names (db_of c) \<subseteq> user_names (db_of c')" and "sid_cookies c \<subseteq> sid_cookies c'"
  shows "sess_ok vals I c'"
proof -
  from assms(1) have "seeded vals (user_names (db_of c)) (I \<union> sid_cookies c) (c_kv c)" "ClientIP c \<noteq> []"
    by (simp_all add: sess_ok_def)
  moreover have "seeded vals (user_names (db_of c')) (I \<union> sid_cookies c') (c_kv c)"
    by (rule seeded_mono [OF calculation(1) assms(4)]) (use assms(5) in blast)
  ultimately show ?thesis by (simp add: sess_ok_def ClientIP_def assms(2,3))
qed

lemma sess_calls [simp]:
  "sess_ok vals I (JSON code r c) = sess_ok vals I c"
  "sess_ok vals I (Redirect code l c) = sess_ok vals I c"
  "sess_ok vals I (Abort c) = sess_ok vals I c"
  "sess_ok vals I (AbortWithStatusJSON code r c) = sess_ok vals I c"
  "sess_ok vals I (Header n v c) = sess_ok vals I c"
  "sess_ok vals I (SetSameSiteLax c) = sess_ok vals I c"
  "sess_ok vals I (c\<lparr>c_body := y\<rparr>) = sess_ok vals I c"
  "sess_ok vals I (c\<lparr>c_csrf := t\<rparr>) = sess_ok vals I c"
  "sess_ok vals I (c\<lparr>c_payload := p\<rparr>) = sess_ok vals I c"
  "sess_ok vals I (c\<lparr>c_env := e\<rparr>) = sess_ok vals I c"
  "sess_ok vals I (c\<lparr>c_finished := b\<rparr>) = sess_ok vals I c"
  "sess_ok vals I (snd (env_call g c)) = sess_ok vals I c"
  "sess_ok vals I (snd (queue_call h c)) = sess_ok vals I c"
  by (rule sess_frame; simp add: ctx_call_defs env_call_def queue_call_def split_beta)+

interpretation sessions: chain_rel "sess_keep vals I" for vals I
  by unfold_locales simp_all

lemma sid_cookies_SetCookie:
  "sid_cookies (SetCookie n v m p d s h c) =
     sid_cookies c \<union> (if n = ''sid'' \<and> is_id v then {v} else {})"
  by (force simp: sid_cookies_def SetCookie_def)

lemma sess_SetCookie [simp]: "sess_ok vals I c \<Longrightarrow> sess_ok vals I (SetCookie n v m p d s h c)"
  by (erule sess_mono) (simp_all add: sid_cookies_SetCookie)

lemma sess_cookies [simp]:
  "sess_ok vals I c \<Longrightarrow> sess_ok vals I (set_sid_cookie server i c)"
  "sess_ok vals I c \<Longrightarrow> sess_ok vals I (set_access_cookie server t c)"
  "sess_ok vals I c \<Longrightarrow> sess_ok vals I (clear_cookie n c)"
  by (simp_all add: set_sid_cookie_def set_access_cookie_def clear_cookie_def)

lemma call_ids [simp]:
  "sid_cookies (snd (kv_call f c)) = sid_cookies c" "ClientIP (snd (kv_call f c)) = ClientIP c"
  "sid_cookies (snd (env_call g c)) = sid_cookies c" "ClientIP (snd (env_call g c)) = ClientIP c"
  "sid_cookies (snd (store_call st c)) = sid_cookies c"
  "sid_cookies (JSON code r c) = sid_cookies c" "sid_cookies (c\<lparr>c_finished := b\<rparr>) = sid_cookies c"
  "sid_cookies (set_sid_cookie server i c) = sid_cookies c \<union> (if is_id i then {i} else {})"
  "ClientIP (set_sid_cookie server i c) = ClientIP c"
  by (simp_all add: frame_simps ClientIP_def set_sid_cookie_def sid_cookies_SetCookie)
    (simp_all add: sid_cookies_def frame_simps)

text \<open>No statement of the program removes a user.\<close>

lemma user_names_simps [simp]:
  "user_names (d\<lparr>users := us\<rparr>) = usr_username ` set us"
  by (simp add: user_names_def)

lemma user_names_eq: "users d' = users d \<Longrightarrow> user_names d' = user_names d"
  by (simp add: user_names_def)

lemma upd_rows_names:
  "(\<And>r. usr_username (f r) = usr_username r) \<Longrightarrow>
    usr_username ` set (upd_rows usr_username k f rows) = usr_username ` set rows"
  by (induction rows) auto

lemma stmt_names:
  "user_names d \<subseteq> user_names (snd (select q d))"
  "user_names d \<subseteq> user_names (snd (CreateUser cp d))"
  "user_names d \<subseteq> user_names (snd (UpdateUser wp d))"
  "user_names d \<subseteq> user_names (snd (UpsertUser up d))"
  "user_names d \<subseteq> user_names (snd (CreateAccount ap d))"
  by (auto simp: user_names_def query_defs select_def Let_def update_row_def excluded_row_def
      upd_rows_names split: option.split)

lemma exec_names:
  "user_names (pl_db p) \<subseteq> user_names (snd (st (pl_db p))) \<Longrightarrow>
    user_names (pl_db p) \<subseteq> user_names (pl_db (snd (exec_auto st p)))"
  using exec_auto_keeps [of st p _ _ "\<lambda>d. user_names (pl_db p) \<subseteq> user_names d"]
  by (metis order_refl prod.collapse)

lemma sess_store:
  "user_names (db_of c) \<subseteq> user_names (pl_db (snd (st (c_pool c)))) \<Longrightarrow> sess_ok vals I c \<Longrightarrow>
    sess_ok vals I (snd (store_call st c))"
  using sess_mono [of vals I c "snd (store_call st c)"] by (simp add: frame_simps sid_cookies_def)

lemma sess_statements [simp]:
  "sess_ok vals I c \<Longrightarrow> sess_ok vals I (snd (store_call (exec_auto (select q)) c))"
  "sess_ok vals I c \<Longrightarrow> sess_ok vals I (snd (store_call (exec_auto (CreateUser cp)) c))"
  "sess_ok vals I c \<Longrightarrow> sess_ok vals I (snd (store_call (exec_auto (UpdateUser wp)) c))"
  "sess_ok vals I c \<Longrightarrow> sess_ok vals I (snd (store_call (exec_auto (UpsertUser up)) c))"
  "sess_ok vals I c \<Longrightarrow> sess_ok vals I (snd (store_call (exec_auto (CreateAccount ap)) c))"
  by (rule sess_store, rule exec_names, rule stmt_names, assumption)+

text \<open>
  The commands on the store. \<open>session_server\<close> is a server over a store with the contract;
  the limiter renews the deadline of its keys by its window, which has to be positive.
\<close>

locale session_server = kv_contract vals zs "sv_kvStore server"
  for vals :: "'r \<Rightarrow> string \<Rightarrow> string option"
    and zs :: "'r \<Rightarrow> string \<Rightarrow> string \<Rightarrow> f64 option"
    and server :: "('r, 'q) Server" +
  assumes window: "0 < APILimitDuration (sv_config server)"
begin

abbreviation kept :: "string set \<Rightarrow> ('r, 'q) ctx \<Rightarrow> bool" where
  "kept \<equiv> sess_ok vals"

lemma kept_fade:
  assumes "vals_fade (c_kv c) (snd (f (c_kv c)))" and "kept I c"
  shows "kept I (snd (kv_call f c))"
  using assms by (auto simp: sess_ok_def frame_simps seeded_def vals_fade_def ClientIP_def sid_cookies_def)

lemma exists_fades: "vals_fade s (snd (kv_Exists (sv_kvStore server) k s))"
  using exists_any [of k s] fades_vals by (metis prod.collapse)

lemma kept_reads [simp]:
  "kept I c \<Longrightarrow> kept I (snd (kv_call (kv_ZRemRangeByScore (sv_kvStore server) k ''0'' (show_int w)) c))"
  "kept I c \<Longrightarrow> kept I (snd (kv_call (kv_ZCard (sv_kvStore server) k) c))"
  "kept I c \<Longrightarrow> kept I (snd (kv_call (kv_ZRange (sv_kvStore server) k 0 0) c))"
  "kept I c \<Longrightarrow> kept I (snd (kv_call (kv_ZAdd (sv_kvStore server) k [z]) c))"
  "0 < d \<Longrightarrow> kept I c \<Longrightarrow> kept I (snd (kv_call (kv_Expire (sv_kvStore server) k d) c))"
  "kept I c \<Longrightarrow> kept I (snd (kv_call (kv_Get (sv_kvStore server) k) c))"
  "kept I c \<Longrightarrow> kept I (snd (kv_call (kv_Exists (sv_kvStore server) k) c))"
  "kept I c \<Longrightarrow> kept I (snd (kv_call (kv_Del (sv_kvStore server) k) c))"
  by (rule kept_fade; simp add: snd_fades exists_fades)+

lemma seeded_set:
  assumes "seeded vals N I s" and "entry_ok N I k v"
  shows "seeded vals N I (snd (kv_Set (sv_kvStore server) k v d s))"
proof -
  have "entry_ok N I j x" if "vals (snd (kv_Set (sv_kvStore server) k v d s)) j = Some x" for j x
  proof (cases "vals s j = Some x")
    case True
    then show ?thesis using assms(1) by (simp add: seeded_def)
  next
    case False
    with that set_any [of k v d s] fades_but_Some [of k s _ j] have "j = k \<and> x = v"
      by (metis option.inject val_fades_def option.distinct(1) prod.collapse)
    with assms(2) show ?thesis by simp
  qed
  then show ?thesis by (simp add: seeded_def)
qed

lemma kept_set:
  assumes "kept I c" and "entry_ok (user_names (db_of c)) (I \<union> sid_cookies c) k v"
  shows "kept I (snd (kv_call (kv_Set (sv_kvStore server) k v d) c))"
  using assms seeded_set by (simp add: sess_ok_def frame_simps)

lemma kept_sessions [simp]:
  "kept I c \<Longrightarrow> kept I (snd (del_session server i c))"
  "kept I c \<Longrightarrow> u \<in> user_names (db_of c) \<Longrightarrow> kept I (snd (open_session server u c))"
proof -
  show "kept I c \<Longrightarrow> kept I (snd (del_session server i c))"
    by (simp add: del_session_def Let_def split_beta)
  assume c: "kept I c" and u: "u \<in> user_names (db_of c)"
  let ?i = "fst (RandomID (c_env c))"
  let ?c = "set_sid_cookie server ?i (snd (env_call RandomID c))"
  have i: "is_id ?i" by (rule RandomID_is_id)
  have "kept I ?c" using c by simp
  moreover have "u \<in> user_names (db_of ?c)" "ClientIP ?c \<noteq> []"
    using c u by (simp_all add: frame_simps sess_ok_def)
  ultimately show "kept I (snd (open_session server u c))"
    using i by (auto simp: open_session_def set_session_def Let_def split_beta frame_simps entry_ok_def
        intro!: kept_set)
qed

subsection \<open>Handlers and middleware\<close>

lemma GetUser_registered:
  "fst (exec_auto (select (GetUser u)) p) = Inr r \<Longrightarrow> usr_username r \<in> user_names (pl_db p)"
  by (auto dest!: exec_select_Inr row_of_SomeD simp: GetUser_def user_names_def split: option.splits)

lemma UpsertUser_names: "UpsertUser up d = (Inr r, d') \<Longrightarrow> usr_username r \<in> user_names d'"
  by (auto simp: UpsertUser_def excluded_row_def upd_rows_names new_user_def dest!: row_of_SomeD
      intro!: rev_image_eqI split: option.splits if_splits)

lemma UpsertUser_registered:
  "fst (exec_auto (UpsertUser up) p) = Inr r \<Longrightarrow>
    usr_username r \<in> user_names (pl_db (snd (exec_auto (UpsertUser up) p)))"
  using exec_auto_InrD [of "UpsertUser up" p r] UpsertUser_names [of up "pl_db p" r]
  by (cases "exec_auto (UpsertUser up) p") auto

abbreviation action_live :: "string set \<Rightarrow> ('r, 'q) action \<Rightarrow> bool" where
  "action_live I \<equiv> action_in (sess_keep vals I)"

abbreviation handler_live :: "string set \<Rightarrow> ('r, 'q) handler \<Rightarrow> bool" where
  "handler_live I \<equiv> handler_in (sess_keep vals I)"

lemma sessionless_live:
  "action_live I (createUser server)" "action_live I (testGoogleOAuth server)"
  "action_live I fetch_csrf" "action_live I csrfTokenMiddleware" "action_live I (sendOTP server)"
  "action_live I (createAccount server)" "action_live I (getAccount server)"
  "action_live I (listAccounts server)" "action_live I (getUser server)"
  unfolding createUser_def testGoogleOAuth_def fetch_csrf_def csrfTokenMiddleware_def sendOTP_def
    createAccount_def getAccount_def listAccounts_def getUser_def
  by (auto simp: handler_ok_simps split: sum.split option.split)

lemma updateUser_live: "action_live I (updateUser server)"
  unfolding updateUser_def new_password_def
  by (auto simp: handler_ok_simps split: sum.split option.split)

lemma login_live: "action_live I (loginUser server)"
  unfolding loginUser_def
  by (auto simp: handler_ok_simps split: sum.split option.split bool.split
      dest!: GetUser_registered)

lemma logout_live: "action_live I (logoutUser server)"
  unfolding logoutUser_def
  by (auto simp: handler_ok_simps split: option.split bool.split)

lemma renew_live: "action_live I (renewAccessToken server)"
  unfolding renewAccessToken_def
  by (auto simp: handler_ok_simps split: sum.split option.split bool.split
      dest!: GetUser_registered)

lemma google_live: "action_live I (googleOAuth server)"
  unfolding googleOAuth_def
  by (auto simp: handler_ok_simps split: sum.split option.split bool.split attempt.split list.split
      dest!: UpsertUser_registered)

text \<open>The rest of the chain runs inside a middleware.\<close>

lemma next_live: "action_live I next \<Longrightarrow> kept I c \<Longrightarrow> kept I (after (next c))"
  using action_inD by blast

lemma handler_liveI:
  "(\<And>next c. action_live I next \<Longrightarrow> kept I c \<Longrightarrow> kept I (after (h next c))) \<Longrightarrow> handler_live I h"
  by (rule handler_inI) blast

lemma auth_live: "handler_live I (authMiddleware maker :: ('r, 'q) handler)"
proof (rule handler_liveI)
  fix "next" :: "('r, 'q) action" and c
  assume n: "action_live I next" and c: "kept I c"
  have v: "kept I (after (auth_verify maker t next c1))" if "kept I c1" for t c1
    using that by (auto simp: auth_verify_def split_beta split: sum.split intro!: next_live [OF n])
  show "kept I (after (authMiddleware maker next c))"
    using c by (auto simp: authMiddleware_def Let_def split: option.split intro!: v)
qed

lemma csrf_live: "handler_live I (csrfVerifyMiddleware csrf)"
  by (rule handler_liveI) (auto simp: csrfVerifyMiddleware_def split: sum.split intro!: next_live)

lemma limiter_live:
  assumes "0 < d"
  shows "handler_live I (rate_limit server api m d)"
  by (rule handler_liveI)
    (auto simp: rate_limit_def rateLimitMiddleware_def rate_headers_def handler_ok_simps assms
      split: option.split sum.split intro!: next_live)

lemma otp_live: "handler_live I (verifyOTPMiddleware g (sv_kvStore server) d :: ('r, 'q) handler)"
proof (rule handler_liveI)
  fix "next" :: "('r, 'q) action" and c :: "('r, 'q) ctx"
  assume n: "action_live I next" and c: "kept I c"
  have ran: "kept I (after (case next c1 of Panicked c3 \<Rightarrow> Panicked c3
      | Done c3 \<Rightarrow> Done (snd (kv_call (kv_Del (sv_kvStore server) k) c3))))" if "kept I c1" for c1 k
    using next_live [OF n that] by (auto split: outcome.split)
  show "kept I (after (verifyOTPMiddleware g (sv_kvStore server) d next c))"
    using c by (auto simp: verifyOTPMiddleware_def handler_ok_simps split: option.split sum.split intro!: ran)
qed

lemma test_payload_live: "handler_live I set_test_payload"
  by (rule handler_liveI) (simp add: set_test_payload_def next_live)

lemma TransferTx_names: "user_names (pl_db p) \<subseteq> user_names (pl_db (snd (TransferTx arg p)))"
  using TransferTx_snd [of p arg] transferred_frame(1) [of arg "pl_db p"]
  by (auto simp: same_rows_def user_names_def)

lemma sess_transfer: "kept I c \<Longrightarrow> kept I (snd (store_call (TransferTx arg) c))"
  by (rule sess_store, rule TransferTx_names)

lemmas then_live = store_then [where P = "kept I" for I] bind_then [where P = "kept I" for I]
  valid_then [where P = "kept I" for I] exchange_then [where P = "kept I" for I]

lemma lookups_live:
  "kept I c \<Longrightarrow> kept I (snd (validAccount i cur c))"
  "kept I c \<Longrightarrow> kept I (after (snd (currencyExchange oob f t n c)))"
  by (auto simp: validAccount_def currencyExchange_def split_beta split: sum.split)

lemma createTransfer_live: "action_live I (createTransfer server)"
  unfolding createTransfer_def action_in_def MustGet_def
  by (auto split: option.split intro!: then_live lookups_live sess_statements sess_transfer)

subsection \<open>Routes\<close>

lemma routes_live: "list_all (\<lambda>rt. \<forall>h\<in>set (rt_handlers rt). handler_live I h) (routes server)"
  by (simp add: routes_def Let_def api_route_def auth_route_def auth_chain_def plain_in sessionless_live
      updateUser_live login_live logout_live renew_live google_live auth_live csrf_live limiter_live
      otp_live test_payload_live createTransfer_live window)

text \<open>A request from a known address, and what its answer issues.\<close>

lemma handle_live:
  assumes "seeded vals (user_names (pl_db (sr_pool s))) I (sr_kv s)" and "rq_ip req \<noteq> []"
  shows "kept I (handle server meth path req s)"
proof -
  have new: "kept I (new_ctx req' s)" if "rq_ip req' = rq_ip req" for req'
    using assms that by (simp add: sess_ok_def ClientIP_def new_ctx_def sid_cookies_def)
  show ?thesis
  proof (cases "find_route (routes server) meth path")
    case None
    then show ?thesis by (simp add: handle_def new)
  next
    case (Some rt)
    then have "\<forall>h\<in>set (rt_handlers rt). handler_live I h"
      using find_route_Some [OF Some] routes_live by (auto simp: list_all_iff)
    from sessions.serve_in [OF this] have
      "kept I (new_ctx (bind_params (rt_path rt) path req) s) \<longrightarrow> kept I (handle server meth path req s)"
      by (simp add: handle_def Some)
    then show ?thesis using new by (simp add: bind_params_def split: option.split)
  qed
qed

end

subsection \<open>Runs of the system\<close>

text \<open>
  A run with the ids it has issued. A request comes from a client whose address is known;
  outside the program the users stay, and values of the store only expire.
\<close>

inductive live_step ::
    "('r \<Rightarrow> string \<Rightarrow> string option) \<Rightarrow> ('r, 'q) Server \<Rightarrow> 'm mailer \<Rightarrow>
      string set \<times> ('r, 'q, 'm) system \<Rightarrow> string set \<times> ('r, 'q, 'm) system \<Rightarrow> bool"
  for vals server mail where
  live_request: "rq_ip req \<noteq> [] \<Longrightarrow> handle server meth path req (sy_services w) = c \<Longrightarrow>
     live_step vals server mail (I, w) (I \<union> sid_cookies c, w\<lparr>sy_services := services_of c\<rparr>)"
| live_task: "run_task (worker_beside server redisOpt mail) t (worker_of w) = (r, ws) \<Longrightarrow>
     live_step vals server mail (I, w) (I, with_worker w ws)"
| live_outside: "users (system_db w') = users (system_db w) \<Longrightarrow>
     (\<And>k v. vals (sr_kv (sy_services w')) k = Some v \<Longrightarrow> vals (sr_kv (sy_services w)) k = Some v) \<Longrightarrow>
     live_step vals server mail (I, w) (I, w')"

inductive_cases live_stepE: "live_step vals server mail (I, w) (I', w')"

abbreviation live_steps where
  "live_steps vals server mail \<equiv> (live_step vals server mail)\<^sup>*\<^sup>*"

text \<open>The values of the store, against the users there are.\<close>

definition system_seeded ::
    "('r \<Rightarrow> string \<Rightarrow> string option) \<Rightarrow> string set \<times> ('r, 'q, 'm) system \<Rightarrow> bool" where
  "system_seeded vals x \<longleftrightarrow>
     seeded vals (user_names (system_db (snd x))) (fst x) (sr_kv (sy_services (snd x)))"

context session_server
begin

lemma worker_seeded:
  assumes "run_task (worker_beside server redisOpt mail) t ws = (r, ws')"
    and "seeded vals (user_names (pl_db (ws_pool ws))) I (ws_kv ws)"
  shows "seeded vals (user_names (pl_db (ws_pool ws'))) I (ws_kv ws')"
proof -
  have put: "seeded vals N I (snd (kv_Set (sv_kvStore server) (otp_key u) v d s))"
    if "seeded vals N I s" "u \<in> N" for N u v d s
    by (rule seeded_set [OF that(1)]) (use that(2) in \<open>auto simp: entry_ok_def\<close>)
  have "seeded vals (user_names (pl_db (ws_pool (snd (run_task (worker_beside server redisOpt mail) t ws))))) I
      (ws_kv (snd (run_task (worker_beside server redisOpt mail) t ws)))"
    using assms(2)
    by (auto simp: run_task_def ProcessTaskSendVerifyEmail_def worker_beside_def NewRedisTaskProcessor_def
        Let_def split_beta frame_simps split: option.split sum.split intro!: put dest!: GetUser_registered)
  then show ?thesis by (simp add: assms(1))
qed

lemma live_step_seeded:
  assumes "live_step vals server mail x y" and "system_seeded vals x"
  shows "system_seeded vals y"
  using assms
proof cases
  case (live_request req meth path w c I)
  then have "kept I c" using handle_live assms(2) by (force simp: system_seeded_def)
  then show ?thesis by (simp add: live_request sess_ok_def system_seeded_def services_of_def)
next
  case (live_task redisOpt t w r ws I)
  with worker_seeded [OF live_task(3), of I] assms(2) show ?thesis
    by (simp add: system_seeded_def worker_of_def with_worker_def)
next
  case (live_outside w' w I)
  with assms(2) show ?thesis by (auto simp: system_seeded_def seeded_def user_names_def)
qed

lemma live_steps_seeded:
  "live_steps vals server mail x y \<Longrightarrow> system_seeded vals x \<Longrightarrow> system_seeded vals y"
  by (induction rule: rtranclp_induct) (auto intro: live_step_seeded)

end

end
