(* ===== verification/Session_Trace.thy ===== *)
theory Session_Trace
  imports Session_Inv
begin

section \<open>Where sessions come from\<close>

text \<open>
  The invariant of Session_Inv at the renewal of a token: in a run of the system only a
  cookie the server sent opens the door. Without an address of the client the other keys of
  a session pass for sessions of their own, which a second theorem shows.
\<close>

lemma serve_plain:
  "\<not> c_aborted c \<Longrightarrow> serve [plain f] c = (case f c of
     Panicked c' \<Rightarrow> JSON 500 Empty (Abort c')
   | Done c' \<Rightarrow> if c_finished c' then c' else c'\<lparr>c_finished := True\<rparr>)"
  by (auto simp: serve_def plain_def split: outcome.split)

lemma handle_renew:
  "handle server ''GET'' [''api'', ''tokens'', ''renew_access''] req s = serve [plain (renewAccessToken server)]
    (new_ctx (bind_params [Lit ''api'', Lit ''tokens'', Lit ''renew_access'']
      [''api'', ''tokens'', ''renew_access''] req) s)"
  by (simp add: handle_def route_defs)

lemma handle_login:
  "handle server ''POST'' [''api'', ''users'', ''login''] req s = serve [plain (loginUser server)]
    (new_ctx (bind_params [Lit ''api'', Lit ''users'', Lit ''login'']
      [''api'', ''users'', ''login''] req) s)"
  by (simp add: handle_def route_defs)

lemma bind_params_simps [simp]:
  "rq_cookies (bind_params pat path req) = rq_cookies req" "rq_ip (bind_params pat path req) = rq_ip req"
  "rq_headers (bind_params pat path req) = rq_headers req" "rq_body (bind_params pat path req) = rq_body req"
  by (simp_all add: bind_params_def split: option.split)

text \<open>A renewal that answers 200, as the handler's run.\<close>

lemma renewed_session:
  assumes "kv_contract vals zs (sv_kvStore server)"
    and "c_writes (handle server ''GET'' [''api'', ''tokens'', ''renew_access''] req s) = [(200, r)]"
  shows "\<exists>sID username u t p e. rq_cookies req ''sid'' = Some sID \<and>
    vals (sr_kv s) (sid_key sID) = Some username \<and>
    (vals (sr_kv s) (ip_key sID) = Some (rq_ip req) \<or> rq_ip req = []) \<and>
    GetUser username (pl_db (sr_pool s)) = Inr u \<and>
    CreateToken (sv_tokenMaker server) (usr_username u) (usr_role u)
      (AccessTokenDuration (sv_config server)) (sr_env s) = (Inr (t, p), e) \<and>
    (''access_token'', t) \<in> set (named (c_cookies
      (handle server ''GET'' [''api'', ''tokens'', ''renew_access''] req s)))"
proof -
  define c where "c = new_ctx (bind_params [Lit ''api'', Lit ''tokens'', Lit ''renew_access'']
    [''api'', ''tokens'', ''renew_access''] req) s"
  obtain c' where run: "renewAccessToken server c = Done c'" "answered c c' 200 r"
    using assms(2) by (auto simp: handle_renew serve_plain answered_def c_def split: outcome.splits if_splits)
  from renewAccessToken_200 [OF run] obtain sID n username u t p k1 k2 k3 k4 c6 c7 c8 where l:
    "Cookie c ''sid'' = Some sID" "kv_Exists (sv_kvStore server) (sid_key sID) (c_kv c) = (Inr n, k1)"
    "kv_Get (sv_kvStore server) (sid_key sID) k1 = (Inr username, k2)"
    "or_empty (fst (kv_Get (sv_kvStore server) (agent_key sID) k2)) = UserAgent c"
    "k3 = snd (kv_Get (sv_kvStore server) (agent_key sID) k2)"
    "or_empty (fst (kv_Get (sv_kvStore server) (ip_key sID) k3)) = ClientIP c"
    "k4 = snd (kv_Get (sv_kvStore server) (ip_key sID) k3)" "GetUser username (db_of c) = Inr u"
    "CreateToken (sv_tokenMaker server) (usr_username u) (usr_role u)
      (AccessTokenDuration (sv_config server)) (c_env c) = (Inr (t, p), c_env c6)"
    "c_kv c6 = k4" "c_request c6 = c_request c" "c_cookies c6 = c_cookies c"
    "del_session server sID c6 = (True, c7)" "open_session server (usr_username u) c7 = (True, c8)"
    "c' = JSON 200 (Status ''success'') (set_access_cookie server t c8)" by blast
  have "(''access_token'', t) \<in> set (named (c_cookies c'))"
    using open_session_cookies [OF l(14), of t] l(15) by auto
  with run(1) have "(''access_token'', t) \<in> set (named (c_cookies
      (handle server ''GET'' [''api'', ''tokens'', ''renew_access''] req s)))"
    by (simp add: handle_renew serve_plain c_def)
  with kv_contract.stored_session [OF assms(1) l(2-4)] l(1,5,6,8,9) show ?thesis
    by (auto simp: Cookie_def ClientIP_def c_def)
qed

text \<open>
  C29. Only a session the server opened can be renewed: in every run from a store without
  values, a renewal that answers 200 to a client of a known address carries a cookie whose
  value is one of the random ids that earlier responses of the run set as \<open>sid\<close>, and the
  store holds a registered user and the address of the client under it.
\<close>

theorem sessions_issued:
  assumes "kv_contract vals zs (sv_kvStore server)" and "0 < APILimitDuration (sv_config server)"
    and "live_steps vals server mail ({}, w0) (I, w)" and "vals (sr_kv (sy_services w0)) = Map.empty"
    and "rq_ip req \<noteq> []"
    and "c_writes (handle server ''GET'' [''api'', ''tokens'', ''renew_access''] req (sy_services w)) = [(200, r)]"
  shows "\<exists>sID u. rq_cookies req ''sid'' = Some sID \<and> sID \<in> I \<and> is_id sID \<and>
    vals (sr_kv (sy_services w)) (sid_key sID) = Some u \<and> u \<in> user_names (system_db w) \<and>
    vals (sr_kv (sy_services w)) (ip_key sID) = Some (rq_ip req)"
proof -
  have srv: "session_server vals zs server"
    using assms(1,2) by (simp add: session_server_def session_server_axioms_def)
  have "system_seeded vals ({}, w0)" by (simp add: system_seeded_def seeded_def assms(4))
  from session_server.live_steps_seeded [OF srv assms(3) this]
  have s: "seeded vals (user_names (system_db w)) I (sr_kv (sy_services w))" by (simp add: system_seeded_def)
  from renewed_session [OF assms(1,6)] assms(5) genuine_cookie [OF s] show ?thesis by blast
qed

text \<open>alice logs in, and renews her token with the cookie she got.\<close>

definition login_services :: "(mem_redis, task list) services" where
  "login_services = sample_services\<lparr>sr_pool := sample_pool\<lparr>pl_db := login_db\<rparr>\<rparr>"

definition login_request :: "string \<Rightarrow> string \<Rightarrow> request" where
  "login_request agent ip =
     (sample_request [(''username'', JString ''alice''), (''password'', JString ''secret'')] None)
       \<lparr>rq_headers := (\<lambda>h. if h = ToLower ''User-Agent'' then agent else []), rq_ip := ip\<rparr>"

definition login_reply :: "string \<Rightarrow> string \<Rightarrow> (mem_redis, task list) ctx" where
  "login_reply agent ip = handle sample_server ''POST'' [''api'', ''users'', ''login'']
     (login_request agent ip) login_services"

definition renew_request :: "string \<Rightarrow> request" where
  "renew_request sID = (sample_request [] None)\<lparr>rq_cookies := [''sid'' \<mapsto> sID]\<rparr>"

lemma mem_put:
  assumes "mr_plan s = []" and "0 < d"
  shows "mem_vals (snd (kv_Set (NewRedisStore mem_redis_client) k v d s)) j =
    (if j = k then Some v else mem_vals s j)"
  using assms by (simp add: RedisStore_defs mem_redis_client_def mem_command_def Err_def mem_vals_def
      mem_deadline_def live_def)

lemma mem_opens:
  assumes "mr_plan (c_kv c) = []"
  shows "\<exists>i. is_id i \<and> i \<in> sid_cookies (snd (open_session sample_server u c)) \<and>
    mr_plan (c_kv (snd (open_session sample_server u c))) = [] \<and>
    mem_vals (c_kv (snd (open_session sample_server u c))) =
      (mem_vals (c_kv c))(sid_key i \<mapsto> u, agent_key i \<mapsto> UserAgent c, ip_key i \<mapsto> ClientIP c)"
  using assms RandomID_is_id [of "c_env c"] sample_durations
  by (intro exI [of _ "fst (RandomID (c_env c))"])
    (simp add: open_session_def set_session_def Let_def split_beta frame_simps mem_put fun_eq_iff
      UserAgent_def GetHeader_def)

lemma login_reply:
  "\<exists>i. i \<in> sid_cookies (login_reply agent ip) \<and> mr_plan (c_kv (login_reply agent ip)) = [] \<and>
    mem_vals (c_kv (login_reply agent ip)) = [sid_key i \<mapsto> ''alice'', agent_key i \<mapsto> agent, ip_key i \<mapsto> ip] \<and>
    db_of (login_reply agent ip) = login_db \<and> pl_faults (c_pool (login_reply agent ip)) = (\<lambda>_. NoFault)"
proof -
  let ?c = "new_ctx (bind_params [Lit ''api'', Lit ''users'', Lit ''login'']
    [''api'', ''users'', ''login''] (login_request agent ip)) login_services"
  have "c_body ?c = JsonBody (JObject [(''username'', JString ''alice''), (''password'', JString ''secret'')])"
    "c_pool ?c = sample_pool\<lparr>pl_db := login_db\<rparr>" "c_kv ?c = sample_kv"
    by (simp_all add: login_request_def sample_request_def login_services_def sample_services_def)
  with login_done [of ?c] obtain t c3 where run: "loginUser sample_server ?c = Done (JSON 200
      (Message ''login successfully'')
      (set_access_cookie sample_server t (snd (open_session sample_server ''alice'' c3))))"
    and c3: "c_kv c3 = sample_kv" "UserAgent c3 = agent" "ClientIP c3 = ip" "db_of c3 = login_db"
      "pl_faults (c_pool c3) = (\<lambda>_. NoFault)"
    by (auto simp: UserAgent_def GetHeader_def ClientIP_def login_request_def sample_pool_def sample_kv_def)
  let ?o = "snd (open_session sample_server ''alice'' c3)" and ?r = "login_reply agent ip"
  have "sid_cookies ?r = sid_cookies ?o \<and> c_kv ?r = c_kv ?o \<and> c_pool ?r = c_pool ?o"
    using run by (simp add: login_reply_def handle_login serve_plain set_access_cookie_def sid_cookies_SetCookie)
  moreover have "mem_vals (c_kv c3) = Map.empty"
    by (simp add: c3(1) sample_kv_def mem_vals_def live_def fun_eq_iff)
  ultimately show ?thesis
    using mem_opens [of c3 "''alice''"] c3 by (auto simp: frame_simps sample_kv_def)
qed

lemma sample_GetUser:
  "n = ''alice'' \<or> n = ''bob'' \<Longrightarrow> db_of c = login_db \<Longrightarrow> pl_faults (c_pool c) = (\<lambda>_. NoFault) \<Longrightarrow>
    \<exists>r. fst (exec_auto (select (GetUser n)) (c_pool c)) = Inr r \<and> usr_username r = n \<and> usr_role r = ''depositor''"
  by (auto simp: exec_auto_def select_def GetUser_def login_db_def sample_defs fault_of_def)

theorem sessions_issued_witness:
  "\<exists>I w sID c. live_steps mem_vals sample_server sample_mail
      ({}, sample_system\<lparr>sy_services := login_services\<rparr>) (I, w) \<and>
    handle sample_server ''GET'' [''api'', ''tokens'', ''renew_access''] (renew_request sID) (sy_services w) = c \<and>
    c_writes c = [(200, Status ''success'')] \<and> sID \<in> I \<and> is_id sID"
proof -
  let ?start = "sample_system\<lparr>sy_services := login_services\<rparr>" and ?r = "login_reply [] ''10.0.0.1''"
  let ?w = "?start\<lparr>sy_services := services_of ?r\<rparr>"
  obtain i where i: "i \<in> sid_cookies ?r" "mr_plan (c_kv ?r) = []"
    "mem_vals (c_kv ?r) = [sid_key i \<mapsto> ''alice'', agent_key i \<mapsto> [], ip_key i \<mapsto> ''10.0.0.1'']"
    "db_of ?r = login_db" "pl_faults (c_pool ?r) = (\<lambda>_. NoFault)"
    using login_reply by blast
  have "live_step mem_vals sample_server sample_mail ({}, ?start) ({} \<union> sid_cookies ?r, ?w)"
    by (rule live_step.live_request) (simp_all add: login_reply_def login_request_def)
  then have steps: "live_steps mem_vals sample_server sample_mail ({}, ?start) (sid_cookies ?r, ?w)"
    by (simp add: r_into_rtranclp)
  let ?c = "new_ctx (bind_params [Lit ''api'', Lit ''tokens'', Lit ''renew_access'']
    [''api'', ''tokens'', ''renew_access''] (renew_request i)) (sy_services ?w)"
  obtain u where u: "fst (exec_auto (select (GetUser ''alice'')) (c_pool ?r)) = Inr u"
    using sample_GetUser i(4,5) by blast
  have "\<exists>c'. renewAccessToken sample_server ?c = Done c' \<and> answered ?c c' 200 (Status ''success'')"
    by (rule mem_renews [of _ i "''alice''" u])
      (simp_all add: i u services_of_def Cookie_def renew_request_def sample_request_def UserAgent_def
        GetHeader_def ClientIP_def session_keys_distinct)
  then have ok: "c_writes (handle sample_server ''GET'' [''api'', ''tokens'', ''renew_access'']
      (renew_request i) (sy_services ?w)) = [(200, Status ''success'')]"
    by (auto simp: handle_renew serve_plain answered_def)
  have "mem_vals (sr_kv (sy_services ?start)) = Map.empty"
    by (simp add: login_services_def sample_services_def sample_kv_def mem_vals_def live_def fun_eq_iff)
  with sessions_issued [OF sample_store _ steps _ _ ok] steps ok show ?thesis
    by (fastforce simp: sample_config_def sample_server_def renew_request_def sample_request_def)
qed

definition attack_request :: "string \<Rightarrow> request" where
  "attack_request sID = (renew_request (sID @ '':user_agent''))\<lparr>rq_ip := []\<rparr>"

text \<open>
  C30. Only the address of the client keeps the keys of a session apart from sessions: where
  the server sees none, as on a Unix socket, a user who logs in with the name of another as
  the user agent and then presents the session id with the suffix ':user\_agent' gets
  an access token of the other user.
\<close>

theorem session_confusion:
  "\<exists>sID c t p e. sID \<in> sid_cookies (login_reply ''bob'' []) \<and>
    handle sample_server ''GET'' [''api'', ''tokens'', ''renew_access''] (attack_request sID)
      (services_of (login_reply ''bob'' [])) = c \<and>
    c_writes c = [(200, Status ''success'')] \<and> (''access_token'', t) \<in> set (named (c_cookies c)) \<and>
    CreateToken (sv_tokenMaker sample_server) ''bob'' ''depositor''
      (AccessTokenDuration (sv_config sample_server)) (c_env (login_reply ''bob'' [])) = (Inr (t, p), e)"
proof -
  let ?r = "login_reply ''bob'' []"
  obtain i where i: "i \<in> sid_cookies ?r" "mr_plan (c_kv ?r) = []"
    "mem_vals (c_kv ?r) = [sid_key i \<mapsto> ''alice'', agent_key i \<mapsto> ''bob'', ip_key i \<mapsto> []]"
    "db_of ?r = login_db" "pl_faults (c_pool ?r) = (\<lambda>_. NoFault)"
    using login_reply by blast
  let ?s = "i @ '':user_agent''"
  let ?c = "new_ctx (bind_params [Lit ''api'', Lit ''tokens'', Lit ''renew_access'']
    [''api'', ''tokens'', ''renew_access''] (attack_request i)) (services_of ?r)"
  have keys: "sid_key ?s = agent_key i" "agent_key ?s \<notin> {sid_key i, agent_key i, ip_key i}"
    "ip_key ?s \<notin> {sid_key i, agent_key i, ip_key i}"
    by (simp_all add: sid_key_def agent_key_def ip_key_def)
  obtain u where u: "fst (exec_auto (select (GetUser ''bob'')) (c_pool ?r)) = Inr u"
    "usr_username u = ''bob''" "usr_role u = ''depositor''"
    using sample_GetUser i(4,5) by blast
  have "\<exists>c'. renewAccessToken sample_server ?c = Done c' \<and> answered ?c c' 200 (Status ''success'')"
    by (rule mem_renews [of _ ?s "''bob''" u])
      (use keys in \<open>simp_all add: i u services_of_def Cookie_def attack_request_def renew_request_def
        sample_request_def UserAgent_def GetHeader_def ClientIP_def session_keys_distinct\<close>)
  then have ok: "c_writes (handle sample_server ''GET'' [''api'', ''tokens'', ''renew_access'']
      (attack_request i) (services_of ?r)) = [(200, Status ''success'')]"
    by (auto simp: handle_renew serve_plain answered_def)
  have "mem_vals (c_kv ?r) (sid_key ?s) = Some ''bob''"
    by (simp add: keys(1) i(3) session_keys_distinct)
  moreover have "GetUser ''bob'' (db_of ?r) = Inr u" by (rule exec_select_Inr [OF u(1)])
  ultimately show ?thesis
    using renewed_session [OF sample_store ok] ok i(1) u(2,3)
    by (auto simp: services_of_def attack_request_def renew_request_def)
qed

end
