(* ===== verification/Concurrent_Bank.thy ===== *)
theory Concurrent_Bank
  imports Concurrent_Claims
begin

section \<open>A bank that stays open\<close>

text \<open>
  Interleaved transfers while the bank goes on: requests for transfers arrive at any time,
  \<open>CreateAccount\<close> opens accounts between the statements of running transfers, and
  connections are lost. The accounts there were keep their place in the ledger, new ones
  start at zero.
\<close>

inductive bank_step ::
    "TransferTxParams list \<times> shared \<Rightarrow> TransferTxParams list \<times> shared \<Rightarrow> bool" where
  runs: "shared_step b b' \<Longrightarrow> bank_step (args, b) (args, b')"
| arrives: "bank_step (args, b) (args @ [arg], b\<lparr>sh_txns := sh_txns b @ [begun arg]\<rparr>)"
| opens: "sh_rows b i = None \<Longrightarrow> bank_step (args, b) (args, b\<lparr>sh_rows := (sh_rows b)(i \<mapsto> 0)\<rparr>)"

abbreviation bank_steps where
  "bank_steps \<equiv> bank_step\<^sup>*\<^sup>*"

definition vacant :: "ledger \<Rightarrow> shared" where
  "vacant l = started l []"

text \<open>Entries, committed or not, are those of accounts that exist.\<close>

definition entries_known :: "shared \<Rightarrow> bool" where
  "entries_known b \<longleftrightarrow> fst ` set (sh_log b) \<subseteq> dom (sh_rows b) \<and>
     (\<forall>t\<in>set (sh_txns b). fst ` set (tn_entries t) \<subseteq> dom (sh_rows b))"

lemma added_unknown: "i \<notin> fst ` set xs \<Longrightarrow> added i xs = 0"
  by (induction i xs rule: added.induct) auto

lemma dom_seen [simp]: "dom (seen b t) = dom (sh_rows b)"
  by (auto simp: seen_def)

lemma set_update_ball:
  assumes "\<forall>t\<in>set ts. P t" and "P t"
  shows "\<forall>t\<in>set (ts[k := t]). P t"
  using assms set_update_subset_insert [of ts k t] by blast

lemma entries_known_upd:
  assumes "entries_known b" and "fst ` set (tn_entries t) \<subseteq> dom (sh_rows b)"
    and "sh_txns b' = (sh_txns b)[k := t]" and "dom (sh_rows b') = dom (sh_rows b)"
    and "fst ` set (sh_log b') \<subseteq> dom (sh_rows b)"
  shows "entries_known b'"
  using set_update_ball [of "sh_txns b" "\<lambda>t. fst ` set (tn_entries t) \<subseteq> dom (sh_rows b)" t k] assms
  by (simp add: entries_known_def)

lemma entries_known_moves:
  assumes "entries_known b" and "k < length (sh_txns b)"
  shows "entries_known (rolled_back k e b)" "entries_known (committed k b)"
    and "fst ` set (tn_entries t) \<subseteq> dom (sh_rows b) \<Longrightarrow> entries_known (goes_on k t b)"
proof -
  have t: "fst ` set (tn_entries (sh_txns b ! k)) \<subseteq> dom (sh_rows b)" "fst ` set (sh_log b) \<subseteq> dom (sh_rows b)"
    using assms by (simp_all add: entries_known_def)
  show "entries_known (rolled_back k e b)" "entries_known (committed k b)"
    by (rule entries_known_upd [OF assms(1), of "(sh_txns b ! k)\<lparr>tn_todo := [], tn_status := RolledBack e\<rparr>" _ k]
        entries_known_upd [OF assms(1), of "(sh_txns b ! k)\<lparr>tn_todo := [], tn_status := Committed\<rparr>" _ k];
      use t in \<open>simp add: rolled_back_def committed_def Let_def image_Un\<close>)+
  show "fst ` set (tn_entries t) \<subseteq> dom (sh_rows b) \<Longrightarrow> entries_known (goes_on k t b)"
    by (rule entries_known_upd [OF assms(1), of t _ k]) (use t in \<open>simp_all add: goes_on_def\<close>)
qed

lemma entries_known_locks [simp]: "entries_known (b\<lparr>sh_locks := lk\<rparr>) = entries_known b"
  by (simp add: entries_known_def)

lemma entries_known_step:
  assumes "shared_step b b'" and "entries_known b"
  shows "entries_known b'"
  using assms(1)
proof (cases rule: shared_step.cases)
  case (statement k)
  then have k: "k < length (sh_txns b)" by (auto simp: txn_step_def split: if_splits)
  then have "fst ` set (tn_entries (sh_txns b ! k)) \<subseteq> dom (sh_rows b)"
    using assms(2) by (simp add: entries_known_def)
  then have t: "\<exists>v. sh_rows b i = Some v" if "(i, n) \<in> set (tn_entries (sh_txns b ! k))" for i n
    using that by force
  obtain q qs where q: "tn_todo (sh_txns b ! k) = q # qs"
    using statement k by (cases "tn_todo (sh_txns b ! k)") (simp_all add: txn_step_def)
  show ?thesis
    using statement k q
    by (cases q) (auto simp: txn_step_def Let_def entries_known_moves(1,2) [OF assms(2) k]
        split: if_splits option.splits intro!: entries_known_moves(3) [OF assms(2) k] dest!: t)
next
  case (lost k)
  then show ?thesis using entries_known_moves(1) [OF assms(2)] by simp
qed

text \<open>The ledger the bank would show had no transfer run: new accounts hold nothing.\<close>

definition grown :: "ledger \<Rightarrow> ledger \<Rightarrow> bool" where
  "grown l l' \<longleftrightarrow> (\<forall>i. l' i = l i \<or> l i = None \<and> l' i = Some 0)"

definition bank_inv :: "ledger \<Rightarrow> TransferTxParams list \<times> shared \<Rightarrow> bool" where
  "bank_inv l x \<longleftrightarrow> (\<exists>l'. grown l l' \<and> shared_ok l' (fst x) (snd x) \<and> entries_known (snd x))"

lemma arrival_ok:
  assumes "shared_ok l args b"
  shows "shared_ok l (args @ [arg]) (b\<lparr>sh_txns := sh_txns b @ [begun arg]\<rparr>)"
proof -
  have len: "length (sh_txns b) = length args" using assms by (simp add: shared_ok_def)
  have "txn_ok arg (begun arg)" by (simp add: txn_ok_def begun_def transfer_program_def)
  moreover have "locks_ok (b\<lparr>sh_txns := sh_txns b @ [begun arg]\<rparr>)"
    using assms by (auto simp: shared_ok_def locks_ok_def nth_append begun_def less_Suc_eq)
  moreover have "(\<Sum>k<Suc (length args). posted ((args @ [arg]) ! k) ((sh_txns b @ [begun arg]) ! k) i) =
      (\<Sum>k<length args. posted (args ! k) (sh_txns b ! k) i)" for i
    using len by (auto simp: posted_def begun_def nth_append intro!: sum.cong)
  ultimately show ?thesis
    using assms len by (simp add: shared_ok_def books_ok_def nth_append less_Suc_eq)
qed

lemma opening_ok:
  assumes "shared_ok l args b" and "entries_known b" and "sh_rows b i = None"
  shows "shared_ok (l(i \<mapsto> 0)) args (b\<lparr>sh_rows := (sh_rows b)(i \<mapsto> 0)\<rparr>)"
proof -
  have "added i (sh_log b) = 0" using assms(2,3) by (intro added_unknown) (auto simp: entries_known_def)
  with assms(1) show ?thesis by (simp add: shared_ok_def locks_ok_def books_ok_def)
qed

lemma bank_step_inv:
  assumes "bank_step x y" and "bank_inv l x"
  shows "bank_inv l y"
  using assms
proof cases
  case (runs b b' args)
  from assms(2) runs obtain l' where l': "grown l l'" "shared_ok l' args b" "entries_known b"
    by (auto simp: bank_inv_def)
  have "shared_ok l' args b'"
    using runs(3)
  proof (cases rule: shared_step.cases)
    case (statement k)
    then show ?thesis by (rule statement_ok [OF l'(2)])
  next
    case (lost k)
    with l'(2) have "k < length args" "tn_status (sh_txns b ! k) = Running"
      by (auto simp: shared_ok_def txn_ok_def split: if_splits)
    with lost show ?thesis using ok_rolled_back [OF l'(2)] by simp
  qed
  with l' entries_known_step [OF runs(3)] show ?thesis by (auto simp: bank_inv_def runs(2))
next
  case (arrives args b arg)
  with assms(2) obtain l' where "grown l l'" "shared_ok l' args b" "entries_known b"
    by (auto simp: bank_inv_def)
  moreover from this(3) have "entries_known (b\<lparr>sh_txns := sh_txns b @ [begun arg]\<rparr>)"
    by (auto simp: entries_known_def begun_def)
  ultimately show ?thesis using arrival_ok by (auto simp: bank_inv_def arrives(2))
next
  case (opens b i args)
  with assms(2) obtain l' where l': "grown l l'" "shared_ok l' args b" "entries_known b"
    by (auto simp: bank_inv_def)
  have "l' i = None" using l'(2) opens(3) by (simp add: shared_ok_def books_ok_def)
  then have "l i = None" using l'(1) by (metis grown_def option.distinct(1))
  with l'(1) have "grown l (l'(i \<mapsto> 0))" by (simp add: grown_def)
  moreover from l'(3) have "entries_known (b\<lparr>sh_rows := (sh_rows b)(i \<mapsto> 0)\<rparr>)"
    by (simp add: entries_known_def) blast
  ultimately show ?thesis
    using opening_ok [OF l'(2,3) opens(3)] by (auto simp: bank_inv_def opens(2))
qed

lemma bank_steps_inv: "bank_steps ([], vacant l) x \<Longrightarrow> bank_inv l x"
proof (induction rule: rtranclp_induct)
  case base
  have "grown l l" "entries_known (vacant l)"
    by (simp_all add: grown_def entries_known_def vacant_def started_def)
  then show ?case using started_ok [of l "[]"] by (auto simp: bank_inv_def vacant_def)
qed (rule bank_step_inv)

text \<open>Transfers that run from the start are transfers that arrived before the first statement.\<close>

lemma bank_runs: "shared_steps b b' \<Longrightarrow> bank_steps (args, b) (args, b')"
  by (induction rule: rtranclp_induct) (auto intro: runs rtranclp.rtrancl_into_rtrancl)

lemma bank_starts: "bank_steps ([], vacant l) (args, started l args)"
proof (induction args rule: rev_induct)
  case Nil
  show ?case by (simp add: vacant_def)
next
  case (snoc arg args)
  have "bank_step (args, started l args)
      (args @ [arg], (started l args)\<lparr>sh_txns := sh_txns (started l args) @ [begun arg]\<rparr>)" by (rule arrives)
  with snoc show ?case by (simp add: started_def)
qed

subsection \<open>Claims\<close>

text \<open>
  C21. Books and atomicity under every interleaving: whenever requests for transfers arrive
  and accounts are opened, whatever the order in which the statements of the transfers
  reach the database and whatever connections are lost, every balance is the initial one
  (nothing for an account opened since) plus the committed entries of the account, and the
  committed entries are, for each account, those of exactly the transfers that committed,
  each once and in full; no account is ever lost.
\<close>

theorem concurrent_books:
  assumes "bank_steps ([], vacant l) (args, b)"
  shows "(\<forall>i v. sh_rows b i = Some v \<longrightarrow> v = (case l i of None \<Rightarrow> 0 | Some w \<Rightarrow> w) + added i (sh_log b)) \<and>
    (\<forall>i. added i (sh_log b) = (\<Sum>k<length args.
       if tn_status (sh_txns b ! k) = Committed
       then added i [(ttp_from_account_id (args ! k), debit_of (args ! k)),
                     (ttp_to_account_id (args ! k), ttp_to_amount (args ! k))]
       else 0)) \<and> dom l \<subseteq> dom (sh_rows b)"
proof -
  have "entries_of (transfer_program arg) = [(ttp_from_account_id arg, debit_of arg),
      (ttp_to_account_id arg, ttp_to_amount arg)]" for arg
    by (simp add: transfer_program_def balance_updates_def Let_def debit_of_def)
  moreover obtain l' where l': "grown l l'" "shared_ok l' args b"
    using bank_steps_inv [OF assms] by (auto simp: bank_inv_def)
  moreover have "sh_rows b i = map_option (\<lambda>v. v + added i (sh_log b)) (l' i)" for i
    using l'(2) by (simp add: shared_ok_def books_ok_def)
  moreover have "(case l i of None \<Rightarrow> 0 | Some w \<Rightarrow> w) = w" if "l' i = Some w" for i w
    using l'(1) that by (metis grown_def option.case option.inject)
  moreover have "l' i \<noteq> None" if "l i = Some w" for i w
    using l'(1) that by (metis grown_def option.distinct(1))
  ultimately show ?thesis
    by (auto simp: shared_ok_def books_ok_def posted_def cong: if_cong)
qed

text \<open>A transfer of 80 is under way when account 4 is opened and 10 are sent to it.\<close>

definition busy_args :: "TransferTxParams list" where
  "busy_args = [sample_transfer 1 2 80, sample_transfer 1 4 10]"

definition busy_before :: shared where
  "busy_before = run_schedule [0, 0, 0] (started race_ledger [sample_transfer 1 2 80])"

definition busy_after :: shared where
  "busy_after = (let b = busy_before\<lparr>sh_rows := (sh_rows busy_before)(4 \<mapsto> 0)\<rparr>
     in b\<lparr>sh_txns := sh_txns b @ [begun (sample_transfer 1 4 10)]\<rparr>)"

definition busy_end :: shared where
  "busy_end = run_schedule [1, 0, 1, 0, 1, 0, 1, 0, 1, 1, 1] busy_after"

lemma busy_steps: "bank_steps ([], vacant race_ledger) (busy_args, busy_end)"
proof -
  let ?a = "[sample_transfer 1 2 80]"
  have "bank_steps ([], vacant race_ledger) (?a, busy_before)"
    unfolding busy_before_def by (rule rtranclp_trans [OF bank_starts bank_runs [OF run_schedule_steps]])
  moreover have "bank_step (?a, busy_before) (?a, busy_before\<lparr>sh_rows := (sh_rows busy_before)(4 \<mapsto> 0)\<rparr>)"
    by (rule opens) code_simp
  moreover have "bank_step (?a, busy_before\<lparr>sh_rows := (sh_rows busy_before)(4 \<mapsto> 0)\<rparr>) (busy_args, busy_after)"
    using arrives [of ?a "busy_before\<lparr>sh_rows := (sh_rows busy_before)(4 \<mapsto> 0)\<rparr>" "sample_transfer 1 4 10"]
    by (simp add: busy_after_def busy_args_def Let_def)
  ultimately have "bank_steps ([], vacant race_ledger) (busy_args, busy_after)" by (meson rtranclp.simps)
  then show ?thesis unfolding busy_end_def by (rule rtranclp_trans [OF _ bank_runs [OF run_schedule_steps]])
qed

lemma busy_result:
  "map tn_status (sh_txns busy_end) = [Committed, Committed]" "sh_rows busy_end 4 = Some 10"
  by code_simp+

theorem concurrent_books_witness:
  "sh_rows busy_end 4 = Some (added 4 (sh_log busy_end)) \<and> added 1 (sh_log busy_end) = - 90"
proof -
  have st: "tn_status (sh_txns busy_end ! 0) = Committed" "tn_status (sh_txns busy_end ! 1) = Committed"
    by code_simp+
  have "debit_of (sample_transfer 1 2 80) = - 80" "debit_of (sample_transfer 1 4 10) = - 10" by code_simp+
  with st concurrent_books [OF busy_steps] busy_result(2) show ?thesis
    by (simp add: race_ledger_def busy_args_def lessThan_Suc numeral_2_eq_2)
qed

text \<open>
  C22. No deadlock: in every state that the open bank can reach, as long as one transfer has
  not ended some transfer can run its next statement, because \<open>update_balances\<close> locks the
  accounts in the order of their numbers.
\<close>

theorem concurrent_no_deadlock:
  assumes "bank_steps ([], vacant l) (args, b)" and "k < length args" and "tn_todo (sh_txns b ! k) \<noteq> []"
  shows "\<exists>j b'. txn_step j b = Some b'"
proof -
  obtain l' where ok: "shared_ok l' args b" using bank_steps_inv [OF assms(1)] by (auto simp: bank_inv_def)
  then have "reached b" "k < length (sh_txns b)" using assms(2) by (auto simp: reached_def shared_ok_def)
  moreover have "txn_busy b k" using assms(3) by (simp add: txn_busy_def)
  ultimately obtain j where "j < length (sh_txns b)" "txn_busy b j" "\<not> row_locks.blocked b j"
    using row_locks.somebody_goes_on by blast
  then show ?thesis using txn_step_enabled by blast
qed

text \<open>Two transfers in opposite directions, each after its inserts and the first with a lock.\<close>

definition crossing :: shared where
  "crossing = run_schedule ([0, 1] @ [0, 1] @ [0, 1] @ [0, 1] @ [0])
     (started race_ledger [sample_transfer 1 2 80, sample_transfer 2 1 0])"

theorem concurrent_no_deadlock_witness:
  "txn_step 1 crossing = None \<and> (\<exists>j b'. txn_step j crossing = Some b')"
proof -
  let ?a = "[sample_transfer 1 2 80, sample_transfer 2 1 0]"
  have "bank_steps ([], vacant race_ledger) (?a, crossing)"
    unfolding crossing_def by (rule rtranclp_trans [OF bank_starts bank_runs [OF run_schedule_steps]])
  moreover have "tn_todo (sh_txns crossing ! 1) \<noteq> []" "txn_step 1 crossing = None" by code_simp+
  ultimately show ?thesis using concurrent_no_deadlock [of race_ledger ?a crossing 1] by simp
qed

end
