(* ===== verification/Otp_Race.thy ===== *)
theory Otp_Race
  imports Otp_Claims
begin

section \<open>One code, two requests\<close>

text \<open>
  The middleware deletes the secret of a code after the handler has run. A request that
  arrives in between finds it: here two transfers of 30 run, one inside the other, with one
  code.
\<close>

text \<open>A request goes on after another changed the services behind the server.\<close>

definition resume :: "('r, 'q) ctx \<Rightarrow> ('r, 'q) ctx \<Rightarrow> ('r, 'q) ctx" where
  "resume c s = c\<lparr>c_pool := c_pool s, c_kv := c_kv s, c_queue := c_queue s, c_env := c_env s\<rparr>"

definition meanwhile :: "('r, 'q) action \<Rightarrow> ('r, 'q) ctx \<Rightarrow> ('r, 'q) action \<Rightarrow> ('r, 'q) action" where
  "meanwhile other c2 next c = next (resume c (after (other (resume c2 c))))"

lemma resume_simps [simp]:
  "c_pool (resume c s) = c_pool s" "c_kv (resume c s) = c_kv s" "c_env (resume c s) = c_env s"
  "c_payload (resume c s) = c_payload c" "c_body (resume c s) = c_body c"
  "c_writes (resume c s) = c_writes c"
  by (simp_all add: resume_def)

text \<open>A code that is good where the rest of the chain starts is good for another request there.\<close>

lemma code_still_good:
  assumes "c_payload c = Some p" and "otp_of (c_body c) = Some otp"
    and "kv_Get kv (otp_key (pay_Username p)) (c_kv c) = (Inr secret, c_kv c)"
    and "\<And>n. gt_VerifyTime g secret 6 (int_Seconds d) otp (Unix (e_clock (c_env c) n))"
    and "c_payload c2 = Some p" and "otp_of (c_body c2) = Some otp"
    and "nxt2 (otp_passed (c_kv c) (resume c2 (otp_passed (c_kv c) c))) = Done c3"
    and "nxt (resume (otp_passed (c_kv c) c) (snd (kv_call (kv_Del kv (otp_key (pay_Username p))) c3))) = Done c4"
  shows "verifyOTPMiddleware g kv d (meanwhile (verifyOTPMiddleware g kv d nxt2) c2 nxt) c =
    Done (snd (kv_call (kv_Del kv (otp_key (pay_Username p))) c4))"
proof -
  let ?c1 = "otp_passed (c_kv c) c"
  have "verifyOTPMiddleware g kv d nxt2 (resume c2 ?c1) =
      Done (snd (kv_call (kv_Del kv (otp_key (pay_Username p))) c3))"
    using otp_run [of "resume c2 ?c1" p otp kv "Inr secret" "c_kv c" g d nxt2] assms
    by (simp add: time_now_def otp_passed_def)
  then have "meanwhile (verifyOTPMiddleware g kv d nxt2) c2 nxt ?c1 = Done c4"
    using assms(8) by (simp add: meanwhile_def)
  then show ?thesis
    using otp_run [OF assms(1-3), of g d "meanwhile (verifyOTPMiddleware g kv d nxt2) c2 nxt"] assms(4)
    by (simp add: time_now_def)
qed

text \<open>alice's transfer of 30, twice.\<close>

definition race_ctx :: "(mem_redis, task list) ctx" where
  "race_ctx = (alice_ctx (transfer_body 1 2 30 ''USD''))\<lparr>c_kv := sr_kv otp_services,
     c_env := sr_env otp_services\<rparr>"

definition paid_once :: db where
  "paid_once = transferred (sample_transfer 1 2 30) sample_db"

lemmas paid_defs = paid_once_def transferred_def moved_accounts_def from_entry_def to_entry_def
  debit_of_def sample_defs wrap_def seq_max_def

lemma paid_ready: "transfer_ready (sample_transfer 1 2 30) paid_once"
  by (simp add: transfer_ready_def balances_fit_def balance_in_def sample_transfer_def
      paid_defs fits_def int_min_def int_max_def add_balance_def)

lemma paid_twice: "map acc_balance (accounts (transferred (sample_transfer 1 2 30) paid_once)) = [40, 110, 40]"
  by (simp add: paid_defs add_balance_def)

lemma race_pays:
  assumes "c_payload c = Some alice_payload" and "c_body c = JsonBody (JObject (transfer_body 1 2 30 ''USD''))"
    and "healthy (c_pool c)" and "db_of c = sample_db \<or> db_of c = paid_once"
  shows "\<exists>c' r. createTransfer sample_server c = Done c' \<and> answered c c' 200 (TransferReply r) \<and>
    healthy (c_pool c') \<and> db_of c' = transferred (sample_transfer 1 2 30) (db_of c)"
proof -
  let ?arg = "sample_transfer 1 2 30" and ?p = "called (called (called (called (c_pool c))))"
  have p: "healthy ?p" "pl_db ?p = db_of c" using assms(3) by (simp_all add: healthy_def)
  have "wf_db (pl_db ?p)" "transfer_ready ?arg (pl_db ?p)"
    using assms(4) paid_ready sample_ready wf_transferred [OF wf_sample sample_ready]
    by (auto simp: p(2) paid_once_def)
  with TransferTx_healthy [OF p(1)] obtain r q where tx: "TransferTx ?arg ?p = (Inr r, q)" by blast
  have of: "transfer_of sample_libs c ?arg"
    using assms(4)
  proof
    assume "db_of c = sample_db"
    then show ?thesis
      by (intro alice_pays_from [OF assms(1,2), of "sample_account 1 ''alice'' 100 ''USD''"
          "sample_account 2 ''bob'' 50 ''USD''"])
        (simp_all add: GetAccount_def GetExchangeRate_def sample_defs)
  next
    assume "db_of c = paid_once"
    then show ?thesis
      by (intro alice_pays_from [OF assms(1,2), of "sample_account 1 ''alice'' 70 ''USD''"
          "sample_account 2 ''bob'' 80 ''USD''"])
        (simp_all add: GetAccount_def GetExchangeRate_def paid_defs add_balance_def)
  qed
  have "healthy q" using TransferTx_faults [OF tx] p(1) by (simp add: healthy_def)
  with createTransfer_transaction [of c sample_server ?arg r q] of tx assms(3) TransferTx_InrD [OF tx] p(2)
  show ?thesis by auto
qed

lemma race_good:
  "gt_VerifyTime step_gotp ''SECRET'' 6 (int_Seconds (300 * 1000000000)) ''000003'' (Unix (e_clock (c_env race_ctx) n))"
  using otp_of_second_1000 by (simp add: race_ctx_def otp_services_def)


end
