(* ===== verification/Spec2Isabelle.thy ===== *)
theory Spec2Isabelle
  imports Prelude Go_Float Database Database_Inv Store Store_Frame Store_Spec Store_Props Samples
    Store_Claims Go_Text Runtime Util Token Redis Binding Worker Gin Middleware Api_Account
    Api_Transfer Session Api_User Api_OAuth Server
    Api_Frame Exchange Bank System Api_Samples System_Claims Auth_Claims Transfer_Claims
    Concurrent Concurrent_Claims Session_Claims Otp_Claims Process Process_Claims Chains Replies User_Claims
    Store_Queries Session_Inv Session_Trace Concurrent_Bank Otp_Race
begin

text \<open>
  Go2Bank: a bank behind an HTTP API, in Go. Users register, log in by password or with
  Google, open accounts in three currencies and move money between accounts, with a mailed
  one-time code for each transfer. The data is in Postgres, sessions, codes and rate limits
  in Redis, and a worker sends the mails.

  \<^bold>\<open>The program and its model.\<close>
  Each theory of the model holds the definitions of one part, named as in the code, with the
  lemmas that say how they run. State is passed explicitly, errors are values of sum types,
  panics are values too. A request is a \<open>ctx\<close> (Gin) that holds the request, what was
  written to the response, and the services: database pool, key-value store, task queue,
  clock and random source.

  \<^item> Prelude, Go_Text, Go_Float, Runtime: rows of tables, wrap-around of 32 and 64 bits,
    strings, hex and base32, rounding to double precision, clock and random source.
  \<^item> Database (src/db/sqlc, src/db/migration, src/db/query): the rows, and each query as
    its SQL says, constraints included; Database_Inv: the integrity of the schema, kept by
    every statement.
  \<^item> Store (src/db/sqlc/store.go): \<open>execTx\<close>, \<open>addMoney\<close>, \<open>TransferTx\<close> over a connection on
    which any request or reply can be lost. Store_Frame, Store_Spec and Store_Props: what a
    transaction leaves alone, the ledger it implements, and its properties. Store_Queries
    (db.go, querier.go): the queries behind their interface, on the pool or a transaction,
    and the store made of them.
  \<^item> Concurrent (the same file): transfers as programs of SQL statements that interleave
    under row locks at read committed, where \<open>Store\<close> runs each transfer alone;
    Concurrent_Bank: the same while transfers arrive and accounts are opened.
  \<^item> Util (src/util, src/api/rbac.go), Token (src/token), Redis (src/redis), Worker
    (src/worker, src/mail), Binding (how gin decodes and validates a request, and the field
    readers), Gin (context, chain of handlers, recovery).
  \<^item> Middleware (src/api/middleware.go), Api_Account, Api_Transfer (with otp.go), Session
    (renew.go and what the logins share), Api_User (with validator.go), Api_OAuth, Server
    (src/api/server.go: routes, settings, and \<open>handle\<close>, a request from path to response).
  \<^item> Process (src/main.go, with \<open>LoadConfig\<close> and the start of the worker): the start and its
    failures, and the goroutines of the wait group as a step relation up to the exit.
  \<^item> Chains, Api_Frame, Exchange, Bank, System, Replies, Session_Inv: relations that a chain
    of handlers keeps, what requests keep of the database, the arithmetic of the conversion,
    the invariants, the reachable states of the whole system (requests, worker, crawler,
    anything outside the database), the answers, and what the key-value store holds.
  \<^item> Samples and Api_Samples: a small bank and server for the witnesses.

  \<^bold>\<open>Interfaces.\<close>
  The packages the program calls are parameters. What is relied on is stated as locales and
  interpreted on the model: \<open>kv_contract\<close> (given by \<open>redis_package\<close>, a Redis in memory with
  expiry), \<open>bcrypt_package\<close>, \<open>gotp_package\<close>, \<open>validator_package\<close>, the locales of Token for
  the sealing of tokens and the interface \<open>Maker\<close>, \<open>ordered_locks\<close> for the row locks of
  concurrent transfers, \<open>chain_rel\<close> and \<open>request_keeps\<close> for a relation that every chain of
  handlers, every request keeps, \<open>querier_sim\<close> for queries that answer alike on the pool and
  in a transaction, and \<open>session_server\<close> for a server over a store with the contract.

  \<^bold>\<open>What is shown.\<close>
  \<^item> Store_Claims: a transfer happens in full or not at all under any loss of messages;
    it keeps the books and never overdraws when it runs alone; it refines a ledger.
  \<^item> Concurrent_Bank, Concurrent_Claims: interleaved transfers keep the books and never
    deadlock, whenever they arrive; they end; run one after another they are the ledger;
    but two of them can overdraw an account.
  \<^item> System_Claims: books, log, identities, kinds of users and solvency in every reachable
    state of the system.
  \<^item> Auth_Claims, Otp_Claims, Session_Claims: no protected route without a valid token, no
    transfer without the mailed code, which serves one request (two when they overlap:
    Otp_Race); the bound of the rate limiter; login, renewal and logout open, rotate and
    end a session.
  \<^item> Session_Trace: in a run of the system only a cookie the server sent renews a token;
    without the client's address other keys of the store pass for sessions.
  \<^item> Store_Queries: a transfer answers as its statements would one by one on the pool.
  \<^item> Transfer_Claims: who can transfer what, that the answer tells the truth, when a
    transfer succeeds, and how exact the conversion of currencies is.
  \<^item> User_Claims: accounts are shown to their owner only, answers have the API's types,
    and only a banker changes another user.
  \<^item> Process_Claims: a start wires server and worker together and the invariants hold from
    then on; the shutdown ends, after the last request.

  \<^bold>\<open>Bounds.\<close>
  No fuel is used: every loop of the program is a structural recursion. Integers are \<open>int\<close>
  with the wrap-around of \<open>int32\<close> and \<open>int64\<close> written out where the code computes; floats
  are the rationals of double precision with infinities and not-a-number, rounded to even.
  The termination of transfers and of the shutdown is by the measures \<open>work\<close> and
  \<open>process_work\<close>.

  \<^bold>\<open>Not modelled.\<close>
  Requests are steps of their own except for the transfers in Concurrent, the accounts opened
  beside them in Concurrent_Bank and the overlapping requests of Otp_Race; how the
  statements of different handlers interleave otherwise is left out. Of gin, the router, the
  chain and the recovery are modelled, not the encoding of JSON into bytes; of the CORS
  package only its settings. Logging is left out. The retries and queues of asynq, the
  delivery of mail and the HTTP client are parameters. The mocks are generated for the
  tests; the crawler (src/crawl) is a Python program of its own, present as a step that
  changes the rates; src/eks is deployment.
\<close>

end
